(* ===== verification/Fapi_Prelude.thy ===== *)
theory Fapi_Prelude
  imports Main
begin

text \<open>
  Shared vocabulary of the development: Python exceptions as values, the result type of
  fallible code with its sequencing operator, the fixed text literals of the sources as
  code point lists, actions on a state, and the generic list lemmas that the component theories use.

  A Python \<open>str\<close> is a list of code points (\<open>pystr\<close>), a Python \<open>bytes\<close> object is a list of
  HOL's 8 bit characters (\<open>bytes\<close>). \<open>lit\<close> turns an ASCII literal of the source into the
  \<open>str\<close> it denotes.
\<close>

type_synonym pystr = "nat list"
type_synonym bytes = "char list"

named_theorems res_simps \<open>unfolding of sequenced results\<close>
named_theorems text_simps \<open>evaluation of the Python text operations\<close>
named_theorems dict_simps \<open>lookup after update in Python dictionaries\<close>

section \<open>Text literals\<close>

definition lit :: "string \<Rightarrow> pystr" where
  "lit s = map of_char s"

lemma lit_Nil [simp]: "lit [] = []"
  by (simp add: lit_def)

lemma lit_eq_Nil_iff [simp]: "lit s = [] \<longleftrightarrow> s = []"
  by (simp add: lit_def)

lemma lit_inject [simp]: "lit s = lit t \<longleftrightarrow> s = t"
proof -
  have "inj (of_char :: char \<Rightarrow> nat)"
    by (rule inj_of_char)
  then show ?thesis
    unfolding lit_def by (rule inj_map_eq_map)
qed

lemma length_lit [simp]: "length (lit s) = length s"
  by (simp add: lit_def)

lemma lit_append: "lit (s @ t) = lit s @ lit t"
  by (simp add: lit_def)

lemma lit_Cons: "lit (c # s) = of_char c # lit s"
  by (simp add: lit_def)

lemma set_lit_less_256: "c \<in> set (lit s) \<Longrightarrow> c < 256"
  by (auto simp: lit_def)

section \<open>Exceptions and results\<close>

text \<open>
  The exception classes the sources raise or catch. The classes with a message carry it.
  \<open>JSONDecodeError\<close>, \<open>UnicodeDecodeError\<close>, \<open>UnicodeEncodeError\<close> and \<open>RejectedEvidence\<close>
  are subclasses of \<open>ValueError\<close>; \<open>TimeoutError\<close>, \<open>FileNotFoundError\<close>,
  \<open>SSLError\<close> and \<open>UrlError\<close> (\<open>urllib.error.URLError\<close>) are subclasses of \<open>OSError\<close>, and \<open>RecursionError\<close>
  is one of \<open>RuntimeError\<close>.
\<close>

datatype exn =
    ValueError pystr
  | RuntimeError pystr
  | TokenValidationError pystr
  | RejectedEvidence pystr
  | JSONDecodeError
  | UnicodeDecodeError
  | UnicodeEncodeError
  | RecursionError
  | KeyError
  | TypeError
  | AttributeError
  | IndexError
  | OSError
  | UrlError
  | FileNotFoundError
  | TimeoutError
  | HTTPException
  | SSLError
  | CalledProcessError
  | ExtensionNotFound
  | YAMLError
  | SystemExit pystr
  | OutOfFuel

fun isa_UnicodeError :: "exn \<Rightarrow> bool" where
  "isa_UnicodeError UnicodeDecodeError = True"
| "isa_UnicodeError UnicodeEncodeError = True"
| "isa_UnicodeError _ = False"

fun isa_ValueError :: "exn \<Rightarrow> bool" where
  "isa_ValueError (ValueError _) = True"
| "isa_ValueError (RejectedEvidence _) = True"
| "isa_ValueError JSONDecodeError = True"
| "isa_ValueError UnicodeDecodeError = True"
| "isa_ValueError UnicodeEncodeError = True"
| "isa_ValueError _ = False"

fun isa_OSError :: "exn \<Rightarrow> bool" where
  "isa_OSError OSError = True"
| "isa_OSError UrlError = True"
| "isa_OSError FileNotFoundError = True"
| "isa_OSError TimeoutError = True"
| "isa_OSError SSLError = True"
| "isa_OSError _ = False"

type_synonym 'a res = "exn + 'a"

abbreviation raiseV :: "string \<Rightarrow> 'a res" where
  "raiseV msg \<equiv> Inl (ValueError (lit msg))"

abbreviation raiseR :: "string \<Rightarrow> 'a res" where
  "raiseR msg \<equiv> Inl (RuntimeError (lit msg))"

text \<open>Statement sequencing: an exception of the first statement skips the second.\<close>

definition rbind :: "'a res \<Rightarrow> ('a \<Rightarrow> 'b res) \<Rightarrow> 'b res" where
  "rbind m f = (case m of Inl e \<Rightarrow> Inl e | Inr x \<Rightarrow> f x)"

lemma rbind_Inl [simp]: "rbind (Inl e) f = Inl e"
  by (simp add: rbind_def)

lemma rbind_Inr [simp]: "rbind (Inr x) f = f x"
  by (simp add: rbind_def)

lemma rbind_eq_Inr_iff [res_simps]: "rbind m f = Inr y \<longleftrightarrow> (\<exists>x. m = Inr x \<and> f x = Inr y)"
  by (cases m) auto

lemma rbind_eq_Inl_iff:
  "rbind m f = Inl e \<longleftrightarrow> m = Inl e \<or> (\<exists>x. m = Inr x \<and> f x = Inl e)"
  by (cases m) auto

lemma rbind_cong [fundef_cong]:
  "m = m' \<Longrightarrow> (\<And>x. m' = Inr x \<Longrightarrow> f x = g x) \<Longrightarrow> rbind m f = rbind m' g"
  by (cases m') auto

lemma rbind_assoc: "rbind (rbind m f) g = rbind m (\<lambda>x. rbind (f x) g)"
  by (cases m) auto

text \<open>A guard of the source: \<open>if bad: raise e\<close>.\<close>

definition raise_if :: "bool \<Rightarrow> exn \<Rightarrow> unit res" where
  "raise_if bad e = (if bad then Inl e else Inr ())"

lemma raise_if_eq_Inr_iff [res_simps]: "raise_if bad e = Inr u \<longleftrightarrow> \<not> bad"
  by (simp add: raise_if_def)

lemma raise_if_False [simp]: "raise_if False e = Inr ()"
  by (simp add: raise_if_def)

lemma raise_if_True [simp]: "raise_if True e = Inl e"
  by (simp add: raise_if_def)

text \<open>\<open>except Exception\<close>: any exception becomes the given one.\<close>

definition recast :: "exn \<Rightarrow> 'a res \<Rightarrow> 'a res" where
  "recast e m = (case m of Inl _ \<Rightarrow> Inl e | Inr x \<Rightarrow> Inr x)"

lemma recast_eq_Inr_iff [res_simps]: "recast e m = Inr x \<longleftrightarrow> m = Inr x"
  by (cases m) (auto simp: recast_def)

lemma recast_Inr [simp]: "recast e (Inr x) = Inr x"
  by (simp add: recast_def)

lemma recast_Inl [simp]: "recast e (Inl d) = Inl e"
  by (simp add: recast_def)

text \<open>\<open>except C\<close>: an exception of the class becomes the given one, another passes.\<close>

definition recast_if :: "(exn \<Rightarrow> bool) \<Rightarrow> exn \<Rightarrow> 'a res \<Rightarrow> 'a res" where
  "recast_if P e m = (case m of Inl d \<Rightarrow> Inl (if P d then e else d) | Inr x \<Rightarrow> Inr x)"

lemma recast_if_eq_Inr_iff [res_simps]: "recast_if P e m = Inr x \<longleftrightarrow> m = Inr x"
  by (cases m) (auto simp: recast_if_def)

lemma recast_if_Inr [simp]: "recast_if P e (Inr x) = Inr x"
  by (simp add: recast_if_def)

lemma recast_if_Inl [simp]: "recast_if P e (Inl d) = Inl (if P d then e else d)"
  by (simp add: recast_if_def)

text \<open>Loops that may raise: over a list with a result per element, and with a state.\<close>

fun mapr :: "('a \<Rightarrow> 'b res) \<Rightarrow> 'a list \<Rightarrow> 'b list res" where
  "mapr f [] = Inr []"
| "mapr f (x # xs) = rbind (f x) (\<lambda>y. rbind (mapr f xs) (\<lambda>ys. Inr (y # ys)))"

fun foldr_res :: "('s \<Rightarrow> 'a \<Rightarrow> 's res) \<Rightarrow> 's \<Rightarrow> 'a list \<Rightarrow> 's res" where
  "foldr_res f s [] = Inr s"
| "foldr_res f s (x # xs) = rbind (f s x) (\<lambda>s'. foldr_res f s' xs)"

lemma mapr_eq_Inr_iff [res_simps]:
  "mapr f xs = Inr ys \<longleftrightarrow> list_all2 (\<lambda>x y. f x = Inr y) xs ys"
proof (induction xs arbitrary: ys)
  case Nil
  then show ?case by (auto simp: eq_commute)
next
  case (Cons x xs)
  then show ?case by (cases ys) (auto simp: rbind_eq_Inr_iff)
qed

lemma mapr_length: "mapr f xs = Inr ys \<Longrightarrow> length ys = length xs"
  by (auto simp: mapr_eq_Inr_iff dest: list_all2_lengthD)

lemma mapr_total: "(\<And>x. x \<in> set xs \<Longrightarrow> \<exists>y. f x = Inr y) \<Longrightarrow> \<exists>ys. mapr f xs = Inr ys"
proof (induction xs)
  case (Cons x xs)
  obtain y where "f x = Inr y" using Cons.prems by force
  moreover obtain ys where "mapr f xs = Inr ys" using Cons by force
  ultimately show ?case by simp
qed simp

lemma mapr_Inr: "mapr (\<lambda>x. Inr (f x)) xs = Inr (map f xs)"
  by (induction xs) auto

lemma foldr_res_append:
  "foldr_res f s (xs @ ys) = rbind (foldr_res f s xs) (\<lambda>s'. foldr_res f s' ys)"
  by (induction xs arbitrary: s) (simp_all add: rbind_assoc)

lemma foldr_res_inv:
  assumes "foldr_res f s xs = Inr t" and "I s"
    and "\<And>s x s'. x \<in> set xs \<Longrightarrow> I s \<Longrightarrow> f s x = Inr s' \<Longrightarrow> I s'"
  shows "I t"
  using assms
proof (induction xs arbitrary: s)
  case Nil
  then show ?case by simp
next
  case (Cons x xs)
  from Cons.prems(1) obtain s' where s': "f s x = Inr s'" "foldr_res f s' xs = Inr t"
    by (auto simp: rbind_eq_Inr_iff)
  show ?case
  proof (rule Cons.IH [OF s'(2)])
    show "I s'" using Cons.prems(2,3) s'(1) by auto
    show "\<And>s x s'. x \<in> set xs \<Longrightarrow> I s \<Longrightarrow> f s x = Inr s' \<Longrightarrow> I s'"
      using Cons.prems(3) by auto
  qed
qed

section \<open>Lists\<close>

lemma list_all_lit_iff: "list_all P (lit s) \<longleftrightarrow> list_all (\<lambda>c. P (of_char c)) s"
  by (simp add: lit_def list.pred_map comp_def)

lemma takeWhile_append_stop:
  "list_all P xs \<Longrightarrow> ys = [] \<or> \<not> P (hd ys) \<Longrightarrow> takeWhile P (xs @ ys) = xs"
  by (induction xs) (auto simp: takeWhile_eq_Nil_iff)

lemma dropWhile_append_stop:
  "list_all P xs \<Longrightarrow> ys = [] \<or> \<not> P (hd ys) \<Longrightarrow> dropWhile P (xs @ ys) = ys"
  by (induction xs) (auto simp: dropWhile_eq_self_iff)

lemma distinct_map_fst_append:
  "distinct (map fst xs) \<Longrightarrow> k \<notin> set (map fst xs) \<Longrightarrow> distinct (map fst (xs @ [(k, v)]))"
  by simp

section \<open>Actions on a state\<close>

text \<open>
  An action on a state either returns or raises, and leaves a state in both cases. A run is an action
  whose state is the list of the events so far.
\<close>

type_synonym ('s, 'a) stateful = "'s \<Rightarrow> 'a res \<times> 's"

type_synonym ('e, 'a) run = "('e list, 'a) stateful"

definition abind :: "('s, 'a) stateful \<Rightarrow> ('a \<Rightarrow> ('s, 'b) stateful) \<Rightarrow> ('s, 'b) stateful" where
  "abind m f h = (case m h of (Inl e, h') \<Rightarrow> (Inl e, h') | (Inr x, h') \<Rightarrow> f x h')"

definition pure :: "'a res \<Rightarrow> ('s, 'a) stateful" where
  "pure r h = (r, h)"

text \<open>\<open>try ... except\<close>.\<close>

definition atry :: "('s, 'a) stateful \<Rightarrow> (exn \<Rightarrow> ('s, 'a) stateful) \<Rightarrow> ('s, 'a) stateful" where
  "atry m handler h = (case m h of (Inl e, h') \<Rightarrow> handler e h' | (Inr x, h') \<Rightarrow> (Inr x, h'))"

fun each :: "('a \<Rightarrow> ('s, unit) stateful) \<Rightarrow> 'a list \<Rightarrow> ('s, unit) stateful" where
  "each f [] = pure (Inr ())"
| "each f (x # xs) = abind (f x) (\<lambda>_. each f xs)"

lemma abind_run:
  assumes "abind m f h = (r, h')"
  shows "(\<exists>e. m h = (Inl e, h') \<and> r = Inl e) \<or> (\<exists>x h1. m h = (Inr x, h1) \<and> f x h1 = (r, h'))"
  using assms by (auto simp: abind_def split: prod.splits sum.splits)

lemma abind_Inr_iff: "abind m f h = (Inr y, h') \<longleftrightarrow> (\<exists>x h1. m h = (Inr x, h1) \<and> f x h1 = (Inr y, h'))"
  by (auto simp: abind_def split: prod.splits sum.splits)

lemma pure_Inr_iff [simp]: "pure r h = (Inr y, h') \<longleftrightarrow> r = Inr y \<and> h' = h"
  by (auto simp: pure_def)

text \<open>
  A relation between the state before and after every action, whatever it returns: reflexive and
  transitive relations are kept by sequencing.
\<close>

definition relates :: "('s \<Rightarrow> 's \<Rightarrow> bool) \<Rightarrow> ('s, 'a) stateful \<Rightarrow> bool" where
  "relates R m \<longleftrightarrow> (\<forall>h r h'. m h = (r, h') \<longrightarrow> R h h')"

lemma relates_run: "relates R m \<Longrightarrow> m h = (r, h') \<Longrightarrow> R h h'"
  by (simp add: relates_def)

lemma relates_abind:
  assumes "transp R" "relates R m" "\<And>x. relates R (f x)"
  shows "relates R (abind m f)"
  unfolding relates_def
proof (intro allI impI)
  fix h r h'
  assume "abind m f h = (r, h')"
  then consider e where "m h = (Inl e, h')" | x h1 where "m h = (Inr x, h1)" "f x h1 = (r, h')"
    by (blast dest: abind_run)
  then show "R h h'"
  proof cases
    case 1
    then show ?thesis using assms(2) by (simp add: relates_def)
  next
    case 2
    then have "R h h1" "R h1 h'" using assms(2,3) unfolding relates_def by blast+
    then show ?thesis using assms(1) by (blast dest: transpD)
  qed
qed

lemma relates_pure: "reflp R \<Longrightarrow> relates R (pure r)"
  by (simp add: relates_def pure_def reflpD)

lemma relates_each:
  assumes "reflp R" "transp R" "\<And>x. x \<in> set xs \<Longrightarrow> relates R (f x)"
  shows "relates R (each f xs)"
  using assms(3) by (induction xs) (auto intro: relates_pure relates_abind assms(1,2))

end
