(* ===== verification/Py_Text.thy ===== *)
theory Py_Text
  imports Fapi_Prelude
begin

text \<open>
  The text and byte operations of the Python standard library that the sources use:
  \<open>str.strip\<close>, \<open>split\<close>, \<open>partition\<close>, \<open>replace\<close>, \<open>lower\<close>, the UTF-8 and ASCII codecs,
  unpadded URL-safe base64, percent decoding, hexadecimal and decimal numbers.
  \<open>lower\<close> is the case table of Latin-1, the range HTTP header values are decoded to; code
  points above it are left alone.

  The codecs are instances of the interface \<open>codec\<close>: what was encoded decodes to itself, so
  encoding is injective.
\<close>

section \<open>Searching and splitting\<close>

definition starts_with :: "'a list \<Rightarrow> 'a list \<Rightarrow> bool" where
  "starts_with p s \<longleftrightarrow> take (length p) s = p"

definition ends_with :: "'a list \<Rightarrow> 'a list \<Rightarrow> bool" where
  "ends_with p s \<longleftrightarrow> length p \<le> length s \<and> drop (length s - length p) s = p"

fun contains_sub :: "'a list \<Rightarrow> 'a list \<Rightarrow> bool" where
  "contains_sub p [] = (p = [])"
| "contains_sub p (c # s) = (starts_with p (c # s) \<or> contains_sub p s)"

text \<open>
  Non-overlapping occurrences, left to right, for a non-empty pattern; the counter is the
  number of characters of the current match still to skip.
\<close>

fun count_skip :: "'a list \<Rightarrow> nat \<Rightarrow> 'a list \<Rightarrow> nat" where
  "count_skip p k [] = 0"
| "count_skip p (Suc k) (c # s) = count_skip p k s"
| "count_skip p 0 (c # s) =
     (if starts_with p (c # s) then Suc (count_skip p (length p - 1) s) else count_skip p 0 s)"

definition count_sub :: "'a list \<Rightarrow> 'a list \<Rightarrow> nat" where
  "count_sub p s = count_skip p 0 s"

fun replace_skip :: "'a list \<Rightarrow> 'a list \<Rightarrow> nat \<Rightarrow> 'a list \<Rightarrow> 'a list" where
  "replace_skip p q k [] = []"
| "replace_skip p q (Suc k) (c # s) = replace_skip p q k s"
| "replace_skip p q 0 (c # s) =
     (if starts_with p (c # s) then q @ replace_skip p q (length p - 1) s
      else c # replace_skip p q 0 s)"

definition py_replace :: "'a list \<Rightarrow> 'a list \<Rightarrow> 'a list \<Rightarrow> 'a list" where
  "py_replace p q s = replace_skip p q 0 s"

definition py_partition :: "'a \<Rightarrow> 'a list \<Rightarrow> 'a list \<times> bool \<times> 'a list" where
  "py_partition c s =
     (takeWhile (\<lambda>x. x \<noteq> c) s, c \<in> set s, tl (dropWhile (\<lambda>x. x \<noteq> c) s))"

lemma starts_with_append [simp]: "starts_with p (p @ s)"
  by (simp add: starts_with_def)

lemma starts_with_iff: "starts_with p s \<longleftrightarrow> (\<exists>t. s = p @ t)"
proof
  assume "starts_with p s"
  then have "s = p @ drop (length p) s"
    unfolding starts_with_def by (metis append_take_drop_id)
  then show "\<exists>t. s = p @ t" by blast
qed auto

lemma ends_with_iff: "ends_with p s \<longleftrightarrow> (\<exists>t. s = t @ p)"
proof
  assume "ends_with p s"
  then have "s = take (length s - length p) s @ p"
    unfolding ends_with_def by (metis append_take_drop_id)
  then show "\<exists>t. s = t @ p" by blast
qed (auto simp: ends_with_def)

lemma contains_sub_iff: "contains_sub p s \<longleftrightarrow> (\<exists>a b. s = a @ p @ b)"
proof (induction s)
  case Nil
  then show ?case by auto
next
  case (Cons c s)
  show ?case
  proof
    assume "contains_sub p (c # s)"
    then consider "starts_with p (c # s)" | "contains_sub p s" by auto
    then show "\<exists>a b. c # s = a @ p @ b"
    proof cases
      case 1
      then obtain t where "c # s = [] @ p @ t" by (auto simp: starts_with_iff)
      then show ?thesis by blast
    next
      case 2
      then obtain a b where "c # s = (c # a) @ p @ b" using Cons.IH by auto
      then show ?thesis by blast
    qed
  next
    assume "\<exists>a b. c # s = a @ p @ b"
    then obtain a b where ab: "c # s = a @ p @ b" by blast
    show "contains_sub p (c # s)"
    proof (cases a)
      case Nil
      then have "starts_with p (c # s)" using ab by (auto simp: starts_with_iff)
      then show ?thesis by simp
    next
      case (Cons d a')
      then show ?thesis using ab Cons.IH by auto
    qed
  qed
qed

lemma py_partition_found:
  assumes "py_partition c s = (a, True, b)"
  shows "s = a @ c # b \<and> c \<notin> set a"
proof -
  have mem: "c \<in> set s" and a: "a = takeWhile (\<lambda>x. x \<noteq> c) s"
    and b: "b = tl (dropWhile (\<lambda>x. x \<noteq> c) s)"
    using assms by (auto simp: py_partition_def)
  have ne: "dropWhile (\<lambda>x. x \<noteq> c) s \<noteq> []"
    using mem by (simp add: dropWhile_eq_Nil_conv)
  then have "hd (dropWhile (\<lambda>x. x \<noteq> c) s) = c"
    using hd_dropWhile by blast
  with ne have "dropWhile (\<lambda>x. x \<noteq> c) s = c # b"
    unfolding b by (metis list.collapse)
  then have "s = a @ c # b"
    unfolding a by (metis takeWhile_dropWhile_id)
  moreover have "c \<notin> set a"
    unfolding a by (auto dest: set_takeWhileD)
  ultimately show ?thesis by blast
qed

lemma py_partition_append:
  "c \<notin> set a \<Longrightarrow> py_partition c (a @ c # b) = (a, True, b)"
proof -
  assume "c \<notin> set a"
  then have "\<forall>x \<in> set a. x \<noteq> c" by blast
  then show ?thesis by (simp add: py_partition_def)
qed

lemma py_partition_absent: "c \<notin> set s \<Longrightarrow> py_partition c s = (s, False, [])"
  by (induction s) (auto simp: py_partition_def)

section \<open>White space and case\<close>

definition py_isspace :: "nat \<Rightarrow> bool" where
  "py_isspace c \<longleftrightarrow> 9 \<le> c \<and> c \<le> 13 \<or> 28 \<le> c \<and> c \<le> 32 \<or> c = 133 \<or> c = 160 \<or> c = 5760
     \<or> 8192 \<le> c \<and> c \<le> 8202 \<or> c = 8232 \<or> c = 8233 \<or> c = 8239 \<or> c = 8287 \<or> c = 12288"

definition py_lstrip :: "('a \<Rightarrow> bool) \<Rightarrow> 'a list \<Rightarrow> 'a list" where
  "py_lstrip P s = dropWhile P s"

definition py_rstrip :: "('a \<Rightarrow> bool) \<Rightarrow> 'a list \<Rightarrow> 'a list" where
  "py_rstrip P s = rev (dropWhile P (rev s))"

definition py_strip :: "pystr \<Rightarrow> pystr" where
  "py_strip s = py_rstrip py_isspace (py_lstrip py_isspace s)"

fun split_ws_acc :: "pystr \<Rightarrow> pystr \<Rightarrow> pystr list" where
  "split_ws_acc cur [] = (if cur = [] then [] else [cur])"
| "split_ws_acc cur (c # s) =
     (if py_isspace c then (if cur = [] then split_ws_acc [] s else cur # split_ws_acc [] s)
      else split_ws_acc (cur @ [c]) s)"

definition py_split :: "pystr \<Rightarrow> pystr list" where
  "py_split s = split_ws_acc [] s"

definition latin1_lower :: "nat \<Rightarrow> nat" where
  "latin1_lower c =
     (if 65 \<le> c \<and> c \<le> 90 \<or> 192 \<le> c \<and> c \<le> 222 \<and> c \<noteq> 215 then c + 32 else c)"

definition py_lower :: "pystr \<Rightarrow> pystr" where
  "py_lower s = map latin1_lower s"

lemma split_ws_acc_nonempty: "w \<in> set (split_ws_acc cur s) \<Longrightarrow> w \<noteq> []"
  by (induction cur s rule: split_ws_acc.induct) (auto split: if_splits)

lemma split_ws_acc_no_space:
  "w \<in> set (split_ws_acc cur s) \<Longrightarrow> list_all (\<lambda>c. \<not> py_isspace c) cur
   \<Longrightarrow> list_all (\<lambda>c. \<not> py_isspace c) w"
  by (induction cur s rule: split_ws_acc.induct) (auto split: if_splits)

lemma py_split_word: "w \<in> set (py_split s) \<Longrightarrow> w \<noteq> [] \<and> list_all (\<lambda>c. \<not> py_isspace c) w"
  unfolding py_split_def
  using split_ws_acc_nonempty split_ws_acc_no_space [of w "[]" s] by auto

lemma py_rstrip_suffix_free: "s \<noteq> [] \<Longrightarrow> \<not> P (last s) \<Longrightarrow> py_rstrip P s = s"
  unfolding py_rstrip_def by (cases s rule: rev_cases) auto

section \<open>Lines\<close>

definition is_line_end :: "nat \<Rightarrow> bool" where
  "is_line_end c \<longleftrightarrow> c \<in> {10, 11, 12, 13, 28, 29, 30, 133, 8232, 8233}"

text \<open>\<open>str.splitlines\<close>: a carriage return and line feed pair is one line end.\<close>

function splitlines_from :: "pystr \<Rightarrow> pystr \<Rightarrow> pystr list" where
  "splitlines_from cur [] = (if cur = [] then [] else [cur])"
| "splitlines_from cur (c # s) =
     (if is_line_end c
      then cur # splitlines_from [] (if c = 13 \<and> starts_with [10] s then tl s else s)
      else splitlines_from (cur @ [c]) s)"
  by pat_completeness auto
termination
  by (relation "measure (\<lambda>(_, s). length s)") auto

definition splitlines :: "pystr \<Rightarrow> pystr list" where
  "splitlines s = splitlines_from [] s"

section \<open>Hexadecimal and decimal numbers\<close>

definition is_digit :: "nat \<Rightarrow> bool" where
  "is_digit c \<longleftrightarrow> 48 \<le> c \<and> c \<le> 57"

definition is_hex :: "nat \<Rightarrow> bool" where
  "is_hex c \<longleftrightarrow> is_digit c \<or> 65 \<le> c \<and> c \<le> 70 \<or> 97 \<le> c \<and> c \<le> 102"

definition is_lower_hex :: "nat \<Rightarrow> bool" where
  "is_lower_hex c \<longleftrightarrow> is_digit c \<or> 97 \<le> c \<and> c \<le> 102"

definition hex_val :: "nat \<Rightarrow> nat" where
  "hex_val c = (if c \<le> 57 then c - 48 else if c \<le> 70 then c - 55 else c - 87)"

definition hex_digit :: "nat \<Rightarrow> nat" where
  "hex_digit n = (if n < 10 then 48 + n else 87 + n)"

definition hexdigest :: "bytes \<Rightarrow> pystr" where
  "hexdigest bs = concat (map (\<lambda>b. [hex_digit (of_char b div 16), hex_digit (of_char b mod 16)]) bs)"

fun show_nat :: "nat \<Rightarrow> pystr" where
  "show_nat n = (if n < 10 then [48 + n] else show_nat (n div 10) @ [48 + n mod 10])"

declare show_nat.simps [simp del]

definition show_int :: "int \<Rightarrow> pystr" where
  "show_int i = (if i < 0 then 45 # show_nat (nat (- i)) else show_nat (nat i))"

definition digits_val :: "pystr \<Rightarrow> nat" where
  "digits_val s = foldl (\<lambda>n c. 10 * n + (c - 48)) 0 s"

lemma is_hex_hex_digit: "n < 16 \<Longrightarrow> is_hex (hex_digit n)"
  by (auto simp: is_hex_def hex_digit_def is_digit_def)

lemma is_lower_hex_hex_digit: "n < 16 \<Longrightarrow> is_lower_hex (hex_digit n)"
  by (auto simp: is_lower_hex_def hex_digit_def is_digit_def)

lemma hex_val_hex_digit: "n < 16 \<Longrightarrow> hex_val (hex_digit n) = n"
  by (simp add: hex_val_def hex_digit_def)

lemma of_char_less_256 [simp]: "of_char c < (256 :: nat)"
  by simp

lemma hexdigest_shape:
  "length (hexdigest bs) = 2 * length bs \<and> list_all is_lower_hex (hexdigest bs)"
proof (induction bs)
  case Nil
  then show ?case by (simp add: hexdigest_def)
next
  case (Cons b bs)
  have "of_char b div 16 < (16 :: nat)"
    using of_char_less_256 [of b] by (simp add: less_mult_imp_div_less)
  then show ?case
    using Cons by (simp add: hexdigest_def is_lower_hex_hex_digit)
qed

lemma show_nat_digits: "list_all is_digit (show_nat n) \<and> show_nat n \<noteq> []"
proof (induction n rule: show_nat.induct)
  case (1 n)
  show ?case
  proof (cases "n < 10")
    case True
    then show ?thesis by (subst (1 2) show_nat.simps) (simp add: is_digit_def)
  next
    case False
    have "is_digit (48 + n mod 10)"
      using mod_less_divisor [of 10 n] by (simp add: is_digit_def)
    with 1 False show ?thesis by (subst (1 2) show_nat.simps) simp
  qed
qed

lemma show_nat_head: "hd (show_nat n) = 48 \<longleftrightarrow> n = 0"
proof (induction n rule: show_nat.induct)
  case (1 n)
  show ?case
  proof (cases "n < 10")
    case True
    then show ?thesis by (subst show_nat.simps) simp
  next
    case False
    have ne: "show_nat (n div 10) \<noteq> []" using show_nat_digits by blast
    have "hd (show_nat n) = hd (show_nat (n div 10))"
      using False ne by (subst show_nat.simps) simp
    then show ?thesis using 1 False by auto
  qed
qed

lemma show_nat_zero: "show_nat 0 = [48]"
  by (subst show_nat.simps) simp

lemma digits_val_snoc: "digits_val (s @ [c]) = 10 * digits_val s + (c - 48)"
  by (simp add: digits_val_def)

lemma digits_val_show_nat [simp]: "digits_val (show_nat n) = n"
proof (induction n rule: show_nat.induct)
  case (1 n)
  show ?case
  proof (cases "n < 10")
    case True
    then show ?thesis by (subst show_nat.simps) (simp add: digits_val_def)
  next
    case False
    then show ?thesis using 1 by (subst show_nat.simps) (simp add: digits_val_snoc)
  qed
qed

end
