(* ===== verification/Py_Codec.thy ===== *)
theory Py_Codec
  imports Py_Text
begin

text \<open>
  The byte encodings the sources use: strict UTF-8, ASCII, unpadded URL-safe base64
  (\<open>base64.urlsafe_b64encode(x).rstrip(b"=")\<close>) and percent decoding
  (\<open>urllib.parse.unquote_to_bytes\<close>), with the interface \<open>codec\<close> and its instances.
\<close>

section \<open>The codec interface\<close>

text \<open>
  \<open>enc\<close> may fail (an exception), \<open>dec\<close> undoes whatever it produced. A client that compares
  two encoded values compares the values themselves.
\<close>

locale codec =
  fixes enc :: "'a \<Rightarrow> 'b res" and dec :: "'b \<Rightarrow> 'a res"
  assumes dec_enc: "enc x = Inr b \<Longrightarrow> dec b = Inr x"
begin

lemma enc_inj: "enc x = Inr b \<Longrightarrow> enc y = Inr b \<Longrightarrow> x = y"
  using dec_enc by (metis sum.inject(2))

lemma enc_eq_iff: "enc x = Inr a \<Longrightarrow> enc y = Inr b \<Longrightarrow> a = b \<longleftrightarrow> x = y"
  using enc_inj by auto

end

section \<open>UTF-8\<close>

definition is_surrogate :: "nat \<Rightarrow> bool" where
  "is_surrogate c \<longleftrightarrow> 55296 \<le> c \<and> c \<le> 57343"

definition is_scalar :: "nat \<Rightarrow> bool" where
  "is_scalar c \<longleftrightarrow> c < 1114112 \<and> \<not> is_surrogate c"

lemma lit_scalar: "list_all is_scalar (lit s)"
  using set_lit_less_256 [of _ s] by (fastforce simp: list_all_iff is_scalar_def is_surrogate_def)

definition utf8_cp :: "nat \<Rightarrow> nat list" where
  "utf8_cp c =
     (if c < 128 then [c]
      else if c < 2048 then [192 + c div 64, 128 + c mod 64]
      else if c < 65536 then [224 + c div 4096, 128 + c div 64 mod 64, 128 + c mod 64]
      else [240 + c div 262144, 128 + c div 4096 mod 64, 128 + c div 64 mod 64, 128 + c mod 64])"

definition utf8_encode :: "pystr \<Rightarrow> bytes res" where
  "utf8_encode s =
     (if list_all is_scalar s then Inr (map char_of (concat (map utf8_cp s)))
      else Inl UnicodeEncodeError)"

definition is_cont :: "nat \<Rightarrow> bool" where
  "is_cont b \<longleftrightarrow> 128 \<le> b \<and> b < 192"

definition rcons :: "'a \<Rightarrow> 'a list res \<Rightarrow> 'a list res" where
  "rcons x m = rbind m (\<lambda>xs. Inr (x # xs))"

lemma rcons_Inr [simp]: "rcons x (Inr xs) = Inr (x # xs)"
  by (simp add: rcons_def)

lemma rcons_Inl [simp]: "rcons x (Inl e) = Inl e"
  by (simp add: rcons_def)

fun utf8_dec :: "nat list \<Rightarrow> pystr res" where
  "utf8_dec [] = Inr []"
| "utf8_dec (a # s) =
     (if a < 128 then rcons a (utf8_dec s)
      else if 194 \<le> a \<and> a < 224 then
        (case s of b # s' \<Rightarrow>
           if is_cont b then rcons ((a - 192) * 64 + (b - 128)) (utf8_dec s')
           else Inl UnicodeDecodeError
         | _ \<Rightarrow> Inl UnicodeDecodeError)
      else if 224 \<le> a \<and> a < 240 then
        (case s of b # c # s' \<Rightarrow>
           if is_cont b \<and> is_cont c \<and> (a = 224 \<longrightarrow> 160 \<le> b) \<and> (a = 237 \<longrightarrow> b < 160)
           then rcons ((a - 224) * 4096 + (b - 128) * 64 + (c - 128)) (utf8_dec s')
           else Inl UnicodeDecodeError
         | _ \<Rightarrow> Inl UnicodeDecodeError)
      else if 240 \<le> a \<and> a < 245 then
        (case s of b # c # d # s' \<Rightarrow>
           if is_cont b \<and> is_cont c \<and> is_cont d \<and> (a = 240 \<longrightarrow> 144 \<le> b) \<and> (a = 244 \<longrightarrow> b < 144)
           then rcons ((a - 240) * 262144 + (b - 128) * 4096 + (c - 128) * 64 + (d - 128))
                  (utf8_dec s')
           else Inl UnicodeDecodeError
         | _ \<Rightarrow> Inl UnicodeDecodeError)
      else Inl UnicodeDecodeError)"

definition utf8_decode :: "bytes \<Rightarrow> pystr res" where
  "utf8_decode bs = utf8_dec (map of_char bs)"

lemma utf8_cp_bytes: "is_scalar c \<Longrightarrow> list_all (\<lambda>b. b < 256) (utf8_cp c)"
proof -
  assume "is_scalar c"
  then have "c < 1114112" by (simp add: is_scalar_def)
  moreover have "c div 64 mod 64 < 64" "c mod 64 < 64" "c div 4096 mod 64 < 64" by simp_all
  moreover have "c < 2048 \<Longrightarrow> c div 64 < 32" "c < 65536 \<Longrightarrow> c div 4096 < 16"
    "c < 1114112 \<Longrightarrow> c div 262144 < 5" by auto
  ultimately show ?thesis by (auto simp: utf8_cp_def)
qed

lemma utf8_dec_2:
  "2 \<le> x \<Longrightarrow> x < 32 \<Longrightarrow> y < 64 \<Longrightarrow>
   utf8_dec ((192 + x) # (128 + y) # s) = rcons (x * 64 + y) (utf8_dec s)"
  by (simp add: is_cont_def)

lemma utf8_dec_3:
  "x < 16 \<Longrightarrow> y < 64 \<Longrightarrow> z < 64 \<Longrightarrow> (x = 0 \<Longrightarrow> 32 \<le> y) \<Longrightarrow> (x = 13 \<Longrightarrow> y < 32) \<Longrightarrow>
   utf8_dec ((224 + x) # (128 + y) # (128 + z) # s)
     = rcons (x * 4096 + y * 64 + z) (utf8_dec s)"
  by (auto simp: is_cont_def)

lemma utf8_dec_4:
  "x < 5 \<Longrightarrow> y < 64 \<Longrightarrow> z < 64 \<Longrightarrow> w < 64 \<Longrightarrow> (x = 0 \<Longrightarrow> 16 \<le> y) \<Longrightarrow> (x = 4 \<Longrightarrow> y < 16) \<Longrightarrow>
   utf8_dec ((240 + x) # (128 + y) # (128 + z) # (128 + w) # s)
     = rcons (x * 262144 + y * 4096 + z * 64 + w) (utf8_dec s)"
  by (auto simp: is_cont_def)

lemma base64_digits: "(c :: nat) div 64 * 64 + c mod 64 = c"
  "c div 4096 * 64 + c div 64 mod 64 = c div 64"
  "c div 262144 * 64 + c div 4096 mod 64 = c div 4096"
proof -
  have "c div 4096 = c div 64 div 64" "c div 262144 = c div 4096 div 64"
    by (simp_all add: div_mult2_eq [symmetric])
  then show "c div 4096 * 64 + c div 64 mod 64 = c div 64"
    "c div 262144 * 64 + c div 4096 mod 64 = c div 4096" by simp_all
qed simp

lemma utf8_dec_two:
  assumes "128 \<le> c" "c < 2048"
  shows "utf8_dec (utf8_cp c @ s) = rcons c (utf8_dec s)"
proof -
  have "2 \<le> c div 64" using assms(1) by linarith
  moreover have "c div 64 < 32" using assms(2) by linarith
  ultimately show ?thesis
    using assms utf8_dec_2 [of "c div 64" "c mod 64" s] by (simp add: utf8_cp_def del: utf8_dec.simps)
qed

lemma utf8_dec_three:
  assumes "2048 \<le> c" "c < 65536" "\<not> is_surrogate c"
  shows "utf8_dec (utf8_cp c @ s) = rcons c (utf8_dec s)"
proof -
  define x y z where xyz: "x = c div 4096" "y = c div 64 mod 64" "z = c mod 64"
  have eq: "x * 4096 + y * 64 + z = c"
    using base64_digits(1,2) [of c] unfolding xyz by linarith
  have b: "y < 64" "z < 64" unfolding xyz by simp_all
  have x: "x < 16" using assms(2) eq by linarith
  have "x = 0 \<Longrightarrow> 32 \<le> y" using eq assms(1) b by linarith
  moreover have "x = 13 \<Longrightarrow> y < 32"
    using eq b assms(3) unfolding is_surrogate_def by linarith
  ultimately have "utf8_dec ((224 + x) # (128 + y) # (128 + z) # s) = rcons c (utf8_dec s)"
    using utf8_dec_3 [OF x b] eq by simp
  then show ?thesis using assms by (simp add: utf8_cp_def xyz del: utf8_dec.simps)
qed

lemma utf8_dec_four:
  assumes "65536 \<le> c" "c < 1114112"
  shows "utf8_dec (utf8_cp c @ s) = rcons c (utf8_dec s)"
proof -
  define x y z w where xyz: "x = c div 262144" "y = c div 4096 mod 64" "z = c div 64 mod 64" "w = c mod 64"
  have eq: "x * 262144 + y * 4096 + z * 64 + w = c"
    using base64_digits [of c] unfolding xyz by linarith
  have b: "y < 64" "z < 64" "w < 64" unfolding xyz by simp_all
  have x: "x < 5" using assms(2) eq by linarith
  have "x = 0 \<Longrightarrow> 16 \<le> y" using eq assms(1) b by linarith
  moreover have "x = 4 \<Longrightarrow> y < 16" using eq assms(2) b by linarith
  ultimately have "utf8_dec ((240 + x) # (128 + y) # (128 + z) # (128 + w) # s) = rcons c (utf8_dec s)"
    using utf8_dec_4 [OF x b] eq by simp
  then show ?thesis using assms by (simp add: utf8_cp_def xyz del: utf8_dec.simps)
qed

lemma utf8_dec_cp: "is_scalar c \<Longrightarrow> utf8_dec (utf8_cp c @ s) = rcons c (utf8_dec s)"
proof -
  assume c: "is_scalar c"
  consider "c < 128" | "128 \<le> c" "c < 2048" | "2048 \<le> c" "c < 65536" | "65536 \<le> c" by linarith
  then show ?thesis
  proof cases
    case 1
    then show ?thesis by (simp add: utf8_cp_def)
  qed (use c in \<open>auto simp: is_scalar_def utf8_dec_two utf8_dec_three utf8_dec_four\<close>)
qed

lemma utf8_dec_concat: "list_all is_scalar s \<Longrightarrow> utf8_dec (concat (map utf8_cp s)) = Inr s"
  by (induction s) (auto simp: utf8_dec_cp)

lemma map_of_char_char_of:
  "list_all (\<lambda>b. b < 256) ns \<Longrightarrow> map of_char (map char_of ns :: char list) = (ns :: nat list)"
  by (induction ns) (auto simp: of_char_of)

lemma utf8_concat_bytes:
  "list_all is_scalar s \<Longrightarrow> list_all (\<lambda>b. b < 256) (concat (map utf8_cp s))"
  by (induction s) (auto simp: utf8_cp_bytes)

interpretation utf8: codec utf8_encode utf8_decode
proof
  fix s b
  assume "utf8_encode s = Inr b"
  then have s: "list_all is_scalar s" and b: "b = map char_of (concat (map utf8_cp s))"
    by (auto simp: utf8_encode_def split: if_splits)
  have "map of_char b = concat (map utf8_cp s)"
    unfolding b using utf8_concat_bytes [OF s] by (rule map_of_char_char_of)
  then show "utf8_decode b = Inr s"
    using utf8_dec_concat [OF s] by (simp add: utf8_decode_def)
qed

lemma rcons_eq_Inl_iff: "rcons c m = Inl e \<longleftrightarrow> m = Inl e"
  by (cases m) auto

lemma utf8_dec_error: "e \<noteq> UnicodeDecodeError \<Longrightarrow> utf8_dec s \<noteq> Inl e"
proof (induction s rule: utf8_dec.induct)
  case (2 a s)
  then show ?case
    by (subst utf8_dec.simps) (auto simp: rcons_eq_Inl_iff simp del: utf8_dec.simps split: list.split)
qed simp

lemma utf8_decode_error: "utf8_decode bs = Inl e \<Longrightarrow> e = UnicodeDecodeError"
  using utf8_dec_error [of e "map of_char bs"] by (auto simp: utf8_decode_def)

section \<open>ASCII and percent decoding\<close>

definition ascii_encode :: "pystr \<Rightarrow> bytes res" where
  "ascii_encode s = (if list_all (\<lambda>c. c < 128) s then Inr (map char_of s) else Inl UnicodeEncodeError)"

fun unquote_to_bytes :: "pystr \<Rightarrow> bytes" where
  "unquote_to_bytes (a # b # c # s) =
     (if a = 37 \<and> is_hex b \<and> is_hex c then char_of (16 * hex_val b + hex_val c) # unquote_to_bytes s
      else char_of a # unquote_to_bytes (b # c # s))"
| "unquote_to_bytes s = map char_of s"

text \<open>\<open>re.search(rb"%(?![0-9A-Fa-f]{2})", s)\<close>.\<close>

fun bad_percent :: "pystr \<Rightarrow> bool" where
  "bad_percent [] = False"
| "bad_percent (a # s) =
     (a = 37 \<and> \<not> (2 \<le> length s \<and> is_hex (s ! 0) \<and> is_hex (s ! 1)) \<or> bad_percent s)"

text \<open>
  The percent encoding \<open>urllib.parse.quote_from_bytes\<close> produces for bytes outside the
  unreserved characters; here every byte is escaped. It is the inverse the decoder is
  checked against.
\<close>

definition quote_all :: "bytes \<Rightarrow> pystr" where
  "quote_all bs =
     concat (map (\<lambda>b. [37, hex_digit (of_char b div 16), hex_digit (of_char b mod 16)]) bs)"

text \<open>\<open>urllib.parse.quote(s, safe="")\<close> and \<open>quote_plus(s)\<close>, which \<open>urlencode\<close> applies.\<close>

definition unreserved :: "nat \<Rightarrow> bool" where
  "unreserved c \<longleftrightarrow> is_digit c \<or> 65 \<le> c \<and> c \<le> 90 \<or> 97 \<le> c \<and> c \<le> 122 \<or> c \<in> {45, 46, 95, 126}"

definition quote_byte :: "nat \<Rightarrow> pystr" where
  "quote_byte b =
     (if unreserved b then [b]
      else let digit = (\<lambda>n. if n < 10 then 48 + n else 55 + n) in [37, digit (b div 16), digit (b mod 16)])"

definition py_quote :: "pystr \<Rightarrow> pystr res" where
  "py_quote s = rbind (utf8_encode s) (\<lambda>bs. Inr (concat (map (\<lambda>b. quote_byte (of_char b)) bs)))"

definition quote_plus :: "pystr \<Rightarrow> pystr res" where
  "quote_plus s =
     rbind (utf8_encode s) (\<lambda>bs. Inr (concat (map (\<lambda>b. if b = char_of (32 :: nat) then [43] else quote_byte (of_char b)) bs)))"

lemma quote_all_simps [simp]:
  "quote_all [] = []"
  "quote_all (b # bs) = 37 # hex_digit (of_char b div 16) # hex_digit (of_char b mod 16) # quote_all bs"
  by (simp_all add: quote_all_def)

lemma char_nibbles [simp]: "of_char (b :: char) div 16 < (16 :: nat)" "of_char b mod 16 < (16 :: nat)"
  using of_char_less_256 [of b] by (simp_all add: less_mult_imp_div_less)

lemma unquote_quote_all: "unquote_to_bytes (quote_all bs) = bs"
  by (induction bs) (simp_all add: is_hex_hex_digit hex_val_hex_digit)

lemma hex_digit_not_percent: "n < 16 \<Longrightarrow> hex_digit n \<noteq> 37"
  by (simp add: hex_digit_def)

lemma quote_all_not_bad: "\<not> bad_percent (quote_all bs)"
  by (induction bs) (simp_all add: is_hex_hex_digit hex_digit_not_percent)

section \<open>URL-safe base64\<close>

definition b64_char :: "nat \<Rightarrow> nat" where
  "b64_char n = (if n < 26 then 65 + n else if n < 52 then 71 + n else if n < 62 then n - 4
                 else if n = 62 then 45 else 95)"

fun urlsafe_b64encode :: "nat list \<Rightarrow> pystr" where
  "urlsafe_b64encode [] = []"
| "urlsafe_b64encode [a] = [b64_char (a div 4), b64_char (a mod 4 * 16), 61, 61]"
| "urlsafe_b64encode [a, b] =
     [b64_char (a div 4), b64_char (a mod 4 * 16 + b div 16), b64_char (b mod 16 * 4), 61]"
| "urlsafe_b64encode (a # b # c # s) =
     b64_char (a div 4) # b64_char (a mod 4 * 16 + b div 16) # b64_char (b mod 16 * 4 + c div 64)
       # b64_char (c mod 64) # urlsafe_b64encode s"

definition base64url :: "bytes \<Rightarrow> pystr" where
  "base64url bs = py_rstrip (\<lambda>c. c = 61) (urlsafe_b64encode (map of_char bs))"

definition is_b64url :: "nat \<Rightarrow> bool" where
  "is_b64url c \<longleftrightarrow> 65 \<le> c \<and> c \<le> 90 \<or> 97 \<le> c \<and> c \<le> 122 \<or> is_digit c \<or> c = 45 \<or> c = 95"

definition b64_val :: "nat \<Rightarrow> nat" where
  "b64_val c = (if c = 45 then 62 else if c = 95 then 63 else if c \<le> 57 then c + 4
                else if c \<le> 90 then c - 65 else c - 71)"

text \<open>The unpadded encoding, and a decoder for it (RFC 4648, section 5).\<close>

fun b64_raw :: "nat list \<Rightarrow> pystr" where
  "b64_raw [] = []"
| "b64_raw [a] = [b64_char (a div 4), b64_char (a mod 4 * 16)]"
| "b64_raw [a, b] = [b64_char (a div 4), b64_char (a mod 4 * 16 + b div 16), b64_char (b mod 16 * 4)]"
| "b64_raw (a # b # c # s) =
     b64_char (a div 4) # b64_char (a mod 4 * 16 + b div 16) # b64_char (b mod 16 * 4 + c div 64)
       # b64_char (c mod 64) # b64_raw s"

fun b64_dec :: "pystr \<Rightarrow> nat list" where
  "b64_dec (p # q # r # t # s) =
     (b64_val p * 4 + b64_val q div 16) # (b64_val q mod 16 * 16 + b64_val r div 4)
       # (b64_val r mod 4 * 64 + b64_val t) # b64_dec s"
| "b64_dec [p, q, r] = [b64_val p * 4 + b64_val q div 16, b64_val q mod 16 * 16 + b64_val r div 4]"
| "b64_dec [p, q] = [b64_val p * 4 + b64_val q div 16]"
| "b64_dec _ = []"

definition base64url_decode :: "pystr \<Rightarrow> bytes" where
  "base64url_decode s = map char_of (b64_dec s)"

lemma is_b64url_b64_char: "n < 64 \<Longrightarrow> is_b64url (b64_char n)"
  by (auto simp: is_b64url_def b64_char_def is_digit_def)

lemma b64_val_b64_char: "n < 64 \<Longrightarrow> b64_val (b64_char n) = n"
  by (auto simp: b64_val_def b64_char_def)

lemma b64_parts:
  "(a :: nat) < 256 \<Longrightarrow> a div 4 < 64" "b < 256 \<Longrightarrow> a mod 4 * 16 + b div 16 < 64"
  "c < 256 \<Longrightarrow> b mod 16 * 4 + c div 64 < 64" "c mod 64 < (64 :: nat)"
  "a mod 4 * 16 < 64" "b mod 16 * 4 < 64"
proof -
  have m: "x mod 4 < 4" "x mod 16 < 16" for x :: nat by simp_all
  show "a < 256 \<Longrightarrow> a div 4 < 64" "a mod 4 * 16 < 64" "b mod 16 * 4 < 64" "c mod 64 < (64 :: nat)"
    using m(1) [of a] m(2) [of b] by auto
  show "b < 256 \<Longrightarrow> a mod 4 * 16 + b div 16 < 64"
    using m(1) [of a] by linarith
  show "c < 256 \<Longrightarrow> b mod 16 * 4 + c div 64 < 64"
    using m(2) [of b] by linarith
qed

lemma b64_raw_shape:
  "list_all (\<lambda>b. b < 256) bs \<Longrightarrow>
   length (b64_raw bs) = (4 * length bs + 2) div 3 \<and> list_all is_b64url (b64_raw bs)"
  by (induction bs rule: b64_raw.induct) (auto simp: is_b64url_b64_char b64_parts)

lemma b64_dec_raw: "list_all (\<lambda>b. b < 256) bs \<Longrightarrow> b64_dec (b64_raw bs) = bs"
proof (induction bs rule: b64_raw.induct)
  case (4 a b c s)
  have "(a mod 4 * 16 + b div 16) div 16 = a mod 4" "(a mod 4 * 16 + b div 16) mod 16 = b div 16"
    "(b mod 16 * 4 + c div 64) div 4 = b mod 16" "(b mod 16 * 4 + c div 64) mod 4 = c div 64"
    using 4 by auto
  with 4 show ?case by (simp add: b64_val_b64_char b64_parts)
next
  case (3 a b)
  have "(a mod 4 * 16 + b div 16) div 16 = a mod 4" "(a mod 4 * 16 + b div 16) mod 16 = b div 16"
    using 3 by auto
  with 3 show ?case by (simp add: b64_val_b64_char b64_parts)
qed (simp_all add: b64_val_b64_char b64_parts)

lemma b64_padded:
  "\<exists>k. urlsafe_b64encode bs = b64_raw bs @ replicate k 61"
proof (induction bs rule: urlsafe_b64encode.induct)
  case (2 a)
  then show ?case by (intro exI [of _ 2]) (simp add: numeral_2_eq_2)
next
  case (3 a b)
  then show ?case by (intro exI [of _ 1]) simp
qed auto

lemma py_rstrip_replicate:
  "list_all (\<lambda>c. \<not> P c) s \<Longrightarrow> P x \<Longrightarrow> py_rstrip P (s @ replicate k x) = s"
  unfolding py_rstrip_def
  by (cases s rule: rev_cases) (simp_all add: dropWhile_append2 dropWhile_append3)

lemma base64url_raw: "base64url bs = b64_raw (map of_char bs)"
proof -
  have "list_all (\<lambda>b. b < (256 :: nat)) (map of_char bs)" by (simp add: list.pred_map list_all_iff)
  then have "list_all is_b64url (b64_raw (map of_char bs))" using b64_raw_shape by blast
  then have "list_all (\<lambda>c. \<not> c = 61) (b64_raw (map of_char bs))"
    by (rule list.pred_mono_strong) (auto simp: is_b64url_def is_digit_def)
  then have "py_rstrip (\<lambda>c. c = 61) (b64_raw (map of_char bs) @ replicate k 61)
      = b64_raw (map of_char bs)" for k
    by (rule py_rstrip_replicate) simp
  then show ?thesis
    unfolding base64url_def using b64_padded [of "map of_char bs"] by auto
qed

lemma base64url_shape:
  "length (base64url bs) = (4 * length bs + 2) div 3 \<and> list_all is_b64url (base64url bs)"
  using b64_raw_shape [of "map of_char bs"] by (simp add: base64url_raw list.pred_map list_all_iff)

lemma base64url_decode_encode: "base64url_decode (base64url bs) = bs"
  by (simp add: base64url_decode_def base64url_raw b64_dec_raw list.pred_map list_all_iff comp_def)

interpretation b64: codec "\<lambda>bs. Inr (base64url bs)" "\<lambda>s. Inr (base64url_decode s)"
  by unfold_locales (auto simp: base64url_decode_encode)

interpretation pct: codec "\<lambda>bs. Inr (quote_all bs)" "\<lambda>s. Inr (unquote_to_bytes s)"
  by unfold_locales (auto simp: unquote_quote_all)

end
