(* ===== verification/Py_Value.thy ===== *)
theory Py_Value
  imports Py_Codec "HOL-Library.AList"
begin

text \<open>
  Python values as the JSON and YAML readers build them: \<open>None\<close>, booleans, integers, floats,
  strings, lists and dictionaries in insertion order, with the language's \<open>==\<close>, truth value,
  \<open>dict.get\<close>, item assignment and \<open>{**a, **b}\<close>.

  A finite float is the pair \<open>m, e\<close> of its exact value \<open>m * 2 ^ e\<close>. \<open>==\<close> compares numbers by
  value across \<open>bool\<close>, \<open>int\<close> and \<open>float\<close> (\<open>True == 1 == 1.0\<close>), dictionaries without regard
  to order, and is never true of a \<open>nan\<close>.
\<close>

section \<open>Values\<close>

datatype pyfloat = FFin int int | FInf bool | FNan

datatype pykey = KStr pystr | KNone | KBool bool | KInt int | KFloat pyfloat

datatype pyval =
    PNone
  | PBool bool
  | PInt int
  | PFloat pyfloat
  | PStr pystr
  | PList "pyval list"
  | PDict "(pykey \<times> pyval) list"

type_synonym pydict = "(pykey \<times> pyval) list"

abbreviation S :: "string \<Rightarrow> pyval" where
  "S s \<equiv> PStr (lit s)"

abbreviation K :: "string \<Rightarrow> pykey" where
  "K s \<equiv> KStr (lit s)"

fun is_str :: "pyval \<Rightarrow> bool" where
  "is_str (PStr _) = True"
| "is_str _ = False"

fun is_dict :: "pyval \<Rightarrow> bool" where
  "is_dict (PDict _) = True"
| "is_dict _ = False"

fun is_list :: "pyval \<Rightarrow> bool" where
  "is_list (PList _) = True"
| "is_list _ = False"

fun is_bool :: "pyval \<Rightarrow> bool" where
  "is_bool (PBool _) = True"
| "is_bool _ = False"

text \<open>\<open>type(v) is int\<close>: a boolean is not accepted.\<close>

fun is_int :: "pyval \<Rightarrow> bool" where
  "is_int (PInt _) = True"
| "is_int _ = False"

text \<open>\<open>isinstance(v, str) and v\<close>.\<close>

fun nonempty_str :: "pyval \<Rightarrow> bool" where
  "nonempty_str (PStr s) = (s \<noteq> [])"
| "nonempty_str _ = False"

text \<open>What can be a member of a set or a key.\<close>

definition hashable :: "pyval \<Rightarrow> bool" where
  "hashable v \<longleftrightarrow> \<not> is_list v \<and> \<not> is_dict v"

text \<open>The contents of a value of known type; the empty value for another one.\<close>

fun the_str :: "pyval \<Rightarrow> pystr" where
  "the_str (PStr s) = s"
| "the_str _ = []"

fun the_dict :: "pyval \<Rightarrow> pydict" where
  "the_dict (PDict d) = d"
| "the_dict _ = []"

fun the_list :: "pyval \<Rightarrow> pyval list" where
  "the_list (PList xs) = xs"
| "the_list _ = []"

lemma is_str_iff: "is_str v \<longleftrightarrow> (\<exists>s. v = PStr s)"
  by (cases v) auto

lemma is_dict_iff: "is_dict v \<longleftrightarrow> (\<exists>d. v = PDict d)"
  by (cases v) auto

lemma is_list_iff: "is_list v \<longleftrightarrow> (\<exists>xs. v = PList xs)"
  by (cases v) auto

lemma is_bool_iff: "is_bool v \<longleftrightarrow> (\<exists>b. v = PBool b)"
  by (cases v) auto

lemma is_int_iff: "is_int v \<longleftrightarrow> (\<exists>i. v = PInt i)"
  by (cases v) auto

lemma nonempty_str_iff: "nonempty_str v \<longleftrightarrow> (\<exists>s. v = PStr s \<and> s \<noteq> [])"
  by (cases v) auto

lemmas type_test_iffs =
  is_str_iff is_dict_iff is_list_iff is_bool_iff is_int_iff nonempty_str_iff

fun py_true :: "pyval \<Rightarrow> bool" where
  "py_true PNone = False"
| "py_true (PBool b) = b"
| "py_true (PInt i) = (i \<noteq> 0)"
| "py_true (PFloat (FFin m e)) = (m \<noteq> 0)"
| "py_true (PFloat _) = True"
| "py_true (PStr s) = (s \<noteq> [])"
| "py_true (PList xs) = (xs \<noteq> [])"
| "py_true (PDict d) = (d \<noteq> [])"

section \<open>Equality\<close>

fun num_parts :: "pyval \<Rightarrow> (int \<times> int) option" where
  "num_parts (PBool b) = Some (of_bool b, 0)"
| "num_parts (PInt i) = Some (i, 0)"
| "num_parts (PFloat (FFin m e)) = Some (m, e)"
| "num_parts _ = None"

definition fin_eq :: "int \<times> int \<Rightarrow> int \<times> int \<Rightarrow> bool" where
  "fin_eq a b =
     (if snd a \<le> snd b then fst a = fst b * 2 ^ nat (snd b - snd a)
      else fst a * 2 ^ nat (snd a - snd b) = fst b)"

fun scalar_eq :: "pyval \<Rightarrow> pyval \<Rightarrow> bool" where
  "scalar_eq PNone PNone = True"
| "scalar_eq (PStr s) (PStr t) = (s = t)"
| "scalar_eq (PFloat (FInf x)) (PFloat (FInf y)) = (x = y)"
| "scalar_eq a b =
     (case (num_parts a, num_parts b) of (Some x, Some y) \<Rightarrow> fin_eq x y | _ \<Rightarrow> False)"

fun key_val :: "pykey \<Rightarrow> pyval" where
  "key_val (KStr s) = PStr s"
| "key_val KNone = PNone"
| "key_val (KBool b) = PBool b"
| "key_val (KInt i) = PInt i"
| "key_val (KFloat f) = PFloat f"

definition key_eq :: "pykey \<Rightarrow> pykey \<Rightarrow> bool" where
  "key_eq k l = scalar_eq (key_val k) (key_val l)"

fun dlookup :: "pydict \<Rightarrow> pykey \<Rightarrow> pyval option" where
  "dlookup [] k = None"
| "dlookup ((l, v) # d) k = (if key_eq l k then Some v else dlookup d k)"

fun py_eq :: "pyval \<Rightarrow> pyval \<Rightarrow> bool"
  and py_eq_list :: "pyval list \<Rightarrow> pyval list \<Rightarrow> bool"
  and py_eq_items :: "(pykey \<times> pyval) list \<Rightarrow> pydict \<Rightarrow> bool" where
  "py_eq (PList xs) b = (case b of PList ys \<Rightarrow> py_eq_list xs ys | _ \<Rightarrow> False)"
| "py_eq (PDict d) b = (case b of PDict e \<Rightarrow> length d = length e \<and> py_eq_items d e | _ \<Rightarrow> False)"
| "py_eq a b = scalar_eq a b"
| "py_eq_list [] ys = (ys = [])"
| "py_eq_list (x # xs) ys = (case ys of [] \<Rightarrow> False | y # zs \<Rightarrow> py_eq x y \<and> py_eq_list xs zs)"
| "py_eq_items [] e = True"
| "py_eq_items ((k, v) # d) e =
     ((case dlookup e k of None \<Rightarrow> False | Some w \<Rightarrow> py_eq v w) \<and> py_eq_items d e)"

lemma scalar_eq_PStr [simp]: "scalar_eq v (PStr s) \<longleftrightarrow> v = PStr s"
  by (cases v) (auto split: option.splits elim: num_parts.elims)

lemma scalar_eq_PStr_left [simp]: "scalar_eq (PStr s) v \<longleftrightarrow> v = PStr s"
  by (cases v) (auto split: option.splits)

lemma scalar_eq_PNone [simp]: "scalar_eq v PNone \<longleftrightarrow> v = PNone"
  by (cases v) (auto split: option.splits)

lemma scalar_eq_container [simp]:
  "\<not> scalar_eq v (PList ys)" "\<not> scalar_eq v (PDict d)"
proof -
  show "\<not> scalar_eq v (PList ys)"
    by (cases "(v, PList ys)" rule: scalar_eq.cases) (auto split: option.splits)
  show "\<not> scalar_eq v (PDict d)"
    by (cases "(v, PDict d)" rule: scalar_eq.cases) (auto split: option.splits)
qed

lemma py_eq_PStr [simp]: "py_eq v (PStr s) \<longleftrightarrow> v = PStr s"
  by (cases v) auto

lemma py_eq_PNone [simp]: "py_eq v PNone \<longleftrightarrow> v = PNone"
  by (cases v) auto

lemma key_eq_KStr [simp]: "key_eq k (KStr s) \<longleftrightarrow> k = KStr s"
  by (cases k) (auto simp: key_eq_def)

text \<open>On a string key, lookup by \<open>==\<close> is lookup by identity of the key.\<close>

lemma dlookup_KStr: "dlookup d (KStr s) = map_of d (KStr s)"
  by (induction d) auto

text \<open>
  Values made of strings, \<open>None\<close> and lists of such: \<open>==\<close> is structural equality there. The
  expected constants of the validators that are not dictionaries have this form.
\<close>

fun textual :: "pyval \<Rightarrow> bool" where
  "textual (PStr _) = True"
| "textual PNone = True"
| "textual (PList xs) = list_all textual xs"
| "textual _ = False"

lemma py_eq_list_textual:
  "(\<And>v c. c \<in> set ys \<Longrightarrow> py_eq v c \<longleftrightarrow> v = c) \<Longrightarrow> py_eq_list xs ys \<longleftrightarrow> xs = ys"
proof (induction xs arbitrary: ys)
  case Nil
  then show ?case by auto
next
  case (Cons x xs)
  then show ?case by (cases ys) auto
qed

lemma py_eq_textual: "textual c \<Longrightarrow> py_eq v c \<longleftrightarrow> v = c"
proof (induction c arbitrary: v)
  case (PList ys)
  then have "\<And>v c. c \<in> set ys \<Longrightarrow> py_eq v c \<longleftrightarrow> v = c" by (auto simp: list_all_iff)
  then have "py_eq_list xs ys \<longleftrightarrow> xs = ys" for xs by (rule py_eq_list_textual)
  then show ?case by (cases v) (simp_all split: option.split)
qed auto

lemma py_eq_items_iff: "py_eq_items d e \<longleftrightarrow> (\<forall>(k, v) \<in> set d. \<exists>w. dlookup e k = Some w \<and> py_eq v w)"
  by (induction d) (auto split: option.splits)

text \<open>
  Values that compare equal to themselves: no floats (a NaN differs from itself), and dictionaries
  with string keys, each once.
\<close>

fun sane :: "pyval \<Rightarrow> bool" where
  "sane (PFloat _) = False"
| "sane (PList xs) = list_all sane xs"
| "sane (PDict d) = (distinct (map fst d) \<and> list_all (\<lambda>(k, v). (case k of KStr _ \<Rightarrow> True | _ \<Rightarrow> False) \<and> sane v) d)"
| "sane _ = True"

lemma py_eq_list_refl: "(\<And>x. x \<in> set xs \<Longrightarrow> py_eq x x) \<Longrightarrow> py_eq_list xs xs"
  by (induction xs) auto

lemma py_eq_refl: "sane v \<Longrightarrow> py_eq v v"
proof (induction v)
  case (PList xs)
  then show ?case by (auto simp: list_all_iff intro!: py_eq_list_refl)
next
  case (PDict d)
  have "\<exists>w. dlookup d k = Some w \<and> py_eq v w" if kv: "(k, v) \<in> set d" for k v
  proof -
    obtain s where k: "k = KStr s" and v: "sane v"
      using PDict.prems kv by (auto simp: list_all_iff split: pykey.splits)
    have "dlookup d k = Some v" using PDict.prems kv by (simp add: k dlookup_KStr)
    moreover have "py_eq v v" using PDict.IH [OF kv] v by simp
    ultimately show ?thesis by blast
  qed
  then show ?case by (auto simp: py_eq_items_iff)
qed (simp_all add: fin_eq_def split: option.splits)

section \<open>Dictionaries\<close>

text \<open>\<open>d.get("k")\<close> with default \<open>None\<close>, presence, and item access that may raise.\<close>

definition dget :: "pydict \<Rightarrow> string \<Rightarrow> pyval" where
  "dget d k = (case map_of d (K k) of None \<Rightarrow> PNone | Some v \<Rightarrow> v)"

definition dhas :: "pydict \<Rightarrow> string \<Rightarrow> bool" where
  "dhas d k \<longleftrightarrow> map_of d (K k) \<noteq> None"

definition ditem :: "pydict \<Rightarrow> string \<Rightarrow> pyval res" where
  "ditem d k = (case map_of d (K k) of None \<Rightarrow> Inl KeyError | Some v \<Rightarrow> Inr v)"

definition dset :: "pykey \<Rightarrow> pyval \<Rightarrow> pydict \<Rightarrow> pydict" where
  "dset k v d = AList.update k v d"

definition dmerge :: "pydict \<Rightarrow> pydict \<Rightarrow> pydict" where
  "dmerge a b = fold (\<lambda>(k, v) d. dset k v d) b a"

text \<open>\<open>set(d) == {"k1", ..., "kn"}\<close>.\<close>

definition keys_are :: "pydict \<Rightarrow> string list \<Rightarrow> bool" where
  "keys_are d ks \<longleftrightarrow> set (map fst d) = set (map K ks)"

definition keys_within :: "pydict \<Rightarrow> string list \<Rightarrow> bool" where
  "keys_within d ks \<longleftrightarrow> set (map fst d) \<subseteq> set (map K ks)"

text \<open>
  The interface of a key/value store: what a lookup returns after an assignment. Its clients
  assign fields one by one or merge one store's entries into another.
\<close>

locale kv_store =
  fixes get :: "'s \<Rightarrow> 'k \<Rightarrow> 'v option" and put :: "'k \<Rightarrow> 'v \<Rightarrow> 's \<Rightarrow> 's"
  assumes get_put: "get (put k v s) k' = (if k' = k then Some v else get s k')"
begin

lemma get_put_same [simp]: "get (put k v s) k = Some v"
  by (simp add: get_put)

lemma get_put_other: "k' \<noteq> k \<Longrightarrow> get (put k v s) k' = get s k'"
  by (simp add: get_put)

lemma get_put_all:
  "distinct (map fst kvs) \<Longrightarrow>
   get (fold (\<lambda>(k, v) s. put k v s) kvs s) k'
     = (case map_of kvs k' of None \<Rightarrow> get s k' | Some v \<Rightarrow> Some v)"
proof (induction kvs arbitrary: s)
  case Nil
  then show ?case by simp
next
  case (Cons kv kvs)
  obtain k v where kv: "kv = (k, v)" by (cases kv)
  have "map_of kvs k = None" using Cons.prems kv by (simp add: map_of_eq_None_iff)
  then show ?case using Cons kv by (auto simp: get_put split: option.splits)
qed

end

lemma map_of_dset: "map_of (dset k v d) k' = (if k' = k then Some v else map_of d k')"
  by (simp add: dset_def update_conv)

interpretation pd: kv_store "map_of :: pydict \<Rightarrow> pykey \<Rightarrow> pyval option" dset
  by unfold_locales (rule map_of_dset)

lemma map_of_dmerge:
  "distinct (map fst b) \<Longrightarrow>
   map_of (dmerge a b) k = (case map_of b k of None \<Rightarrow> map_of a k | Some v \<Rightarrow> Some v)"
  unfolding dmerge_def by (rule pd.get_put_all)

lemma set_dset: "set (dset k v d) \<subseteq> insert (k, v) (set d)"
  unfolding dset_def by (induction d) auto

lemma distinct_dset: "distinct (map fst d) \<Longrightarrow> distinct (map fst (dset k v d))"
  unfolding dset_def by (rule distinct_update)

lemma distinct_dmerge: "distinct (map fst a) \<Longrightarrow> distinct (map fst (dmerge a b))"
  unfolding dmerge_def by (induction b arbitrary: a) (auto intro!: distinct_dset)

lemma dset_new: "k \<notin> fst ` set d \<Longrightarrow> dset k v d = d @ [(k, v)]"
  unfolding dset_def by (induction d) auto

lemma dget_dset [dict_simps]: "dget (dset (K k) v d) k' = (if k' = k then v else dget d k')"
  by (simp add: dget_def map_of_dset)

lemma dget_Cons [dict_simps]: "dget ((K k, v) # d) k' = (if k' = k then v else dget d k')"
  by (simp add: dget_def)

lemma dget_Nil [dict_simps]: "dget [] k = PNone"
  by (simp add: dget_def)

lemma dhas_Cons [dict_simps]: "dhas ((K k, v) # d) k' = (k' = k \<or> dhas d k')"
  by (simp add: dhas_def)

lemma dhas_Nil [dict_simps]: "\<not> dhas [] k"
  by (simp add: dhas_def)

lemma dget_not_has: "\<not> dhas d k \<Longrightarrow> dget d k = PNone"
  by (simp add: dget_def dhas_def)

lemma dhas_if_dget: "dget d k \<noteq> PNone \<Longrightarrow> dhas d k"
  using dget_not_has by blast

lemma ditem_dget: "dhas d k \<Longrightarrow> ditem d k = Inr (dget d k)"
  by (auto simp: ditem_def dget_def dhas_def)

lemma keys_are_dhas: "keys_are d ks \<Longrightarrow> dhas d k \<longleftrightarrow> k \<in> set ks"
proof -
  assume "keys_are d ks"
  then have eq: "fst ` set d = K ` set ks" by (simp add: keys_are_def)
  have "dhas d k \<longleftrightarrow> K k \<in> fst ` set d"
    by (simp add: dhas_def map_of_eq_None_iff)
  also have "\<dots> \<longleftrightarrow> k \<in> set ks" unfolding eq by auto
  finally show ?thesis .
qed

section \<open>Duplicate-free object construction\<close>

text \<open>
  The \<open>object_pairs_hook\<close> the sources pass to \<open>json.loads\<close>: build the dictionary and raise at
  the second occurrence of a key. The exception differs per use. \<open>plain_object\<close> is the
  default: the last value of a key wins.
\<close>

definition unique_object :: "exn \<Rightarrow> (pystr \<times> pyval) list \<Rightarrow> pydict res" where
  "unique_object e pairs =
     foldr_res (\<lambda>d (k, v). if KStr k \<in> fst ` set d then Inl e else Inr (dset (KStr k) v d)) [] pairs"

definition plain_object :: "(pystr \<times> pyval) list \<Rightarrow> pydict res" where
  "plain_object pairs = Inr (fold (\<lambda>(k, v) d. dset (KStr k) v d) pairs [])"

lemma unique_object_step:
  "foldr_res (\<lambda>d (k, v). if KStr k \<in> fst ` set d then Inl e else Inr (dset (KStr k) v d)) d0 pairs
   = (if distinct (map fst pairs) \<and> (\<forall>k \<in> set (map fst pairs). KStr k \<notin> fst ` set d0)
      then Inr (d0 @ map (\<lambda>(k, v). (KStr k, v)) pairs) else Inl e)"
proof (induction pairs arbitrary: d0)
  case Nil
  then show ?case by simp
next
  case (Cons p pairs)
  obtain k v where p: "p = (k, v)" by (cases p)
  show ?case
  proof (cases "KStr k \<in> fst ` set d0")
    case True
    then show ?thesis using p by auto
  next
    case False
    then show ?thesis using Cons [of "d0 @ [(KStr k, v)]"] p by (auto simp: dset_new)
  qed
qed

text \<open>Accepted exactly when no key is repeated, and then the pairs in order.\<close>

lemma unique_object_eq:
  "unique_object e pairs =
     (if distinct (map fst pairs) then Inr (map (\<lambda>(k, v). (KStr k, v)) pairs) else Inl e)"
  unfolding unique_object_def by (subst unique_object_step) simp

lemma unique_object_distinct:
  "unique_object e pairs = Inr d \<Longrightarrow> distinct (map fst d)"
proof -
  assume "unique_object e pairs = Inr d"
  then have "distinct (map fst pairs)" "d = map (\<lambda>(k, v). (KStr k, v)) pairs"
    by (auto simp: unique_object_eq split: if_splits)
  moreover have "map fst (map (\<lambda>(k, v). (KStr k, v)) pairs) = map KStr (map fst pairs)"
    by (induction pairs) auto
  ultimately show ?thesis by (simp only: distinct_map) (auto simp: inj_on_def)
qed

end
