(* ===== verification/Py_Json.thy ===== *)
theory Py_Json
  imports Py_Value "HOL-Library.List_Lexorder"
begin

text \<open>
  \<open>json.loads\<close> and \<open>json.dumps\<close> of the Python standard library, as far as the sources use
  them: \<open>loads\<close> with an \<open>object_pairs_hook\<close> (called as each object ends) and the recursion
  limit of the interpreter, \<open>dumps\<close> with \<open>ensure_ascii\<close> and compact separators, optionally
  with sorted keys.

  The conversions between a float and its decimal text are C library code and arrive as the
  parameters \<open>of_text\<close> and \<open>to_text\<close>. \<open>JSONDecodeError\<close> stands for every syntax error.
  Integers of more than 4300 digits are refused, as the interpreter does.
\<close>

record float_codec =
  of_text :: "pystr \<Rightarrow> pyfloat"
  to_text :: "pyfloat \<Rightarrow> pystr"

section \<open>Reading\<close>

definition is_json_ws :: "nat \<Rightarrow> bool" where
  "is_json_ws c \<longleftrightarrow> c = 32 \<or> c = 9 \<or> c = 10 \<or> c = 13"

definition skip_ws :: "pystr \<Rightarrow> pystr" where
  "skip_ws s = dropWhile is_json_ws s"

definition hex4 :: "pystr \<Rightarrow> nat option" where
  "hex4 s = (if 4 \<le> length s \<and> list_all is_hex (take 4 s)
             then Some (foldl (\<lambda>n c. 16 * n + hex_val c) 0 (take 4 s)) else None)"

definition is_high :: "nat \<Rightarrow> bool" where
  "is_high u \<longleftrightarrow> 55296 \<le> u \<and> u \<le> 56319"

definition is_low :: "nat \<Rightarrow> bool" where
  "is_low u \<longleftrightarrow> 56320 \<le> u \<and> u \<le> 57343"

definition join_surrogates :: "nat \<Rightarrow> nat \<Rightarrow> nat" where
  "join_surrogates h l = 65536 + (h - 55296) * 1024 + (l - 56320)"

definition simple_escape :: "nat \<Rightarrow> nat option" where
  "simple_escape c =
     (if c = 34 \<or> c = 92 \<or> c = 47 then Some c else if c = 98 then Some 8
      else if c = 102 then Some 12 else if c = 110 then Some 10
      else if c = 114 then Some 13 else if c = 116 then Some 9 else None)"

definition on_fst :: "('a \<Rightarrow> 'b) \<Rightarrow> ('a \<times> 'c) res \<Rightarrow> ('b \<times> 'c) res" where
  "on_fst f m = rbind m (\<lambda>(x, r). Inr (f x, r))"

lemma on_fst_Inr [simp]: "on_fst f (Inr (x, r)) = Inr (f x, r)"
  by (simp add: on_fst_def)

lemma on_fst_Inl [simp]: "on_fst f (Inl e) = Inl e"
  by (simp add: on_fst_def)

text \<open>\<open>scanstring\<close>: the rest of a string literal after its opening quote.\<close>

function scanstring :: "pystr \<Rightarrow> (pystr \<times> pystr) res" where
  "scanstring s =
     (case s of [] \<Rightarrow> Inl JSONDecodeError
      | c # t \<Rightarrow>
        if c = 34 then Inr ([], t)
        else if c = 92 then
          (case t of [] \<Rightarrow> Inl JSONDecodeError
           | e # u \<Rightarrow>
             if e = 117 then
               (case hex4 u of None \<Rightarrow> Inl JSONDecodeError
                | Some h \<Rightarrow>
                  if is_high h \<and> take 2 (drop 4 u) = [92, 117] then
                    (case hex4 (drop 6 u) of None \<Rightarrow> Inl JSONDecodeError
                     | Some l \<Rightarrow>
                       if is_low l then on_fst ((#) (join_surrogates h l)) (scanstring (drop 10 u))
                       else on_fst ((#) h) (scanstring (drop 4 u)))
                  else on_fst ((#) h) (scanstring (drop 4 u)))
             else (case simple_escape e of None \<Rightarrow> Inl JSONDecodeError
                   | Some x \<Rightarrow> on_fst ((#) x) (scanstring u)))
        else if c < 32 then Inl JSONDecodeError
        else on_fst ((#) c) (scanstring t))"
  by pat_completeness auto
termination by (relation "measure length") auto

declare scanstring.simps [simp del]

definition span :: "('a \<Rightarrow> bool) \<Rightarrow> 'a list \<Rightarrow> 'a list \<times> 'a list" where
  "span P s = (takeWhile P s, dropWhile P s)"

text \<open>
  The number pattern \<open>(-?(?:0|[1-9][0-9]*))(\.[0-9]+)?([eE][-+]?[0-9]+)?\<close>: the integer part,
  then the fraction and the exponent with what follows; an empty fraction and exponent make
  an integer.
\<close>

definition scan_int :: "pystr \<Rightarrow> (pystr \<times> pystr) option" where
  "scan_int s =
     (let (sign, t) = (if s \<noteq> [] \<and> hd s = 45 then ([45], tl s) else ([], s))
      in if t = [] \<or> \<not> is_digit (hd t) then None
         else if hd t = 48 then Some (sign @ [48], tl t)
         else Some (sign @ takeWhile is_digit t, dropWhile is_digit t))"

definition scan_frac :: "pystr \<Rightarrow> pystr \<times> pystr" where
  "scan_frac s =
     (if s \<noteq> [] \<and> hd s = 46 \<and> tl s \<noteq> [] \<and> is_digit (hd (tl s))
      then (46 # takeWhile is_digit (tl s), dropWhile is_digit (tl s)) else ([], s))"

definition scan_exp :: "pystr \<Rightarrow> pystr \<times> pystr" where
  "scan_exp s =
     (if s \<noteq> [] \<and> (hd s = 101 \<or> hd s = 69)
      then (let t = tl s;
                (sign, u) = (if t \<noteq> [] \<and> (hd t = 43 \<or> hd t = 45) then ([hd t], tl t) else ([], t))
            in if u \<noteq> [] \<and> is_digit (hd u)
               then (hd s # sign @ takeWhile is_digit u, dropWhile is_digit u) else ([], s))
      else ([], s))"

definition int_of_text :: "pystr \<Rightarrow> int" where
  "int_of_text s = (if s \<noteq> [] \<and> hd s = 45 then - int (digits_val (tl s)) else int (digits_val s))"

definition scan_number :: "float_codec \<Rightarrow> pystr \<Rightarrow> (pyval \<times> pystr) res" where
  "scan_number fc s =
     (case scan_int s of None \<Rightarrow> Inl JSONDecodeError
      | Some (i, t) \<Rightarrow>
        (let (f, u) = scan_frac t; (e, w) = scan_exp u
         in if f = [] \<and> e = [] then
              (if 4300 < length (filter is_digit i)
               then raiseV ''Exceeds the limit (4300 digits) for integer string conversion''
               else Inr (PInt (int_of_text i), w))
            else Inr (PFloat (of_text fc (i @ f @ e)), w)))"

text \<open>
  \<open>constants\<close> decides on \<open>NaN\<close>, \<open>Infinity\<close> and \<open>-Infinity\<close> (\<open>parse_constant\<close>). \<open>depth\<close> is what
  is left of the recursion limit; \<open>fuel\<close> only bounds the loop over the text.
\<close>

record json_opts =
  fcodec :: float_codec
  hook :: "(pystr \<times> pyval) list \<Rightarrow> pydict res"
  constants :: "pyfloat \<Rightarrow> pyval res"

fun scan_value :: "json_opts \<Rightarrow> nat \<Rightarrow> nat \<Rightarrow> pystr \<Rightarrow> (pyval \<times> pystr) res"
  and scan_elems :: "json_opts \<Rightarrow> nat \<Rightarrow> nat \<Rightarrow> pystr \<Rightarrow> (pyval list \<times> pystr) res"
  and scan_members :: "json_opts \<Rightarrow> nat \<Rightarrow> nat \<Rightarrow> pystr \<Rightarrow> ((pystr \<times> pyval) list \<times> pystr) res" where
  "scan_value opts 0 depth s = Inl OutOfFuel"
| "scan_value opts (Suc n) depth s =
     (case s of [] \<Rightarrow> Inl JSONDecodeError
      | c # t \<Rightarrow>
        if c = 34 then on_fst PStr (scanstring t)
        else if c = 123 then
          (case depth of 0 \<Rightarrow> Inl RecursionError
           | Suc d \<Rightarrow>
             (let u = skip_ws t in
              if u \<noteq> [] \<and> hd u = 125 then rbind (hook opts []) (\<lambda>o'. Inr (PDict o', tl u))
              else rbind (scan_members opts n d u)
                     (\<lambda>(ps, r). rbind (hook opts ps) (\<lambda>o'. Inr (PDict o', r)))))
        else if c = 91 then
          (case depth of 0 \<Rightarrow> Inl RecursionError
           | Suc d \<Rightarrow>
             (let u = skip_ws t in
              if u \<noteq> [] \<and> hd u = 93 then Inr (PList [], tl u)
              else on_fst PList (scan_elems opts n d u)))
        else if starts_with (lit ''null'') s then Inr (PNone, drop 4 s)
        else if starts_with (lit ''true'') s then Inr (PBool True, drop 4 s)
        else if starts_with (lit ''false'') s then Inr (PBool False, drop 5 s)
        else if starts_with (lit ''NaN'') s then rbind (constants opts FNan) (\<lambda>v. Inr (v, drop 3 s))
        else if starts_with (lit ''Infinity'') s then rbind (constants opts (FInf True)) (\<lambda>v. Inr (v, drop 8 s))
        else if starts_with (lit ''-Infinity'') s then rbind (constants opts (FInf False)) (\<lambda>v. Inr (v, drop 9 s))
        else scan_number (fcodec opts) s)"
| "scan_elems opts 0 depth s = Inl OutOfFuel"
| "scan_elems opts (Suc n) depth s =
     rbind (scan_value opts n depth s) (\<lambda>(v, r).
       (let u = skip_ws r in
        if u = [] then Inl JSONDecodeError
        else if hd u = 93 then Inr ([v], tl u)
        else if hd u = 44 then on_fst ((#) v) (scan_elems opts n depth (skip_ws (tl u)))
        else Inl JSONDecodeError))"
| "scan_members opts 0 depth s = Inl OutOfFuel"
| "scan_members opts (Suc n) depth s =
     (if s = [] \<or> hd s \<noteq> 34 then Inl JSONDecodeError
      else rbind (scanstring (tl s)) (\<lambda>(k, r).
        (let u = skip_ws r in
         if u = [] \<or> hd u \<noteq> 58 then Inl JSONDecodeError
         else rbind (scan_value opts n depth (skip_ws (tl u))) (\<lambda>(v, r').
           (let w = skip_ws r' in
            if w = [] then Inl JSONDecodeError
            else if hd w = 125 then Inr ([(k, v)], tl w)
            else if hd w = 44 then on_fst ((#) (k, v)) (scan_members opts n depth (skip_ws (tl w)))
            else Inl JSONDecodeError)))))"

definition scan_fuel :: "pystr \<Rightarrow> nat" where
  "scan_fuel s = 2 * length s + 1"

definition json_loads :: "json_opts \<Rightarrow> nat \<Rightarrow> pystr \<Rightarrow> pyval res" where
  "json_loads opts depth s =
     (if s \<noteq> [] \<and> hd s = 65279 then Inl JSONDecodeError
      else rbind (scan_value opts (scan_fuel s) depth (skip_ws s))
             (\<lambda>(v, r). if skip_ws r = [] then Inr v else Inl JSONDecodeError))"

text \<open>
  \<open>json.loads(bytes)\<close> detects the encoding by byte order marks and the position of zero bytes
  (\<open>json.detect_encoding\<close>); another encoding than UTF-8 is left to the parameter \<open>wide\<close>, and so are
  the lone surrogates that the \<open>surrogatepass\<close> handler lets through.
\<close>

definition looks_utf8 :: "bytes \<Rightarrow> bool" where
  "looks_utf8 data \<longleftrightarrow>
     (let b = map of_char data :: nat list
      in \<not> starts_with [239, 187, 191] b \<and> \<not> starts_with [254, 255] b \<and> \<not> starts_with [255, 254] b
         \<and> 0 \<notin> set (take 2 b))"

definition json_bytes_text :: "(bytes \<Rightarrow> pystr res) \<Rightarrow> bytes \<Rightarrow> pystr res" where
  "json_bytes_text wide b =
     (case (looks_utf8 b, utf8_decode b) of (True, Inr s) \<Rightarrow> Inr s | _ \<Rightarrow> wide b)"

section \<open>Writing\<close>

definition uescape :: "nat \<Rightarrow> pystr" where
  "uescape u = [92, 117, hex_digit (u div 4096 mod 16), hex_digit (u div 256 mod 16),
                hex_digit (u div 16 mod 16), hex_digit (u mod 16)]"

text \<open>\<open>ensure_ascii\<close>: everything outside the printable ASCII range is escaped.\<close>

definition escape_char :: "nat \<Rightarrow> pystr" where
  "escape_char c =
     (if c = 34 then [92, 34] else if c = 92 then [92, 92] else if c = 10 then [92, 110]
      else if c = 13 then [92, 114] else if c = 9 then [92, 116] else if c = 12 then [92, 102]
      else if c = 8 then [92, 98]
      else if 32 \<le> c \<and> c < 127 then [c]
      else if c < 65536 then uescape c
      else uescape (55296 + (c - 65536) div 1024) @ uescape (56320 + (c - 65536) mod 1024))"

definition quote_string :: "pystr \<Rightarrow> pystr" where
  "quote_string s = 34 # concat (map escape_char s) @ [34]"

fun join :: "pystr \<Rightarrow> pystr list \<Rightarrow> pystr" where
  "join sep [] = []"
| "join sep [x] = x"
| "join sep (x # xs) = x @ sep @ join sep xs"

fun key_text :: "float_codec \<Rightarrow> pykey \<Rightarrow> pystr" where
  "key_text fc (KStr s) = s"
| "key_text fc KNone = lit ''null''"
| "key_text fc (KBool b) = (if b then lit ''true'' else lit ''false'')"
| "key_text fc (KInt i) = show_int i"
| "key_text fc (KFloat f) = to_text fc f"

text \<open>
  \<open>json.dumps(v, separators=(",", ":"))\<close>; \<open>arrange\<close> reorders the items of a dictionary
  (\<open>sort_keys\<close>) or leaves them alone.
\<close>

fun dumps_with :: "float_codec \<Rightarrow> ((pystr \<times> pystr) list \<Rightarrow> (pystr \<times> pystr) list) \<Rightarrow> pyval \<Rightarrow> pystr" where
  "dumps_with fc arrange PNone = lit ''null''"
| "dumps_with fc arrange (PBool b) = (if b then lit ''true'' else lit ''false'')"
| "dumps_with fc arrange (PInt i) = show_int i"
| "dumps_with fc arrange (PFloat f) = to_text fc f"
| "dumps_with fc arrange (PStr s) = quote_string s"
| "dumps_with fc arrange (PList xs) = 91 # join [44] (map (dumps_with fc arrange) xs) @ [93]"
| "dumps_with fc arrange (PDict d) =
     123 # join [44] (map (\<lambda>(k, t). quote_string k @ [58] @ t)
            (arrange (map (\<lambda>(k, v). (key_text fc k, dumps_with fc arrange v)) d))) @ [125]"

definition json_dumps :: "float_codec \<Rightarrow> pyval \<Rightarrow> pystr" where
  "json_dumps fc v = dumps_with fc (\<lambda>items. items) v"

text \<open>\<open>json.dumps(v, sort_keys=True, separators=(",", ":"))\<close>, for string keys.\<close>

definition json_dumps_sorted :: "float_codec \<Rightarrow> pyval \<Rightarrow> pystr" where
  "json_dumps_sorted fc v = dumps_with fc (sort_key fst) v"

text \<open>
  The other forms of \<open>json.dumps\<close>: the white space after an opening bracket, after a comma, before a
  closing bracket, each at its level of nesting, and after a colon.
\<close>

record json_style =
  st_open :: "nat \<Rightarrow> pystr"
  st_item :: "nat \<Rightarrow> pystr"
  st_close :: "nat \<Rightarrow> pystr"
  st_colon :: pystr

definition line_indent :: "nat \<Rightarrow> pystr" where
  "line_indent n = 10 # replicate (2 * n) 32"

text \<open>\<open>separators=(",", ":")\<close>, the default, and \<open>indent=2\<close>.\<close>

definition COMPACT :: json_style where
  "COMPACT = \<lparr>st_open = \<lambda>_. [], st_item = \<lambda>_. [], st_close = \<lambda>_. [], st_colon = []\<rparr>"

definition SPACED :: json_style where
  "SPACED = \<lparr>st_open = \<lambda>_. [], st_item = \<lambda>_. [32], st_close = \<lambda>_. [], st_colon = [32]\<rparr>"

definition INDENTED :: json_style where
  "INDENTED = \<lparr>st_open = line_indent, st_item = line_indent, st_close = line_indent, st_colon = [32]\<rparr>"

fun dumps_style :: "float_codec \<Rightarrow> json_style \<Rightarrow> nat \<Rightarrow> pyval \<Rightarrow> pystr" where
  "dumps_style fc st n PNone = lit ''null''"
| "dumps_style fc st n (PBool b) = (if b then lit ''true'' else lit ''false'')"
| "dumps_style fc st n (PInt i) = show_int i"
| "dumps_style fc st n (PFloat f) = to_text fc f"
| "dumps_style fc st n (PStr s) = quote_string s"
| "dumps_style fc st n (PList xs) =
     (if xs = [] then [91, 93]
      else 91 # st_open st (Suc n) @ join (44 # st_item st (Suc n)) (map (dumps_style fc st (Suc n)) xs) @ st_close st n @ [93])"
| "dumps_style fc st n (PDict d) =
     (if d = [] then [123, 125]
      else 123 # st_open st (Suc n)
        @ join (44 # st_item st (Suc n))
            (map (\<lambda>(k, v). quote_string (key_text fc k) @ 58 # st_colon st @ dumps_style fc st (Suc n) v) d)
        @ st_close st n @ [125])"

text \<open>
  The options of \<open>json.loads(text, object_pairs_hook=unique_object)\<close>, with the exception the
  hook raises, and of plain \<open>json.loads(text)\<close>.
\<close>

definition unique_opts :: "float_codec \<Rightarrow> exn \<Rightarrow> json_opts" where
  "unique_opts fc e = \<lparr>fcodec = fc, hook = unique_object e, constants = (\<lambda>f. Inr (PFloat f))\<rparr>"

definition plain_opts :: "float_codec \<Rightarrow> json_opts" where
  "plain_opts fc = \<lparr>fcodec = fc, hook = plain_object, constants = (\<lambda>f. Inr (PFloat f))\<rparr>"

text \<open>The bytes of a JSON response body: \<open>json.dumps(v, separators=(",", ":")).encode()\<close>.\<close>

definition json_body :: "float_codec \<Rightarrow> pyval \<Rightarrow> bytes" where
  "json_body fc v = map char_of (json_dumps fc v)"

section \<open>Progress and termination of the reader\<close>

lemma on_fst_eq_Inr: "on_fst f m = Inr (y, r) \<longleftrightarrow> (\<exists>x. m = Inr (x, r) \<and> y = f x)"
  by (auto simp: on_fst_def rbind_eq_Inr_iff)

lemma on_fst_eq_Inl [simp]: "on_fst f m = Inl e \<longleftrightarrow> m = Inl e"
  by (cases m) (auto simp: on_fst_def)

lemma scanstring_shorter: "scanstring s = Inr (x, r) \<Longrightarrow> length r < length s"
proof (induction s arbitrary: x r rule: scanstring.induct)
  case (1 s)
  show ?case
  proof (cases s)
    case Nil
    with "1.prems" show ?thesis by (simp add: scanstring.simps [of "[]"])
  next
    case (Cons c t)
    show ?thesis
    proof (cases "c = 92")
      case False
      then show ?thesis using "1.prems" "1.IH"(5) [OF Cons] Cons
        by (auto simp: scanstring.simps [of "c # t"] on_fst_eq_Inr split: if_splits)
    next
      case c: True
      show ?thesis
      proof (cases t)
        case Nil
        with "1.prems" Cons c show ?thesis by (simp add: scanstring.simps [of "[92]"])
      next
        case t: (Cons e u)
        show ?thesis
        proof (cases "e = 117")
          case False
          then show ?thesis using "1.prems" "1.IH"(4) [OF Cons _ c t] Cons c t
            by (fastforce simp: scanstring.simps [of "92 # e # u"] on_fst_eq_Inr split: option.splits)
        next
          case e: True
          note IH = "1.IH"(1-3) [OF Cons _ c t e]
          show ?thesis using "1.prems" IH Cons c t e
            by (fastforce simp: scanstring.simps [of "92 # 117 # u"] on_fst_eq_Inr
                split: option.splits if_splits)
        qed
      qed
    qed
  qed
qed

lemma scanstring_fuel: "scanstring s \<noteq> Inl OutOfFuel"
proof (induction s rule: scanstring.induct)
  case (1 s)
  then show ?case
    by (subst scanstring.simps) (auto split: list.splits option.splits)
qed

lemma length_dropWhile_tl: "s \<noteq> [] \<Longrightarrow> P (hd s) \<Longrightarrow> length (dropWhile P s) < length s"
  using length_dropWhile_le [of P "tl s"] by (cases s) auto

lemma scan_int_shorter: "scan_int s = Some (i, r) \<Longrightarrow> length r < length s"
  by (auto simp: scan_int_def Let_def length_dropWhile_tl neq_Nil_conv split: if_splits prod.splits
      intro: order.strict_trans1 [OF length_dropWhile_le])

lemma scan_frac_le: "scan_frac s = (f, r) \<Longrightarrow> length r \<le> length s"
  by (auto simp: scan_frac_def split: if_splits intro: order.trans [OF length_dropWhile_le])

lemma scan_exp_le: "scan_exp s = (f, r) \<Longrightarrow> length r \<le> length s"
  by (auto simp: scan_exp_def Let_def split: if_splits prod.splits
      intro: order.trans [OF length_dropWhile_le])

lemma scan_number_shorter:
  assumes "scan_number fc s = Inr (v, r)" shows "length r < length s"
proof -
  obtain i t where i: "scan_int s = Some (i, t)"
    using assms by (auto simp: scan_number_def split: option.splits)
  obtain f u where f: "scan_frac t = (f, u)" by fastforce
  obtain e w where e: "scan_exp u = (e, w)" by fastforce
  have "r = w" using assms i f e by (auto simp: scan_number_def split: if_splits)
  then show ?thesis
    using scan_int_shorter [OF i] scan_frac_le [OF f] scan_exp_le [OF e] by simp
qed

lemma scan_number_fuel: "scan_number fc s \<noteq> Inl OutOfFuel"
  by (auto simp: scan_number_def Let_def split: option.splits prod.splits)

lemma skip_ws_le: "length (skip_ws s) \<le> length s"
  by (simp add: skip_ws_def length_dropWhile_le)

lemma skip_ws_tl_less: "skip_ws s \<noteq> [] \<Longrightarrow> length (tl (skip_ws s)) < length s"
  using skip_ws_le [of s] by (cases "skip_ws s") auto


lemma starts_with_drop_less: "starts_with p s \<Longrightarrow> p \<noteq> [] \<Longrightarrow> n = length p \<Longrightarrow> length (drop n s) < length s"
  by (auto simp: starts_with_iff)

lemma scan_value_shorter_step:
  assumes elems: "\<And>d s vs r. scan_elems opts n d s = Inr (vs, r) \<Longrightarrow> length r < length s"
    and members: "\<And>d s ps r. scan_members opts n d s = Inr (ps, r) \<Longrightarrow> length r < length s"
    and ok: "scan_value opts (Suc n) depth s = Inr (v, r)"
  shows "length r < length s"
proof -
  obtain c t where s: "s = c # t" using ok by (cases s) auto
  have t: "length (skip_ws t) \<le> length t" by (rule skip_ws_le)
  consider (str) "c = 34" | (cont) "c = 123 \<or> c = 91" | (other) "c \<noteq> 34" "c \<noteq> 123" "c \<noteq> 91"
    by blast
  then show ?thesis
  proof cases
    case str
    then show ?thesis using ok s by (auto simp: on_fst_eq_Inr dest: scanstring_shorter)
  next
    case cont
    then obtain dd where d: "depth = Suc dd" using ok s by (cases depth) auto
    consider "skip_ws t \<noteq> []" "r = tl (skip_ws t)"
      | ps where "scan_members opts n dd (skip_ws t) = Inr (ps, r)"
      | vs where "scan_elems opts n dd (skip_ws t) = Inr (vs, r)"
      using cont ok s d by (fastforce simp: Let_def rbind_eq_Inr_iff on_fst_eq_Inr split: if_splits)
    then show ?thesis
    proof cases
      case 1
      then show ?thesis using t s skip_ws_tl_less [of t] by simp
    qed (use members elems t s in \<open>fastforce dest: order.strict_trans2\<close>)+
  next
    case other
    then show ?thesis using ok s
      by (auto simp: rbind_eq_Inr_iff dest: scan_number_shorter split: if_splits)
  qed
qed

lemma scan_elems_shorter_step:
  assumes elems: "\<And>d s vs r. scan_elems opts n d s = Inr (vs, r) \<Longrightarrow> length r < length s"
    and vals: "\<And>d s v r. scan_value opts n d s = Inr (v, r) \<Longrightarrow> length r < length s"
    and ok: "scan_elems opts (Suc n) depth s = Inr (vs, r)"
  shows "length r < length s"
proof -
  obtain v r0 where v: "scan_value opts n depth s = Inr (v, r0)"
    using ok by (auto simp: rbind_eq_Inr_iff)
  have l: "length r0 < length s" using vals [OF v] .
  obtain ne: "skip_ws r0 \<noteq> []" using ok v by (auto simp: Let_def split: if_splits)
  have tl: "length (tl (skip_ws r0)) < length r0" using ne by (rule skip_ws_tl_less)
  consider "r = tl (skip_ws r0)" | ws where "scan_elems opts n depth (skip_ws (tl (skip_ws r0))) = Inr (ws, r)"
    using ok v by (auto simp: Let_def on_fst_eq_Inr split: if_splits)
  then show ?thesis
  proof cases
    case 1
    then show ?thesis using l tl by simp
  next
    case 2
    then show ?thesis using elems [OF 2] l tl skip_ws_le [of "tl (skip_ws r0)"] by linarith
  qed
qed

lemma scan_members_shorter_step:
  assumes members: "\<And>d s ps r. scan_members opts n d s = Inr (ps, r) \<Longrightarrow> length r < length s"
    and vals: "\<And>d s v r. scan_value opts n d s = Inr (v, r) \<Longrightarrow> length r < length s"
    and ok: "scan_members opts (Suc n) depth s = Inr (ps, r)"
  shows "length r < length s"
proof -
  obtain k r0 where k: "scanstring (tl s) = Inr (k, r0)" and s: "s \<noteq> []"
    using ok by (auto simp: rbind_eq_Inr_iff split: if_splits)
  have l: "length r0 < length s" using scanstring_shorter [OF k] s by (cases s) auto
  obtain w r1 where u: "skip_ws r0 \<noteq> []"
    and w: "scan_value opts n depth (skip_ws (tl (skip_ws r0))) = Inr (w, r1)"
    using ok k by (auto simp: rbind_eq_Inr_iff Let_def split: if_splits)
  have l1: "length r1 < length r0"
    using vals [OF w] skip_ws_tl_less [OF u] skip_ws_le [of "tl (skip_ws r0)"] by linarith
  have ne: "skip_ws r1 \<noteq> []" using ok k w by (auto simp: Let_def split: if_splits)
  have tl: "length (tl (skip_ws r1)) < length r1" using ne by (rule skip_ws_tl_less)
  consider "r = tl (skip_ws r1)"
    | ws where "scan_members opts n depth (skip_ws (tl (skip_ws r1))) = Inr (ws, r)"
    using ok k w by (auto simp: Let_def on_fst_eq_Inr split: if_splits)
  then show ?thesis
  proof cases
    case 1
    then show ?thesis using l l1 tl by simp
  next
    case 2
    then show ?thesis using members [OF 2] l l1 tl skip_ws_le [of "tl (skip_ws r1)"] by linarith
  qed
qed

lemma scan_shorter:
  "scan_value opts n d s = Inr (v, r) \<Longrightarrow> length r < length s"
  "scan_elems opts n d s = Inr (vs, r) \<Longrightarrow> length r < length s"
  "scan_members opts n d s = Inr (ps, r) \<Longrightarrow> length r < length s"
proof (induction n arbitrary: d s v r vs ps)
  case (Suc n)
  { case 1 show ?case by (rule scan_value_shorter_step [OF Suc(2,3) 1]) }
  { case 2 show ?case by (rule scan_elems_shorter_step [OF Suc(2,1) 2]) }
  { case 3 show ?case by (rule scan_members_shorter_step [OF Suc(3,1) 3]) }
qed simp_all

definition total_opts :: "json_opts \<Rightarrow> bool" where
  "total_opts opts \<longleftrightarrow> (\<forall>ps. hook opts ps \<noteq> Inl OutOfFuel) \<and> (\<forall>f. constants opts f \<noteq> Inl OutOfFuel)"


lemma scan_value_fuel_step:
  assumes opts: "total_opts opts"
    and elems: "\<And>d s. 2 * length s + 2 \<le> n \<Longrightarrow> scan_elems opts n d s \<noteq> Inl OutOfFuel"
    and members: "\<And>d s. 2 * length s + 2 \<le> n \<Longrightarrow> scan_members opts n d s \<noteq> Inl OutOfFuel"
    and n: "2 * length s + 1 \<le> Suc n"
  shows "scan_value opts (Suc n) depth s \<noteq> Inl OutOfFuel"
proof (cases s)
  case (Cons c t)
  have t: "2 * length (skip_ws t) + 2 \<le> n" using n Cons skip_ws_le [of t] by simp
  note rec = elems [OF t] members [OF t]
  show ?thesis
    using opts rec scanstring_fuel scan_number_fuel unfolding Cons total_opts_def
    by (auto simp: Let_def rbind_eq_Inl_iff split: nat.split)
qed simp

lemma scan_elems_fuel_step:
  assumes elems: "\<And>d s. 2 * length s + 2 \<le> n \<Longrightarrow> scan_elems opts n d s \<noteq> Inl OutOfFuel"
    and vals: "\<And>d s. 2 * length s + 1 \<le> n \<Longrightarrow> scan_value opts n d s \<noteq> Inl OutOfFuel"
    and n: "2 * length s + 2 \<le> Suc n"
  shows "scan_elems opts (Suc n) depth s \<noteq> Inl OutOfFuel"
proof -
  have "scan_elems opts n depth (skip_ws (tl (skip_ws r))) \<noteq> Inl OutOfFuel"
    if "scan_value opts n depth s = Inr (v, r)" "skip_ws r \<noteq> []" for v r
  proof (rule elems)
    show "2 * length (skip_ws (tl (skip_ws r))) + 2 \<le> n"
      using scan_shorter(1) [OF that(1)] skip_ws_tl_less [OF that(2)]
        skip_ws_le [of "tl (skip_ws r)"] n by linarith
  qed
  moreover have "scan_value opts n depth s \<noteq> Inl OutOfFuel" using n by (intro vals) simp
  ultimately show ?thesis by (auto simp: rbind_eq_Inl_iff Let_def)
qed

lemma scan_members_fuel_step:
  assumes members: "\<And>d s. 2 * length s + 2 \<le> n \<Longrightarrow> scan_members opts n d s \<noteq> Inl OutOfFuel"
    and vals: "\<And>d s. 2 * length s + 1 \<le> n \<Longrightarrow> scan_value opts n d s \<noteq> Inl OutOfFuel"
    and n: "2 * length s + 2 \<le> Suc n"
  shows "scan_members opts (Suc n) depth s \<noteq> Inl OutOfFuel"
proof -
  have val: "scan_value opts n depth (skip_ws (tl (skip_ws r))) \<noteq> Inl OutOfFuel
      \<and> 2 * length (skip_ws (tl (skip_ws r))) + 2 \<le> n"
    if "scanstring (tl s) = Inr (k, r)" "skip_ws r \<noteq> []" for k r
  proof -
    have "2 * length (skip_ws (tl (skip_ws r))) + 2 \<le> n"
      using scanstring_shorter [OF that(1)] skip_ws_tl_less [OF that(2)]
        skip_ws_le [of "tl (skip_ws r)"] n by simp
    then show ?thesis using vals [of "skip_ws (tl (skip_ws r))" depth] by simp
  qed
  have mem: "scan_members opts n depth (skip_ws (tl (skip_ws r'))) \<noteq> Inl OutOfFuel"
    if "scanstring (tl s) = Inr (k, r)" "skip_ws r \<noteq> []" "skip_ws r' \<noteq> []"
      "scan_value opts n depth (skip_ws (tl (skip_ws r))) = Inr (v, r')" for k r v r'
  proof (rule members)
    show "2 * length (skip_ws (tl (skip_ws r'))) + 2 \<le> n"
      using scan_shorter(1) [OF that(4)] val [OF that(1,2)] skip_ws_tl_less [OF that(3)]
        skip_ws_le [of "tl (skip_ws r')"] by linarith
  qed
  show ?thesis
  proof
    assume "scan_members opts (Suc n) depth s = Inl OutOfFuel"
    then consider "scanstring (tl s) = Inl OutOfFuel"
      | k r where "scanstring (tl s) = Inr (k, r)" "skip_ws r \<noteq> []"
          "scan_value opts n depth (skip_ws (tl (skip_ws r))) = Inl OutOfFuel"
      | k r v r' where "scanstring (tl s) = Inr (k, r)" "skip_ws r \<noteq> []" "skip_ws r' \<noteq> []"
          "scan_value opts n depth (skip_ws (tl (skip_ws r))) = Inr (v, r')"
          "scan_members opts n depth (skip_ws (tl (skip_ws r'))) = Inl OutOfFuel"
      by (auto simp: rbind_eq_Inl_iff Let_def split: if_splits)
    then show False using val mem scanstring_fuel by cases blast+
  qed
qed

lemma scan_fuel_enough:
  assumes "total_opts opts"
  shows "2 * length s + 1 \<le> n \<Longrightarrow> scan_value opts n d s \<noteq> Inl OutOfFuel"
    "2 * length s + 2 \<le> n \<Longrightarrow> scan_elems opts n d s \<noteq> Inl OutOfFuel"
    "2 * length s + 2 \<le> n \<Longrightarrow> scan_members opts n d s \<noteq> Inl OutOfFuel"
proof (induction n arbitrary: d s)
  case (Suc n)
  { case 1 show ?case by (rule scan_value_fuel_step [OF assms Suc(2,3) 1]) }
  { case 2 show ?case by (rule scan_elems_fuel_step [OF Suc(2,1) 2]) }
  { case 3 show ?case by (rule scan_members_fuel_step [OF Suc(3,1) 3]) }
qed simp_all

lemma json_loads_not_out_of_fuel:
  assumes "total_opts opts"
  shows "json_loads opts depth s \<noteq> Inl OutOfFuel"
proof -
  have "scan_value opts (scan_fuel s) depth (skip_ws s) \<noteq> Inl OutOfFuel"
    using assms skip_ws_le [of s] by (intro scan_fuel_enough) (simp_all add: scan_fuel_def)
  then show ?thesis by (auto simp: json_loads_def rbind_eq_Inl_iff)
qed

section \<open>Errors\<close>

text \<open>The exceptions a reader can raise, besides those of its hooks.\<close>

definition foreign :: "exn \<Rightarrow> bool" where
  "foreign e \<longleftrightarrow> \<not> isa_ValueError e \<and> e \<noteq> RecursionError \<and> e \<noteq> OutOfFuel"

lemma foreign_neq: "foreign e \<Longrightarrow> e \<noteq> JSONDecodeError \<and> e \<noteq> RecursionError \<and> e \<noteq> OutOfFuel \<and> e \<noteq> ValueError m"
  by (auto simp: foreign_def)

lemma on_fst_eq_Inl_iff: "on_fst f m = Inl e \<longleftrightarrow> m = Inl e"
  by (cases m) (auto simp: on_fst_def)

lemma scanstring_foreign: "foreign e \<Longrightarrow> scanstring s \<noteq> Inl e"
proof (induction s rule: scanstring.induct)
  case (1 s)
  then show ?case
    by (subst scanstring.simps) (auto simp: on_fst_eq_Inl_iff dest: foreign_neq split: list.splits option.splits)
qed

lemma scan_number_foreign: "foreign e \<Longrightarrow> scan_number fc s \<noteq> Inl e"
  by (auto simp: scan_number_def Let_def dest: foreign_neq split: option.splits prod.splits if_splits)

lemma scan_foreign:
  assumes e: "foreign e" and hooks: "\<And>ps. hook opts ps \<noteq> Inl e" "\<And>f. constants opts f \<noteq> Inl e"
  shows "scan_value opts n d s \<noteq> Inl e" "scan_elems opts n d s \<noteq> Inl e" "scan_members opts n d s \<noteq> Inl e"
proof (induction n arbitrary: d s)
  case 0
  { case 1 show ?case using foreign_neq [OF e] by auto }
  { case 2 show ?case using foreign_neq [OF e] by auto }
  { case 3 show ?case using foreign_neq [OF e] by auto }
next
  case (Suc n)
  note own = foreign_neq [OF e] scanstring_foreign [OF e] scan_number_foreign [OF e]
  { case 1
    show ?case
    proof (cases s)
      case (Cons c t)
      then show ?thesis using own hooks Suc(2,3)
        by (auto simp: rbind_eq_Inl_iff on_fst_eq_Inl_iff Let_def split: nat.split)
    qed (use own in auto) }
  { case 2 
    show ?case using own Suc(1,2) by (auto simp: rbind_eq_Inl_iff on_fst_eq_Inl_iff Let_def) }
  { case 3
    show ?case using own Suc(1,3) by (auto simp: rbind_eq_Inl_iff on_fst_eq_Inl_iff Let_def) }
qed

lemma json_loads_error:
  assumes "json_loads opts depth s = Inl e" "total_opts opts"
    and "\<And>ps e. hook opts ps = Inl e \<Longrightarrow> isa_ValueError e" "\<And>f e. constants opts f = Inl e \<Longrightarrow> isa_ValueError e"
  shows "isa_ValueError e \<or> e = RecursionError"
proof (rule ccontr)
  assume not: "\<not> ?thesis"
  moreover have "e \<noteq> OutOfFuel" using json_loads_not_out_of_fuel assms(1,2) by blast
  ultimately have f: "foreign e" by (simp add: foreign_def)
  have "scan_value opts (scan_fuel s) depth (skip_ws s) \<noteq> Inl e"
    using assms(3,4) not by (intro scan_foreign [OF f]) blast+
  then show False
    using assms(1) foreign_neq [OF f] by (auto simp: json_loads_def rbind_eq_Inl_iff split: if_splits)
qed
end
