(* ===== verification/Py_Json_Roundtrip.thy ===== *)
theory Py_Json_Roundtrip
  imports Py_Json
begin

text \<open>
  Reading what \<open>json.dumps\<close> wrote gives the value back: per character for strings, per digit
  for integers, by structural induction for lists and dictionaries, in every style of white space.
  The last section lifts it to response bodies (UTF-8 bytes) and makes the pair an instance of
  \<open>codec\<close>.
\<close>

section \<open>What was written is read back\<close>

text \<open>
  Values made of \<open>None\<close>, booleans, integers of at most 4300 digits, strings of Unicode scalar
  values, lists, and dictionaries with distinct string keys. A float's text depends on the C
  library, and a lone surrogate next to another one is not kept apart by the escapes.
\<close>

fun json_plain :: "pyval \<Rightarrow> bool" where
  "json_plain PNone = True"
| "json_plain (PBool _) = True"
| "json_plain (PInt i) = (length (show_nat (nat \<bar>i\<bar>)) \<le> 4300)"
| "json_plain (PFloat _) = False"
| "json_plain (PStr s) = list_all is_scalar s"
| "json_plain (PList xs) = list_all json_plain xs"
| "json_plain (PDict d) =
     (distinct (map fst d)
      \<and> list_all (\<lambda>(k, v). (case k of KStr s \<Rightarrow> list_all is_scalar s | _ \<Rightarrow> False) \<and> json_plain v) d)"

fun json_depth :: "pyval \<Rightarrow> nat" where
  "json_depth (PList xs) = Suc (foldr max (map json_depth xs) 0)"
| "json_depth (PDict d) = Suc (foldr max (map (\<lambda>(k, v). json_depth v) d) 0)"
| "json_depth _ = 0"

lemma hex4_digits:
  assumes "a < 16" "b < 16" "c < 16" "d < 16"
  shows "hex4 (hex_digit a # hex_digit b # hex_digit c # hex_digit d # t)
    = Some (((a * 16 + b) * 16 + c) * 16 + d)"
  using assms by (simp add: hex4_def is_hex_hex_digit hex_val_hex_digit algebra_simps)

lemma nibbles_of: "u < 65536 \<Longrightarrow>
  ((u div 4096 mod 16 * 16 + u div 256 mod 16) * 16 + u div 16 mod 16) * 16 + u mod 16 = (u :: nat)"
proof -
  assume u: "u < 65536"
  have "u div 256 = u div 16 div 16" "u div 4096 = u div 256 div 16"
    by (simp_all add: div_mult2_eq [symmetric])
  then have e: "u div 4096 * 16 + u div 256 mod 16 = u div 256"
    "u div 256 * 16 + u div 16 mod 16 = u div 16" "u div 16 * 16 + u mod 16 = u" by simp_all
  have "u div 4096 mod 16 = u div 4096" using u by (simp add: less_mult_imp_div_less)
  then show ?thesis by (simp only: e)
qed

lemma uescape_split:
  obtains H where "uescape u = 92 # 117 # H" "length H = 4"
    "\<forall>t. u < 65536 \<longrightarrow> hex4 (H @ t) = Some u"
proof
  let ?H = "[hex_digit (u div 4096 mod 16), hex_digit (u div 256 mod 16),
      hex_digit (u div 16 mod 16), hex_digit (u mod 16)]"
  have m: "x mod 16 < 16" for x :: nat by simp
  show "uescape u = 92 # 117 # ?H" "length ?H = 4" by (simp_all add: uescape_def)
  show "\<forall>t. u < 65536 \<longrightarrow> hex4 (?H @ t) = Some u"
    unfolding append.simps hex4_digits [OF m m m m] using nibbles_of by (simp only: simp_thms) blast
qed

lemma scanstring_u:
  assumes "length H = 4" "hex4 (H @ t) = Some u" "\<not> is_high u"
  shows "scanstring (92 # 117 # H @ t) = on_fst ((#) u) (scanstring t)"
  using assms by (subst scanstring.simps) simp

lemma scanstring_uu:
  assumes "length H = 4" "length L = 4" "is_high h" "is_low l"
    and "hex4 (H @ 92 # 117 # L @ t) = Some h" "hex4 (L @ t) = Some l"
  shows "scanstring (92 # 117 # H @ 92 # 117 # L @ t)
    = on_fst ((#) (join_surrogates h l)) (scanstring t)"
  using assms by (subst scanstring.simps) simp

lemma scanstring_uescape:
  assumes "u < 65536" "\<not> is_high u"
  shows "scanstring (uescape u @ t) = on_fst ((#) u) (scanstring t)"
proof -
  obtain H where H: "uescape u = 92 # 117 # H" "length H = 4"
    "\<forall>t. u < 65536 \<longrightarrow> hex4 (H @ t) = Some u" by (rule uescape_split [of u])
  show ?thesis using scanstring_u [OF H(2) _ assms(2)] H(1,3) assms(1) by simp
qed

lemma scanstring_surrogates:
  assumes "is_high h" "is_low l"
  shows "scanstring (uescape h @ uescape l @ t) = on_fst ((#) (join_surrogates h l)) (scanstring t)"
proof -
  have b: "h < 65536" "l < 65536" using assms by (auto simp: is_high_def is_low_def)
  obtain H where H: "uescape h = 92 # 117 # H" "length H = 4"
    "\<forall>t. h < 65536 \<longrightarrow> hex4 (H @ t) = Some h" by (rule uescape_split [of h])
  obtain L where L: "uescape l = 92 # 117 # L" "length L = 4"
    "\<forall>t. l < 65536 \<longrightarrow> hex4 (L @ t) = Some l" by (rule uescape_split [of l])
  show ?thesis
    using scanstring_uu [OF H(2) L(2) assms] H(1,3) L(1,3) b by simp
qed

lemma surrogate_parts:
  assumes "65536 \<le> c" "c < 1114112"
  shows "is_high (55296 + (c - 65536) div 1024)" "is_low (56320 + (c - 65536) mod 1024)"
    "join_surrogates (55296 + (c - 65536) div 1024) (56320 + (c - 65536) mod 1024) = c"
proof -
  have "(c - 65536) div 1024 < 1024" using assms by (intro less_mult_imp_div_less) simp
  then show "is_high (55296 + (c - 65536) div 1024)" by (simp add: is_high_def)
  show "is_low (56320 + (c - 65536) mod 1024)"
    using mod_less_divisor [of 1024 "c - 65536"] by (simp add: is_low_def)
  have "(c - 65536) div 1024 * 1024 + (c - 65536) mod 1024 = c - 65536" by simp
  then show "join_surrogates (55296 + (c - 65536) div 1024) (56320 + (c - 65536) mod 1024) = c"
    using assms by (simp add: join_surrogates_def)
qed

lemma scanstring_escape_char:
  assumes "is_scalar c"
  shows "scanstring (escape_char c @ t) = on_fst ((#) c) (scanstring t)"
proof -
  have high: "\<not> is_high c" using assms by (auto simp: is_scalar_def is_surrogate_def is_high_def)
  consider (named) "c \<in> {34, 92, 10, 13, 9, 12, 8}"
    | (plain) "c \<notin> {34, 92, 10, 13, 9, 12, 8}" "32 \<le> c" "c < 127"
    | (bmp) "c \<notin> {34, 92, 10, 13, 9, 12, 8}" "\<not> (32 \<le> c \<and> c < 127)" "c < 65536"
    | (astral) "65536 \<le> c" by force
  then show ?thesis
  proof cases
    case named
    then show ?thesis
      by (auto simp: escape_char_def scanstring.simps [of "92 # _ # _"] simple_escape_def)
  next
    case plain
    then show ?thesis by (simp add: escape_char_def scanstring.simps [of "c # t"])
  next
    case bmp
    then have "escape_char c = uescape c" by (auto simp: escape_char_def)
    then show ?thesis using scanstring_uescape [OF bmp(3) high] by simp
  next
    case astral
    then have "escape_char c
        = uescape (55296 + (c - 65536) div 1024) @ uescape (56320 + (c - 65536) mod 1024)"
      by (simp add: escape_char_def)
    then show ?thesis using assms astral surrogate_parts [OF astral] scanstring_surrogates
      by (simp add: is_scalar_def)
  qed
qed

lemma scanstring_quoted:
  "list_all is_scalar s \<Longrightarrow> scanstring (concat (map escape_char s) @ 34 # t) = Inr (s, t)"
proof (induction s)
  case Nil
  then show ?case by (simp add: scanstring.simps [of "34 # t"])
next
  case (Cons c s)
  then show ?case by (simp add: scanstring_escape_char)
qed


definition value_end :: "pystr \<Rightarrow> bool" where
  "value_end r \<longleftrightarrow> r = [] \<or> hd r = 10 \<or> hd r = 44 \<or> hd r = 93 \<or> hd r = 125"

lemma value_end_stops:
  "value_end r \<Longrightarrow> takeWhile is_digit r = [] \<and> dropWhile is_digit r = r
     \<and> scan_frac r = ([], r) \<and> scan_exp r = ([], r)"
  by (cases r) (auto simp: value_end_def is_digit_def scan_frac_def scan_exp_def)

lemma scan_int_show_nat:
  assumes "value_end r"
  shows "scan_int (show_nat n @ r) = Some (show_nat n, r)"
    and "scan_int (45 # show_nat n @ r) = Some (45 # show_nat n, r)"
proof -
  obtain c t where n: "show_nat n = c # t" using show_nat_digits [of n] by (cases "show_nat n") auto
  have d: "is_digit c" "list_all is_digit t" using show_nat_digits [of n] n by auto
  have z: "t = []" if "c = 48" using show_nat_head [of n] show_nat_zero n that by simp
  have w: "takeWhile is_digit (t @ r) = t" "dropWhile is_digit (t @ r) = r"
    using d(2) value_end_stops [OF assms] by (simp_all add: list_all_iff)
  have "c \<noteq> 45" using d(1) by (auto simp: is_digit_def)
  then show "scan_int (show_nat n @ r) = Some (show_nat n, r)"
    and "scan_int (45 # show_nat n @ r) = Some (45 # show_nat n, r)"
    using n d(1) z w by (auto simp: scan_int_def)
qed

lemma int_of_text_show_int: "int_of_text (show_int i) = i"
proof -
  have "show_nat n \<noteq> [] \<and> hd (show_nat n) \<noteq> 45" for n
    using show_nat_digits [of n] by (cases "show_nat n") (auto simp: is_digit_def)
  then show ?thesis by (auto simp: int_of_text_def show_int_def)
qed

lemma scan_number_show_int:
  assumes "value_end r" "length (show_nat (nat \<bar>i\<bar>)) \<le> 4300"
  shows "scan_number fc (show_int i @ r) = Inr (PInt i, r)"
proof -
  have "scan_int (show_int i @ r) = Some (show_int i, r)"
    using scan_int_show_nat [OF assms(1)] by (simp add: show_int_def)
  moreover have "length (filter is_digit (show_int i)) \<le> 4300"
  proof -
    have "filter is_digit (show_int i) = show_nat (nat \<bar>i\<bar>)"
      using show_nat_digits by (auto simp: show_int_def is_digit_def list_all_iff)
    then show ?thesis using assms(2) by simp
  qed
  ultimately show ?thesis
    using value_end_stops [OF assms(1)] int_of_text_show_int [of i]
    by (simp add: scan_number_def Let_def)
qed

lemma show_int_start:
  obtains c t where "show_int i = c # t" "c = 45 \<or> is_digit c" "c = 45 \<longrightarrow> t \<noteq> [] \<and> is_digit (hd t)"
proof -
  have d: "show_nat n \<noteq> [] \<and> is_digit (hd (show_nat n))" for n
    using show_nat_digits [of n] by (cases "show_nat n") auto
  then have "\<exists>c t. show_int i = c # t \<and> (c = 45 \<or> is_digit c) \<and> (c = 45 \<longrightarrow> t \<noteq> [] \<and> is_digit (hd t))"
    using d [of "nat i"] by (cases "show_nat (nat i)") (auto simp: show_int_def is_digit_def)
  then show ?thesis using that by blast
qed

lemma starts_with_Cons: "starts_with (a # p) (c # s) \<longleftrightarrow> a = c \<and> starts_with p s"
  by (auto simp: starts_with_def)

lemma scan_value_int:
  assumes "value_end r" "length (show_nat (nat \<bar>i\<bar>)) \<le> 4300"
  shows "scan_value opts (Suc n) d (show_int i @ r) = Inr (PInt i, r)"
proof -
  obtain c t where c: "show_int i = c # t" "c = 45 \<or> is_digit c" "c = 45 \<longrightarrow> t \<noteq> [] \<and> is_digit (hd t)"
    by (rule show_int_start)
  have "c \<noteq> 34" "c \<noteq> 123" "c \<noteq> 91" "c \<noteq> 110" "c \<noteq> 116" "c \<noteq> 102" "c \<noteq> 78" "c \<noteq> 73"
    using c(2) by (auto simp: is_digit_def)
  moreover have "\<not> starts_with (lit ''-Infinity'') (c # t @ r)"
    using c(3) by (cases t) (auto simp: starts_with_def lit_def is_digit_def)
  ultimately show ?thesis
    using scan_number_show_int [OF assms, of "fcodec opts"] c(1)
    by (auto simp: starts_with_Cons lit_Cons)
qed


lemma json_dumps_eq: "json_dumps fc = dumps_with fc (\<lambda>items. items)"
  by (rule ext) (simp add: json_dumps_def)

lemma dumps_head:
  "json_plain v \<Longrightarrow> \<exists>c t. json_dumps fc v = c # t \<and> \<not> is_json_ws c \<and> c \<noteq> 93 \<and> c \<noteq> 125 \<and> c < 128"
proof (cases v)
  case (PInt i)
  then show ?thesis
    by (auto simp: json_dumps_def is_digit_def is_json_ws_def intro: show_int_start [of i])
qed (auto simp: json_dumps_def quote_string_def lit_def is_json_ws_def)

lemma skip_ws_Cons: "\<not> is_json_ws c \<Longrightarrow> skip_ws (c # s) = c # s"
  by (simp add: skip_ws_def)

lemma not_ws [simp]: "\<not> is_json_ws 44" "\<not> is_json_ws 93" "\<not> is_json_ws 125" "\<not> is_json_ws 58" "\<not> is_json_ws 34"
  by (simp_all add: is_json_ws_def)

section \<open>Texts the reader takes for a value\<close>

text \<open>A text read as a value, in front of whatever may follow a value.\<close>

definition reads_as :: "json_opts \<Rightarrow> nat \<Rightarrow> pystr \<Rightarrow> pyval \<Rightarrow> bool" where
  "reads_as opts depth t v \<longleftrightarrow>
     t \<noteq> [] \<and> \<not> is_json_ws (hd t) \<and> hd t \<notin> {93, 125} \<and> hd t < 128
     \<and> (\<forall>n r. value_end r \<longrightarrow> 2 * length (t @ r) + 1 \<le> n \<longrightarrow> scan_value opts n depth (t @ r) = Inr (v, r))"

definition closing :: "pystr \<Rightarrow> bool" where
  "closing w \<longleftrightarrow> list_all is_json_ws w \<and> (w = [] \<or> hd w = 10)"

lemma skip_ws_blank: "list_all is_json_ws w \<Longrightarrow> skip_ws (w @ s) = skip_ws s"
  by (induction w) (auto simp: skip_ws_def)

lemma value_end_closing: "closing w \<Longrightarrow> c \<in> {93, 125} \<Longrightarrow> value_end (w @ c # r)"
  by (cases w) (auto simp: closing_def value_end_def)

lemma skip_ws_closing: "closing w \<Longrightarrow> c \<in> {93, 125} \<Longrightarrow> skip_ws (w @ c # r) = c # r"
  by (auto simp: closing_def skip_ws_blank skip_ws_Cons)

lemma reads_as_run:
  "reads_as opts depth t v \<Longrightarrow> value_end r \<Longrightarrow> 2 * length (t @ r) + 1 \<le> n \<Longrightarrow> scan_value opts n depth (t @ r) = Inr (v, r)"
  by (simp add: reads_as_def)

lemma reads_as_head: "reads_as opts depth t v \<Longrightarrow> \<exists>c s. t = c # s \<and> \<not> is_json_ws c \<and> c \<noteq> 93 \<and> c \<noteq> 125"
  by (cases t) (auto simp: reads_as_def)

lemma reads_asI:
  assumes "t = c # s" "\<not> is_json_ws c" "c \<notin> {93, 125}" "c < 128"
    and "\<And>m r. value_end r \<Longrightarrow> 2 * length (t @ r) \<le> m \<Longrightarrow> scan_value opts (Suc m) depth (t @ r) = Inr (v, r)"
  shows "reads_as opts depth t v"
  unfolding reads_as_def
proof (intro conjI allI impI)
  fix n r
  assume "value_end r" "2 * length (t @ r) + 1 \<le> n"
  then show "scan_value opts n depth (t @ r) = Inr (v, r)" using assms(5) by (cases n) simp_all
qed (use assms in auto)

text \<open>The texts of the members of a list or dictionary, separated by a comma and white space.\<close>

lemma join_head:
  assumes "list_all2 R ts xs" "xs \<noteq> []" and R: "\<And>t x. R t x \<Longrightarrow> \<exists>c s. t = c # s \<and> P c"
  shows "\<exists>c s. join sep ts = c # s \<and> P c"
proof -
  obtain t us x where ts: "ts = t # us" "R t x" using assms(1,2) by (cases ts; cases xs) auto
  have "\<exists>s. join sep ts = t @ s" unfolding ts(1) by (cases us) auto
  then show ?thesis using R [OF ts(2)] by fastforce
qed

lemma elems_head:
  "list_all2 (reads_as opts depth) ts xs \<Longrightarrow> xs \<noteq> [] \<Longrightarrow> \<exists>c s. join sep ts = c # s \<and> \<not> is_json_ws c \<and> c \<noteq> 93 \<and> c \<noteq> 125"
  by (erule join_head) (auto dest: reads_as_head)

lemma scan_elems_join:
  "list_all2 (reads_as opts depth) ts xs \<Longrightarrow> xs \<noteq> [] \<Longrightarrow> list_all is_json_ws sep \<Longrightarrow> closing cl \<Longrightarrow>
   2 * length (join (44 # sep) ts @ cl @ 93 # r) + 2 \<le> n \<Longrightarrow>
   scan_elems opts n depth (join (44 # sep) ts @ cl @ 93 # r) = Inr (xs, r)"
proof (induction arbitrary: n rule: list_all2_induct)
  case (Cons t ts x xs)
  obtain m where n: "n = Suc m" using Cons.prems(4) by (cases n) auto
  show ?case
  proof (cases ts)
    case Nil
    then have "scan_value opts m depth (t @ cl @ 93 # r) = Inr (x, cl @ 93 # r)"
      using Cons.prems(3,4) n by (intro reads_as_run [OF Cons.hyps(1)] value_end_closing) auto
    then show ?thesis using n Nil Cons.hyps(2) Cons.prems(3) by (simp add: skip_ws_closing)
  next
    case (Cons u us)
    let ?rest = "join (44 # sep) ts @ cl @ 93 # r"
    have xs: "xs \<noteq> []" using Cons Cons.hyps(2) by auto
    have "scan_value opts m depth (t @ 44 # sep @ ?rest) = Inr (x, 44 # sep @ ?rest)"
      using Cons.prems(4) n Cons by (intro reads_as_run [OF Cons.hyps(1)]) (simp_all add: value_end_def)
    moreover have "skip_ws ?rest = ?rest"
      using elems_head [OF Cons.hyps(2) xs, of "44 # sep"] by (auto simp: skip_ws_Cons)
    moreover have "scan_elems opts m depth ?rest = Inr (xs, r)"
      using Cons.prems n Cons xs by (intro Cons.IH) simp_all
    ultimately show ?thesis using n Cons Cons.prems(2) by (simp add: skip_ws_Cons skip_ws_blank)
  qed
qed simp

definition keeps_pairs :: "json_opts \<Rightarrow> bool" where
  "keeps_pairs opts \<longleftrightarrow>
     (\<forall>ps. distinct (map fst ps) \<longrightarrow> hook opts ps = Inr (map (\<lambda>(k, v). (KStr k, v)) ps))"

definition member_reads :: "json_opts \<Rightarrow> nat \<Rightarrow> pystr \<Rightarrow> pystr \<Rightarrow> pystr \<times> pyval \<Rightarrow> bool" where
  "member_reads opts depth colon m p \<longleftrightarrow>
     list_all is_scalar (fst p) \<and> (\<exists>t. m = quote_string (fst p) @ 58 # colon @ t \<and> reads_as opts depth t (snd p))"

lemma scan_members_one:
  assumes m: "member_reads opts depth colon t (k, v)" and colon: "list_all is_json_ws colon"
    and r: "value_end r" and len: "2 * length (t @ r) + 2 \<le> Suc n"
  shows "scan_members opts (Suc n) depth (t @ r) =
    (let w = skip_ws r in
     if w = [] then Inl JSONDecodeError
     else if hd w = 125 then Inr ([(k, v)], tl w)
     else if hd w = 44 then on_fst ((#) (k, v)) (scan_members opts n depth (skip_ws (tl w)))
     else Inl JSONDecodeError)"
proof -
  obtain u where k: "list_all is_scalar k" and t: "t = quote_string k @ 58 # colon @ u" and u: "reads_as opts depth u v"
    using m by (auto simp: member_reads_def)
  have "scan_value opts n depth (u @ r) = Inr (v, r)"
    using len t by (intro reads_as_run [OF u r]) (simp add: quote_string_def)
  moreover have "skip_ws (colon @ u @ r) = u @ r"
    using reads_as_head [OF u] by (auto simp: skip_ws_blank [OF colon] skip_ws_Cons)
  moreover have "t @ r = 34 # concat (map escape_char k) @ 34 # 58 # colon @ u @ r" by (simp add: t quote_string_def)
  ultimately show ?thesis using scanstring_quoted [OF k] by (simp add: skip_ws_Cons)
qed

lemma members_head:
  "list_all2 (member_reads opts depth colon) ts ps \<Longrightarrow> ps \<noteq> [] \<Longrightarrow> \<exists>c s. join sep ts = c # s \<and> c = 34"
  by (erule join_head) (auto simp: member_reads_def quote_string_def)

lemma scan_members_join:
  "list_all2 (member_reads opts depth colon) ts ps \<Longrightarrow> ps \<noteq> [] \<Longrightarrow> list_all is_json_ws colon \<Longrightarrow>
   list_all is_json_ws sep \<Longrightarrow> closing cl \<Longrightarrow> 2 * length (join (44 # sep) ts @ cl @ 125 # r) + 2 \<le> n \<Longrightarrow>
   scan_members opts n depth (join (44 # sep) ts @ cl @ 125 # r) = Inr (ps, r)"
proof (induction arbitrary: n rule: list_all2_induct)
  case (Cons t ts p ps)
  obtain k v where p: "p = (k, v)" by (cases p)
  obtain m where n: "n = Suc m" using Cons.prems(5) by (cases n) auto
  note one = scan_members_one [OF Cons.hyps(1) [unfolded p] Cons.prems(2)]
  show ?case
  proof (cases ts)
    case Nil
    then show ?thesis
      using one [of "cl @ 125 # r" m] n p Cons.hyps(2) Cons.prems(4,5)
      by (simp add: value_end_closing skip_ws_closing del: scan_members.simps)
  next
    case (Cons u us)
    let ?rest = "join (44 # sep) ts @ cl @ 125 # r"
    have ps: "ps \<noteq> []" using Cons Cons.hyps(2) by auto
    have "skip_ws ?rest = ?rest"
      using members_head [OF Cons.hyps(2) ps, of "44 # sep"] by (auto simp: skip_ws_Cons)
    moreover have "scan_members opts m depth ?rest = Inr (ps, r)"
      using Cons.prems n Cons ps by (intro Cons.IH) simp_all
    ultimately show ?thesis
      using one [of "44 # sep @ ?rest" m] n p Cons Cons.prems(3,5)
      by (simp add: value_end_def skip_ws_Cons skip_ws_blank del: scan_members.simps)
  qed
qed simp

lemma list_reads_as:
  assumes ts: "list_all2 (reads_as opts depth) ts xs" and xs: "xs \<noteq> []"
    and ws: "list_all is_json_ws op" "list_all is_json_ws sep" "closing cl"
  shows "reads_as opts (Suc depth) (91 # op @ join (44 # sep) ts @ cl @ [93]) (PList xs)"
proof (rule reads_asI [OF refl])
  fix m r
  assume r: "value_end r" and m: "2 * length ((91 # op @ join (44 # sep) ts @ cl @ [93]) @ r) \<le> m"
  let ?t = "join (44 # sep) ts @ cl @ 93 # r"
  have "skip_ws (op @ ?t) = ?t \<and> ?t \<noteq> [] \<and> hd ?t \<noteq> 93"
    using elems_head [OF ts xs, of "44 # sep"] by (auto simp: skip_ws_blank [OF ws(1)] skip_ws_Cons)
  moreover have "scan_elems opts m depth ?t = Inr (xs, r)" using m by (intro scan_elems_join [OF ts xs ws(2,3)]) simp
  ultimately show "scan_value opts (Suc m) (Suc depth) ((91 # op @ join (44 # sep) ts @ cl @ [93]) @ r) = Inr (PList xs, r)"
    by (simp add: Let_def)
qed (simp_all add: is_json_ws_def)

lemma dict_reads_as:
  assumes ts: "list_all2 (member_reads opts depth colon) ts ps" and ps: "ps \<noteq> []" and d: "hook opts ps = Inr d"
    and ws: "list_all is_json_ws op" "list_all is_json_ws colon" "list_all is_json_ws sep" "closing cl"
  shows "reads_as opts (Suc depth) (123 # op @ join (44 # sep) ts @ cl @ [125]) (PDict d)"
proof (rule reads_asI [OF refl])
  fix m r
  assume r: "value_end r" and m: "2 * length ((123 # op @ join (44 # sep) ts @ cl @ [125]) @ r) \<le> m"
  let ?t = "join (44 # sep) ts @ cl @ 125 # r"
  have "skip_ws (op @ ?t) = ?t \<and> ?t \<noteq> [] \<and> hd ?t \<noteq> 125"
    using members_head [OF ts ps, of "44 # sep"] by (auto simp: skip_ws_blank [OF ws(1)] skip_ws_Cons)
  moreover have "scan_members opts m depth ?t = Inr (ps, r)" using m by (intro scan_members_join [OF ts ps ws(2,3,4)]) simp
  ultimately show "scan_value opts (Suc m) (Suc depth) ((123 # op @ join (44 # sep) ts @ cl @ [125]) @ r) = Inr (PDict d, r)"
    using d by (simp add: Let_def)
qed (simp_all add: is_json_ws_def)

lemma json_depth_elem: "x \<in> set xs \<Longrightarrow> json_depth x \<le> foldr max (map json_depth xs) 0"
  by (induction xs) auto

lemma json_depth_item: "(k, v) \<in> set d \<Longrightarrow> json_depth v \<le> foldr max (map (\<lambda>(k, v). json_depth v) d) 0"
  by (induction d) auto

fun str_key :: "pykey \<Rightarrow> pystr" where
  "str_key (KStr s) = s"
| "str_key _ = []"

lemma dict_pairs:
  assumes "json_plain (PDict d)"
  obtains ps where "d = map (\<lambda>(k, v). (KStr k, v)) ps" "distinct (map fst ps)"
    "list_all (\<lambda>(k, v). list_all is_scalar k \<and> json_plain v) ps"
proof
  let ?ps = "map (\<lambda>(k, v). (str_key k, v)) d"
  have keys: "\<exists>s. k = KStr s" if "(k, v) \<in> set d" for k v
    using assms that by (cases k) (auto simp: list_all_iff)
  show d: "d = map (\<lambda>(k, v). (KStr k, v)) ?ps"
  proof -
    have "(\<lambda>(k, v). (KStr k, v)) ((\<lambda>(k, v). (str_key k, v)) p) = p" if "p \<in> set d" for p
      using keys [of "fst p" "snd p"] that by (cases p) auto
    then show ?thesis by (simp add: map_idI)
  qed
  show "distinct (map fst ?ps)"
  proof -
    have "inj_on str_key (set (map fst d))" using keys by (auto intro!: inj_onI dest!: keys)
    moreover have "distinct (map fst d)"
      using assms unfolding json_plain.simps by (rule conjunct1)
    ultimately have "distinct (map str_key (map fst d))"
      unfolding distinct_map [of str_key] by blast
    then show ?thesis by (simp add: comp_def split_def)
  qed
  show "list_all (\<lambda>(k, v). list_all is_scalar k \<and> json_plain v) ?ps"
    using assms keys by (fastforce simp: list_all_iff)
qed

section \<open>Styles of writing\<close>

definition white_style :: "json_style \<Rightarrow> bool" where
  "white_style st \<longleftrightarrow>
     (\<forall>n. list_all is_json_ws (st_open st n) \<and> list_all is_json_ws (st_item st n) \<and> closing (st_close st n))
     \<and> list_all is_json_ws (st_colon st)"

lemma white_styles: "white_style COMPACT" "white_style SPACED" "white_style INDENTED"
  by (simp_all add: white_style_def COMPACT_def SPACED_def INDENTED_def line_indent_def closing_def is_json_ws_def list_all_iff)

lemma dumps_style_reads:
  assumes keeps: "keeps_pairs opts" and st: "white_style st"
  shows "json_plain v \<Longrightarrow> json_depth v \<le> depth \<Longrightarrow> reads_as opts depth (dumps_style fc st level v) v"
proof (induction v arbitrary: depth level)
  case (PList xs)
  then obtain e where e: "depth = Suc e" by (cases depth) auto
  have "list_all2 (reads_as opts e) (map (dumps_style fc st (Suc level)) xs) xs"
    using PList e by (auto simp: list_all2_conv_all_nth list_all_iff intro!: PList.IH order.trans [OF json_depth_elem])
  moreover have "reads_as opts (Suc e) [91, 93] (PList [])"
    by (rule reads_asI [OF refl]) (simp_all add: is_json_ws_def skip_ws_Cons)
  ultimately show ?case
    using e st by (cases xs) (auto simp: white_style_def intro!: list_reads_as simp del: list_all2_Cons join.simps list.map)
next
  case (PDict d)
  then obtain e where e: "depth = Suc e" by (cases depth) auto
  obtain ps where d: "d = map (\<lambda>(k, v). (KStr k, v)) ps" and dist: "distinct (map fst ps)"
    and ps: "list_all (\<lambda>(k, v). list_all is_scalar k \<and> json_plain v) ps"
    using PDict.prems(1) by (rule dict_pairs)
  let ?text = "\<lambda>(k, v). quote_string k @ 58 # st_colon st @ dumps_style fc st (Suc level) v"
  have "member_reads opts e (st_colon st) (?text (k, v)) (k, v)" if "(k, v) \<in> set ps" for k v
  proof -
    have mem: "(KStr k, v) \<in> set d" using that d by force
    have "reads_as opts e (dumps_style fc st (Suc level) v) v"
    proof (rule PDict.IH [OF mem])
      show "v \<in> Basic_BNFs.snds (KStr k, v)" by simp
      show "json_plain v" using ps that by (auto simp: list_all_iff)
      show "json_depth v \<le> e" using PDict.prems(2) json_depth_item [OF mem] e by simp
    qed
    then show ?thesis using ps that by (auto simp: member_reads_def list_all_iff)
  qed
  then have texts: "list_all2 (member_reads opts e (st_colon st)) (map ?text ps) ps"
    by (auto simp: list_all2_conv_all_nth split: prod.split) (metis nth_mem)
  have hk: "hook opts ps = Inr d" using keeps dist d by (simp add: keeps_pairs_def)
  have shown: "dumps_style fc st level (PDict d) = 
      (if ps = [] then [123, 125]
       else 123 # st_open st (Suc level) @ join (44 # st_item st (Suc level)) (map ?text ps) @ st_close st level @ [125])"
    by (simp add: d comp_def case_prod_unfold)
  have "reads_as opts (Suc e) [123, 125] (PDict d)" if "ps = []"
    using hk that by (intro reads_asI [OF refl]) (simp_all add: is_json_ws_def skip_ws_Cons)
  then show ?case
    using dict_reads_as [OF texts _ hk] e st unfolding shown by (auto simp: white_style_def)
next
  case (PStr s)
  then show ?case
    by (intro reads_asI [where c = 34]) (simp_all add: quote_string_def scanstring_quoted is_json_ws_def)
next
  case (PInt i)
  obtain c t where c: "show_int i = c # t" "c = 45 \<or> is_digit c" by (rule show_int_start)
  have "scan_value opts (Suc m) depth (show_int i @ r) = Inr (PInt i, r)" if "value_end r" for m r
    using PInt.prems that by (simp add: scan_value_int del: scan_value.simps)
  then show ?case using c(2) by (intro reads_asI [of _ c t]) (auto simp: c(1) is_digit_def is_json_ws_def simp del: scan_value.simps)
qed (auto simp: starts_with_def lit_def is_json_ws_def intro!: reads_asI)

text \<open>The separators \<open>(",", ":")\<close> are a style too.\<close>

lemma dumps_compact: "dumps_style fc COMPACT level v = json_dumps fc v"
proof (induction v arbitrary: level)
  case (PList xs)
  then show ?case by (simp add: json_dumps_eq COMPACT_def cong: map_cong)
next
  case (PDict d)
  have same: "map (\<lambda>(k, v). quote_string (key_text fc k) @ 58 # st_colon COMPACT @ dumps_style fc COMPACT (Suc level) v) d
      = map (\<lambda>(k, t). quote_string k @ [58] @ t) (map (\<lambda>(k, v). (key_text fc k, json_dumps fc v)) d)"
    using PDict by (fastforce simp: COMPACT_def)
  show ?case unfolding dumps_style.simps same json_dumps_eq dumps_with.simps by (simp add: COMPACT_def del: map_map)
qed (simp_all add: json_dumps_eq)

text \<open>Reading what \<open>json.dumps\<close> wrote, as it is or as a line, gives the value back.\<close>

lemma json_loads_style:
  assumes "keeps_pairs opts" "white_style st" "json_plain v" "json_depth v \<le> depth" and r: "r = [] \<or> r = [10]"
  shows "json_loads opts depth (dumps_style fc st level v @ r) = Inr v"
proof -
  have reads: "reads_as opts depth (dumps_style fc st level v) v" by (rule dumps_style_reads [OF assms(1-4)])
  obtain c t where c: "dumps_style fc st level v = c # t" "\<not> is_json_ws c" "c < 128"
    using reads by (cases "dumps_style fc st level v") (auto simp: reads_as_def)
  have "value_end r" using r by (auto simp: value_end_def)
  then have "scan_value opts (scan_fuel (dumps_style fc st level v @ r)) depth (dumps_style fc st level v @ r) = Inr (v, r)"
    by (intro reads_as_run [OF reads]) (simp_all add: scan_fuel_def)
  moreover have "skip_ws r = []" using r by (auto simp: skip_ws_def is_json_ws_def)
  ultimately show ?thesis
    using c by (simp add: json_loads_def skip_ws_Cons del: scan_value.simps)
qed

lemma json_loads_dumps_ws:
  assumes "keeps_pairs opts" "json_plain v" "json_depth v \<le> depth" and r: "r = [] \<or> r = [10]"
  shows "json_loads opts depth (json_dumps fc v @ r) = Inr v"
  using json_loads_style [OF assms(1) white_styles(1) assms(2-4)] by (simp add: dumps_compact)

lemmas json_loads_dumps = json_loads_dumps_ws [where r = "[]", simplified]
lemmas json_loads_line = json_loads_dumps_ws [where r = "[10]", simplified]

section \<open>Response bodies\<close>

lemma uescape_ascii: "list_all (\<lambda>b. 0 < b \<and> b < 128) (uescape u)"
proof -
  have "0 < hex_digit n \<and> hex_digit n < 128" if "n < 16" for n
    using that by (simp add: hex_digit_def)
  then show ?thesis by (simp add: uescape_def)
qed

lemma escape_char_ascii: "is_scalar c \<Longrightarrow> list_all (\<lambda>b. 0 < b \<and> b < 128) (escape_char c)"
  by (simp add: escape_char_def uescape_ascii)

lemma quote_string_ascii: "list_all is_scalar s \<Longrightarrow> list_all (\<lambda>b. 0 < b \<and> b < 128) (quote_string s)"
  unfolding quote_string_def by (induction s) (auto simp: escape_char_ascii)

lemma show_int_ascii: "list_all (\<lambda>b. 0 < b \<and> b < 128) (show_int i)"
proof -
  have "list_all (\<lambda>b. 0 < b \<and> b < 128) (show_nat n)" for n
    using show_nat_digits [of n] by (auto simp: list_all_iff is_digit_def)
  then show ?thesis by (simp add: show_int_def)
qed

lemma join_all:
  "list_all P sep \<Longrightarrow> list_all (list_all P) xs \<Longrightarrow> list_all P (join sep xs)"
  by (induction sep xs rule: join.induct) auto

lemma dumps_style_ascii:
  assumes st: "white_style st"
  shows "json_plain v \<Longrightarrow> list_all (\<lambda>b. 0 < b \<and> b < 128) (dumps_style fc st level v)"
proof (induction v arbitrary: level)
  case (PList xs)
  have ws: "list_all (\<lambda>b. 0 < b \<and> b < 128) w" if "list_all is_json_ws w" for w
    using that by (auto simp: list_all_iff is_json_ws_def)
  have "list_all (list_all (\<lambda>b. 0 < b \<and> b < 128)) (map (dumps_style fc st (Suc level)) xs)"
    using PList by (auto simp: list_all_iff)
  then show ?case using st by (auto simp: white_style_def closing_def ws intro!: join_all)
next
  case (PDict d)
  have ws: "list_all (\<lambda>b. 0 < b \<and> b < 128) w" if "list_all is_json_ws w" for w
    using that by (auto simp: list_all_iff is_json_ws_def)
  have "list_all (\<lambda>b. 0 < b \<and> b < 128)
      (quote_string (key_text fc k) @ 58 # st_colon st @ dumps_style fc st (Suc level) v)" if "(k, v) \<in> set d" for k v
  proof -
    have "json_plain v" "case k of KStr s \<Rightarrow> list_all is_scalar s | _ \<Rightarrow> False"
      using PDict.prems that by (auto simp: list_all_iff)
    then show ?thesis
      using PDict.IH [OF that, of v "Suc level"] quote_string_ascii ws [of "st_colon st"] st
      by (cases k) (auto simp: white_style_def)
  qed
  then have "list_all (list_all (\<lambda>b. 0 < b \<and> b < 128))
      (map (\<lambda>(k, v). quote_string (key_text fc k) @ 58 # st_colon st @ dumps_style fc st (Suc level) v) d)"
    unfolding list_all_iff by fastforce
  then show ?case using st by (auto simp: white_style_def closing_def ws intro!: join_all)
qed (auto simp: quote_string_ascii show_int_ascii lit_def)

lemmas json_dumps_ascii = dumps_style_ascii [OF white_styles(1), unfolded dumps_compact]

lemma utf8_encode_ascii: "list_all (\<lambda>b. b < 128) s \<Longrightarrow> utf8_encode s = Inr (map char_of s)"
proof -
  assume s: "list_all (\<lambda>b. b < 128) s"
  then have "list_all is_scalar s" by (auto simp: list_all_iff is_scalar_def is_surrogate_def)
  moreover have "concat (map utf8_cp s) = s" using s by (induction s) (auto simp: utf8_cp_def)
  ultimately show ?thesis by (simp add: utf8_encode_def)
qed

lemma utf8_decode_json_body: "json_plain v \<Longrightarrow> utf8_decode (json_body fc v) = Inr (json_dumps fc v)"
proof -
  assume "json_plain v"
  then have "list_all (\<lambda>b. b < 128) (json_dumps fc v)"
    using json_dumps_ascii [of v fc] by (auto simp: list_all_iff)
  then show ?thesis using utf8.dec_enc [OF utf8_encode_ascii] by (simp add: json_body_def)
qed

text \<open>ASCII text without NUL is recognised as UTF-8.\<close>

lemma json_bytes_text_ascii:
  assumes "list_all (\<lambda>b. 0 < b \<and> b < 128) t"
  shows "json_bytes_text wide (map char_of t) = Inr t"
proof -
  have "map of_char (map char_of t :: bytes) = t" using assms by (induction t) auto
  moreover have "0 \<notin> set (take 2 t)" using assms by (auto simp: list_all_iff dest: in_set_takeD)
  moreover have "\<not> starts_with (x # p) t" if "128 \<le> x" for x p
    using assms that by (cases t) (auto simp: starts_with_Cons starts_with_def)
  ultimately have "looks_utf8 (map char_of t)"
    by (simp add: looks_utf8_def del: map_map)
  moreover have "utf8_decode (map char_of t) = Inr t"
    using assms by (intro utf8.dec_enc utf8_encode_ascii) (auto simp: list_all_iff)
  ultimately show ?thesis by (simp add: json_bytes_text_def)
qed

lemma plain_opts_keeps_pairs: "keeps_pairs (plain_opts fc)"
proof -
  have merge: "distinct (map fst ps) \<Longrightarrow> fst ` set d \<inter> KStr ` fst ` set ps = {} \<Longrightarrow>
    fold (\<lambda>(k, v) d. dset (KStr k) v d) ps d = d @ map (\<lambda>(k, v). (KStr k, v)) ps" for ps d
  proof (induction ps arbitrary: d)
    case (Cons p ps)
    obtain k v where p: "p = (k, v)" by (cases p)
    have "KStr k \<notin> fst ` set d" using Cons.prems(2) p by auto
    moreover have "fst ` set (d @ [(KStr k, v)]) \<inter> KStr ` fst ` set ps = {}" using Cons.prems p by auto
    ultimately show ?case using Cons.IH [of "d @ [(KStr k, v)]"] Cons.prems(1) p by (simp add: dset_new)
  qed simp
  show ?thesis by (simp add: keeps_pairs_def plain_opts_def plain_object_def merge)
qed

lemma unique_opts_keeps_pairs: "keeps_pairs (unique_opts fc e)"
  by (simp add: keeps_pairs_def unique_opts_def unique_object_eq)

lemma unique_opts_total: "e \<noteq> OutOfFuel \<Longrightarrow> total_opts (unique_opts fc e)"
  by (simp add: total_opts_def unique_opts_def unique_object_eq)

text \<open>The sender's side: only values that survive the wire are covered by the contract.\<close>

definition send_json :: "float_codec \<Rightarrow> nat \<Rightarrow> pyval \<Rightarrow> bytes res" where
  "send_json fc depth v =
     (if json_plain v \<and> json_depth v \<le> depth then Inr (json_body fc v) else Inl RecursionError)"

definition receive_json :: "float_codec \<Rightarrow> exn \<Rightarrow> nat \<Rightarrow> bytes \<Rightarrow> pyval res" where
  "receive_json fc e depth body = rbind (utf8_decode body) (json_loads (unique_opts fc e) depth)"

interpretation json_wire: codec "send_json fc depth" "receive_json fc e depth" for fc e depth
  by unfold_locales
    (auto simp: send_json_def receive_json_def utf8_decode_json_body
      json_loads_dumps unique_opts_keeps_pairs split: if_splits)

end
