(* ===== verification/Http_Service.thy ===== *)
theory Http_Service
  imports Py_Json_Roundtrip
begin

text \<open>
  What the two HTTPS services share: requests with their TLS peer certificate, header lookup as
  \<open>http.client.HTTPMessage\<close> does it, JSON responses, TLS contexts as the sources configure them,
  and the contract of a service that serves one pinned peer only (\<open>peer_gate\<close>).

  The \<open>Server\<close> and \<open>Date\<close> headers that \<open>BaseHTTPRequestHandler.send_response\<close> adds are left
  out of the response. Header text is ISO-8859-1 decoded by \<open>http.client\<close>, which is the range
  on which the case mapping \<open>py_lower\<close> agrees with \<open>str.lower\<close>.
\<close>

section \<open>Requests and responses\<close>

type_synonym headers = "(pystr \<times> pystr) list"

record request =
  command :: pystr
  path :: pystr
  req_headers :: headers

record response =
  status :: int
  resp_headers :: headers
  body :: bytes

text \<open>
  \<open>connection.getpeercert(binary_form=True)\<close>: the DER bytes of the peer's certificate, \<open>None\<close>
  without one, or an exception.
\<close>

type_synonym peercert = "bytes option res"

text \<open>\<open>headers.get_all(name)\<close>, with \<open>None\<close> for no such header, and \<open>headers.get(name)\<close>.\<close>

definition get_all :: "headers \<Rightarrow> string \<Rightarrow> pystr list option" where
  "get_all hs name =
     (let vs = map snd (filter (\<lambda>h. py_lower (fst h) = py_lower (lit name)) hs)
      in if vs = [] then None else Some vs)"

definition get_all_or :: "headers \<Rightarrow> string \<Rightarrow> pystr list \<Rightarrow> pystr list" where
  "get_all_or hs name def = (case get_all hs name of None \<Rightarrow> def | Some vs \<Rightarrow> vs)"

definition get_header :: "headers \<Rightarrow> string \<Rightarrow> pystr option" where
  "get_header hs name = map_option hd (get_all hs name)"

lemma get_all_nonempty: "get_all hs name = Some vs \<Longrightarrow> vs \<noteq> []"
  by (auto simp: get_all_def Let_def split: if_splits)

lemma get_all_append_other:
  "py_lower n \<noteq> py_lower (lit name) \<Longrightarrow> get_all ((n, v) # hs) name = get_all hs name"
  by (simp add: get_all_def)

text \<open>\<open>a if isinstance(a, str) else None\<close> for an optional header value.\<close>

fun opt_text :: "pystr option \<Rightarrow> pyval" where
  "opt_text None = PNone"
| "opt_text (Some s) = PStr s"

definition JSON_HEADERS :: "bytes \<Rightarrow> headers" where
  "JSON_HEADERS data =
     [(lit ''Content-Type'', lit ''application/json''), (lit ''Cache-Control'', lit ''no-store''),
      (lit ''Content-Length'', show_nat (length data))]"

section \<open>TLS contexts\<close>

datatype purpose = SERVER_AUTH | CLIENT_AUTH

datatype verify_mode = CERT_NONE | CERT_OPTIONAL | CERT_REQUIRED

datatype trust_anchor = SystemStore | CaFile pystr

datatype tls_version = LibraryDefault | TLSv1_2

record ssl_context =
  verify_mode :: verify_mode
  check_hostname :: bool
  verify_strict :: bool
  minimum_version :: tls_version
  anchors :: "trust_anchor list"
  cert_chain :: "(pystr \<times> pystr) option"

text \<open>Reading a CA file and a certificate with its key may raise.\<close>

record tls_files =
  load_ca :: "pystr \<Rightarrow> unit res"
  load_pair :: "pystr \<Rightarrow> pystr \<Rightarrow> unit res"

definition create_default_context :: "tls_files \<Rightarrow> purpose \<Rightarrow> pystr option \<Rightarrow> ssl_context res" where
  "create_default_context fs p cafile =
     (let server = (p = SERVER_AUTH);
          ctx = \<lparr>verify_mode = (if server then CERT_REQUIRED else CERT_NONE),
                 check_hostname = server, verify_strict = True,
                 minimum_version = LibraryDefault, anchors = [], cert_chain = None\<rparr>
      in case cafile of
           Some ca \<Rightarrow> rbind (load_ca fs ca) (\<lambda>_. Inr (ctx\<lparr>anchors := [CaFile ca]\<rparr>))
         | None \<Rightarrow> Inr (if server then ctx\<lparr>anchors := [SystemStore]\<rparr> else ctx))"

definition load_verify_locations :: "tls_files \<Rightarrow> pystr \<Rightarrow> ssl_context \<Rightarrow> ssl_context res" where
  "load_verify_locations fs ca ctx =
     rbind (load_ca fs ca) (\<lambda>_. Inr (ctx\<lparr>anchors := anchors ctx @ [CaFile ca]\<rparr>))"

definition load_cert_chain :: "tls_files \<Rightarrow> pystr \<Rightarrow> pystr \<Rightarrow> ssl_context \<Rightarrow> ssl_context res" where
  "load_cert_chain fs cert key ctx =
     rbind (load_pair fs cert key) (\<lambda>_. Inr (ctx\<lparr>cert_chain := Some (cert, key)\<rparr>))"

section \<open>Environment variables\<close>

type_synonym environ = "pystr \<Rightarrow> pystr option"

definition env_get :: "environ \<Rightarrow> string \<Rightarrow> string \<Rightarrow> pystr" where
  "env_get env name def = (case env (lit name) of None \<Rightarrow> lit def | Some v \<Rightarrow> v)"

section \<open>The contract of a pinned-peer service\<close>

text \<open>
  A service answers a request on a connection with a peer and performs effects (outgoing calls).
  Its contract: a peer that is not trusted gets the same answer whatever it sends, and causes no
  effect.
\<close>

locale peer_gate =
  fixes trusted :: "peercert \<Rightarrow> bool"
    and serve :: "peercert \<Rightarrow> 'r \<Rightarrow> 'a \<times> 'e list"
    and denied :: "peercert \<Rightarrow> 'a"
  assumes gate: "\<not> trusted p \<Longrightarrow> serve p r = (denied p, [])"
begin

lemma same_answer: "\<not> trusted p \<Longrightarrow> fst (serve p r) = fst (serve p r')"
  by (simp add: gate)

text \<open>A whole session of an untrusted peer: every answer is the refusal and no effect happens.\<close>

lemma session_denied:
  "\<not> trusted p \<Longrightarrow>
   map (fst \<circ> serve p) rs = replicate (length rs) (denied p) \<and> concat (map (snd \<circ> serve p) rs) = []"
  by (induction rs) (auto simp: gate)

lemma effect_trusted: "e \<in> set (snd (serve p r)) \<Longrightarrow> trusted p"
  using gate by fastforce

end

end
