(* ===== verification/Pop_Verifier.thy ===== *)
theory Pop_Verifier
  imports Http_Service
begin

text \<open>
  The proof-of-possession verifier, \<open>src/pop-verifier/app.py\<close>: the module configuration with its
  start-up guards, the TLS server context, the pinned gateway certificate, the validation of the
  access token and of the certificate that Kong forwards, the evidence document and the request
  handler with every branch.

  \<open>hashlib.sha256\<close>, the x509 parsers, the JWKS client and \<open>jwt.decode\<close> are the fields of the
  record \<open>pop_deps\<close>: the source calls them and does not define them.
\<close>

section \<open>Configuration\<close>

record pop_config =
  ISSUER :: pystr
  AUDIENCE :: pystr
  JWKS_URL :: pystr
  REQUIRED_SCOPES :: "pystr list"
  ALLOWED_ALGORITHMS :: "pystr list"
  API_UPSTREAM_CERT_FILE :: pystr

definition load_config :: "environ \<Rightarrow> pop_config res" where
  "load_config env =
     (let issuer = env_get env ''OIDC_ISSUER'' ''https://localhost:8444/realms/fapi-demo'';
          audience = env_get env ''OIDC_AUDIENCE'' ''fapi-demo-api'';
          jwks = env_get env ''OIDC_JWKS_URL''
            ''https://keycloak:8443/realms/fapi-demo/protocol/openid-connect/certs'';
          scopes = filter (\<lambda>s. s \<noteq> []) (py_split (env_get env ''OIDC_REQUIRED_SCOPES'' ''openid''));
          algs = filter (\<lambda>s. s \<noteq> []) (py_split (env_get env ''OIDC_ALLOWED_ALGORITHMS'' ''PS256''))
      in rbind (raise_if (audience \<noteq> lit ''fapi-demo-api'')
             (RuntimeError (lit ''OIDC_AUDIENCE must be fapi-demo-api''))) (\<lambda>_.
         rbind (raise_if (lit ''openid'' \<notin> set scopes)
             (RuntimeError (lit ''OIDC_REQUIRED_SCOPES must include openid''))) (\<lambda>_.
         rbind (raise_if (algs \<noteq> [lit ''PS256''])
             (RuntimeError (lit ''OIDC_ALLOWED_ALGORITHMS must be PS256 only''))) (\<lambda>_.
         Inr \<lparr>ISSUER = issuer, AUDIENCE = audience, JWKS_URL = jwks, REQUIRED_SCOPES = scopes,
              ALLOWED_ALGORITHMS = algs,
              API_UPSTREAM_CERT_FILE =
                env_get env ''API_UPSTREAM_CERT_FILE'' ''/etc/fapi/api-upstream.crt''\<rparr>))))"

definition API_UPSTREAM_COMMON_NAME :: pystr where
  "API_UPSTREAM_COMMON_NAME = lit ''api-gateway-upstream''"

definition DEPARTMENT_CLAIM :: string where
  "DEPARTMENT_CLAIM = ''https://fapi-demo.example.com/department''"

definition ROUTE_CLAIM :: string where
  "ROUTE_CLAIM = ''https://fapi-demo.example.com/route''"

definition AZP_ROUTES :: "(pystr \<times> string \<times> string) list" where
  "AZP_ROUTES =
     [(lit ''third-party-fapi-mtls'', ''route-a'', ''tls_client_auth''),
      (lit ''third-party-fapi-pkj-mtls'', ''route-b'', ''private_key_jwt'')]"

definition MAX_FORWARDED_CERT_HEADER_BYTES :: nat where
  "MAX_FORWARDED_CERT_HEADER_BYTES = 24 * 1024"

definition PEM_CERTIFICATE_BEGIN :: bytes where
  "PEM_CERTIFICATE_BEGIN = ''-----BEGIN CERTIFICATE-----''"

definition PEM_CERTIFICATE_END :: bytes where
  "PEM_CERTIFICATE_END = ''-----END CERTIFICATE-----''"

definition verified_ssl_context :: "tls_files \<Rightarrow> purpose \<Rightarrow> ssl_context res" where
  "verified_ssl_context fs p =
     rbind (create_default_context fs p None) (\<lambda>ctx. Inr (ctx\<lparr>verify_strict := False\<rparr>))"

section \<open>External operations\<close>

text \<open>
  A parsed certificate: its DER encoding, the common names of its subject, and its extended key
  usages (reading the extension may raise \<open>ExtensionNotFound\<close> or \<open>ValueError\<close>).
\<close>

record cert =
  cert_der :: bytes
  common_names :: "pystr list"
  ext_key_usage :: "pystr list res"

record jwt_request =
  algorithms :: "pystr list"
  audience :: pystr
  issuer :: pystr
  require :: "string list"
  verify_nbf :: bool

record 'k pop_deps =
  sha256 :: "bytes \<Rightarrow> bytes"
  load_pem_x509 :: "bytes \<Rightarrow> cert res"
  load_der_x509 :: "bytes \<Rightarrow> cert res"
  read_bytes :: "pystr \<Rightarrow> bytes res"
  get_signing_key_from_jwt :: "pystr \<Rightarrow> 'k res"
  jwt_decode :: "pystr \<Rightarrow> 'k \<Rightarrow> jwt_request \<Rightarrow> pydict res"
  floats :: float_codec

definition CLIENT_AUTH_OID :: pystr where
  "CLIENT_AUTH_OID = lit ''1.3.6.1.5.5.7.3.2''"

section \<open>Operations\<close>

definition base64url_sha256 :: "('k, 'z) pop_deps_scheme \<Rightarrow> bytes \<Rightarrow> pystr" where
  "base64url_sha256 deps v = base64url (sha256 deps v)"

definition constant_time_text_equal :: "pyval \<Rightarrow> pyval \<Rightarrow> bool" where
  "constant_time_text_equal left right =
     (case (left, right) of
        (PStr l, PStr r) \<Rightarrow>
          (case (utf8_encode l, utf8_encode r) of (Inr a, Inr b) \<Rightarrow> a = b | _ \<Rightarrow> False)
      | _ \<Rightarrow> False)"

definition bearer_token :: "headers \<Rightarrow> pystr option" where
  "bearer_token hs =
     (let token = (\<lambda>authorization.
            let (scheme, separator, v) = py_partition 32 authorization
            in if separator \<and> py_lower scheme = lit ''bearer'' \<and> v \<noteq> [] \<and> 32 \<notin> set v
               then Some v else None)
      in case get_all hs ''Authorization'' of
           Some vs \<Rightarrow> if length vs \<noteq> 1 then None else token (hd vs)
         | None \<Rightarrow> token (case get_header hs ''Authorization'' of None \<Rightarrow> [] | Some v \<Rightarrow> v))"

definition certificate_common_name :: "cert \<Rightarrow> pystr res" where
  "certificate_common_name c =
     (if length (common_names c) \<noteq> 1
      then Inl (TokenValidationError (lit ''untrusted API Gateway peer''))
      else Inr (hd (common_names c)))"

fun isa_TokenValidationError :: "exn \<Rightarrow> bool" where
  "isa_TokenValidationError (TokenValidationError _) = True"
| "isa_TokenValidationError _ = False"

definition load_pinned_gateway_certificate ::
    "('k, 'z) pop_deps_scheme \<Rightarrow> pystr \<Rightarrow> bytes res" where
  "load_pinned_gateway_certificate deps file =
     rbind (recast_if (\<lambda>e. isa_OSError e \<or> isa_ValueError e \<or> e = ExtensionNotFound
                           \<or> isa_TokenValidationError e)
              (RuntimeError (lit ''API Gateway upstream certificate pin is invalid''))
              (rbind (read_bytes deps file) (\<lambda>pem.
               rbind (load_pem_x509 deps pem) (\<lambda>c.
               rbind (certificate_common_name c) (\<lambda>cn.
               rbind (ext_key_usage c) (\<lambda>usages. Inr (c, cn, usages)))))))
       (\<lambda>(c, cn, usages).
          if cn \<noteq> API_UPSTREAM_COMMON_NAME \<or> CLIENT_AUTH_OID \<notin> set usages
          then raiseR ''API Gateway upstream certificate pin has the wrong identity''
          else Inr (cert_der c))"

definition verify_api_gateway_peer ::
    "('k, 'z) pop_deps_scheme \<Rightarrow> bytes option \<Rightarrow> bytes option \<Rightarrow> pystr res" where
  "verify_api_gateway_peer deps peer_der pinned_peer_der =
     (let untrusted = TokenValidationError (lit ''untrusted API Gateway peer'')
      in case (peer_der, pinned_peer_der) of
           (Some peer, Some pinned) \<Rightarrow>
             if peer = [] \<or> pinned = [] then Inl untrusted
             else rbind (recast_if (\<lambda>e. isa_ValueError e \<or> isa_TokenValidationError e) untrusted
                     (rbind (load_der_x509 deps peer) certificate_common_name))
                   (\<lambda>cn. if cn \<noteq> API_UPSTREAM_COMMON_NAME \<or> peer \<noteq> pinned then Inl untrusted
                         else Inr (base64url_sha256 deps peer))
         | _ \<Rightarrow> Inl untrusted)"

text \<open>The characters that \<open>bytes.rstrip()\<close> removes.\<close>

definition ascii_space :: "char \<Rightarrow> bool" where
  "ascii_space b \<longleftrightarrow> (of_char b :: nat) = 32 \<or> 9 \<le> (of_char b :: nat) \<and> (of_char b :: nat) \<le> 13"

definition one_pem_block :: "bytes \<Rightarrow> bool" where
  "one_pem_block pem \<longleftrightarrow>
     count_sub PEM_CERTIFICATE_BEGIN pem = 1 \<and> count_sub PEM_CERTIFICATE_END pem = 1
     \<and> starts_with PEM_CERTIFICATE_BEGIN pem
     \<and> ends_with PEM_CERTIFICATE_END (py_rstrip ascii_space pem)"

definition forwarded_client_certificate_der ::
    "('k, 'z) pop_deps_scheme \<Rightarrow> headers \<Rightarrow> bytes res" where
  "forwarded_client_certificate_der deps hs =
     (let missing = TokenValidationError (lit ''forwarded client certificate is missing or ambiguous'');
          invalid = TokenValidationError (lit ''forwarded client certificate is invalid'')
      in case get_all hs ''X-Client-Cert'' of
           None \<Rightarrow> Inl missing
         | Some vs \<Rightarrow>
             if length vs \<noteq> 1 then Inl missing
             else let encoded = hd vs in
               if encoded = [] \<or> length encoded > MAX_FORWARDED_CERT_HEADER_BYTES \<or> 44 \<in> set encoded
               then Inl missing
               else rbind (recast_if (\<lambda>e. e = UnicodeEncodeError) invalid (ascii_encode encoded))
                 (\<lambda>encoded_bytes.
                    if bad_percent (map of_char encoded_bytes) then Inl invalid
                    else let pem_bytes = unquote_to_bytes encoded in
                      if \<not> one_pem_block pem_bytes then Inl invalid
                      else rbind (recast_if isa_ValueError invalid (load_pem_x509 deps pem_bytes))
                             (\<lambda>c. Inr (cert_der c))))"

definition token_request :: "pop_config \<Rightarrow> jwt_request" where
  "token_request cfg =
     \<lparr>algorithms = ALLOWED_ALGORITHMS cfg, audience = AUDIENCE cfg, issuer = ISSUER cfg,
      require = [''exp'', ''iat'', ''iss'', ''aud'', ''cnf'', ''scope'', ''azp''],
      verify_nbf = True\<rparr>"

text \<open>The three checks on the decoded claims, in the order of the source.\<close>

definition require_scopes :: "pop_config \<Rightarrow> pydict \<Rightarrow> unit res" where
  "require_scopes cfg claims =
     (case dget claims ''scope'' of
        PStr scope_claim \<Rightarrow>
          raise_if (\<not> set (REQUIRED_SCOPES cfg) \<subseteq> set (py_split scope_claim))
            (TokenValidationError (lit ''required scope is missing''))
      | _ \<Rightarrow> Inl (TokenValidationError (lit ''required scope is missing'')))"

definition require_azp :: "pydict \<Rightarrow> unit res" where
  "require_azp claims =
     (case dget claims ''azp'' of
        PStr azp \<Rightarrow> raise_if (map_of AZP_ROUTES azp = None)
          (TokenValidationError (lit ''authorized party is invalid''))
      | _ \<Rightarrow> Inl (TokenValidationError (lit ''authorized party is invalid'')))"

definition confirmation_thumbprint :: "pydict \<Rightarrow> pystr res" where
  "confirmation_thumbprint claims =
     (let token_thumbprint =
            (case dget claims ''cnf'' of PDict confirmation \<Rightarrow> dget confirmation ''x5t#S256'' | _ \<Rightarrow> PNone)
      in if \<not> nonempty_str token_thumbprint
         then Inl (TokenValidationError (lit ''certificate binding is missing''))
         else Inr (the_str token_thumbprint))"

definition verify_access_token ::
    "pop_config \<Rightarrow> ('k, 'z) pop_deps_scheme \<Rightarrow> pystr \<Rightarrow> (pydict \<times> pystr) res" where
  "verify_access_token cfg deps token =
     rbind (recast (TokenValidationError (lit ''JWT validation failed''))
       (rbind (get_signing_key_from_jwt deps token) (\<lambda>key.
          jwt_decode deps token key (token_request cfg)))) (\<lambda>claims.
     rbind (require_scopes cfg claims) (\<lambda>_.
     rbind (require_azp claims) (\<lambda>_.
     rbind (confirmation_thumbprint claims) (\<lambda>token_thumbprint.
     Inr (claims, token_thumbprint)))))"

definition verify_forwarded_certificate_binding ::
    "('k, 'z) pop_deps_scheme \<Rightarrow> headers \<Rightarrow> pystr \<Rightarrow> pystr res" where
  "verify_forwarded_certificate_binding deps hs token_thumbprint =
     rbind (forwarded_client_certificate_der deps hs) (\<lambda>forwarded_der.
       let forwarded_thumbprint = base64url_sha256 deps forwarded_der
       in if \<not> constant_time_text_equal (PStr token_thumbprint) (PStr forwarded_thumbprint)
          then Inl (TokenValidationError (lit ''certificate binding mismatch''))
          else Inr forwarded_thumbprint)"

definition safe_evidence_text :: "pyval \<Rightarrow> pyval" where
  "safe_evidence_text v =
     (case v of PStr s \<Rightarrow> if length s \<le> 256 then v else PNone | _ \<Rightarrow> PNone)"

definition routing_evidence :: "headers \<Rightarrow> pydict \<Rightarrow> pydict" where
  "routing_evidence hs claims =
     (let department = safe_evidence_text (dget claims DEPARTMENT_CLAIM);
          logical_route = safe_evidence_text (dget claims ROUTE_CLAIM);
          department_header = safe_evidence_text (opt_text (get_header hs ''X-Demo-Department''));
          logical_route_header = safe_evidence_text (opt_text (get_header hs ''X-Demo-Route''));
          header_claims_match =
            list_all py_true [department, logical_route, department_header, logical_route_header]
            \<and> list_all (\<lambda>(claim_value, header_value). constant_time_text_equal claim_value header_value)
                [(department, department_header), (logical_route, logical_route_header)]
      in [(K ''department'', department), (K ''logical_route'', logical_route),
          (K ''department_header'', department_header),
          (K ''logical_route_header'', logical_route_header),
          (K ''header_claims_match'', PBool header_claims_match)])"

definition build_evidence ::
    "headers \<Rightarrow> pydict \<Rightarrow> pystr \<Rightarrow> pystr \<Rightarrow> pystr \<Rightarrow> pyval res" where
  "build_evidence hs claims token_thumbprint forwarded_thumbprint tls_peer_thumbprint =
     rbind (ditem claims ''azp'') (\<lambda>azp.
       case azp of
         PStr a \<Rightarrow>
           (case map_of AZP_ROUTES a of
              None \<Rightarrow> Inl KeyError
            | Some (route, client_authentication) \<Rightarrow>
                Inr (PDict (dmerge
                  [(K ''azp'', azp), (K ''route'', S route),
                   (K ''client_authentication'', S client_authentication),
                   (K ''token_certificate_thumbprint'', PStr token_thumbprint),
                   (K ''forwarded_client_certificate_thumbprint'', PStr forwarded_thumbprint),
                   (K ''api_gateway_tls_peer_certificate_thumbprint'', PStr tls_peer_thumbprint),
                   (K ''token_signature_verified'', PBool True),
                   (K ''binding_verified'', PBool True)]
                  (routing_evidence hs claims))))
       | PList _ \<Rightarrow> Inl TypeError
       | PDict _ \<Rightarrow> Inl TypeError
       | _ \<Rightarrow> Inl KeyError)"

section \<open>The request handler\<close>

definition json_response :: "float_codec \<Rightarrow> int \<Rightarrow> pyval \<Rightarrow> headers \<Rightarrow> response" where
  "json_response fc code v extra_headers =
     (let data = json_body fc v
      in \<lparr>status = code, resp_headers = JSON_HEADERS data @ extra_headers, body = data\<rparr>)"

definition invalid_token :: "float_codec \<Rightarrow> pystr \<Rightarrow> response" where
  "invalid_token fc reason =
     json_response fc 401 (PDict [(K ''error'', S ''invalid_token''), (K ''reason'', PStr reason)])
       [(lit ''WWW-Authenticate'', lit ''Bearer error=\"invalid_token\"'')]"

definition send_error ::
    "('k, 'z) pop_deps_scheme \<Rightarrow> bytes option \<Rightarrow> peercert \<Rightarrow> int \<Rightarrow> response" where
  "send_error deps pin peer code =
     (case rbind peer (\<lambda>p. verify_api_gateway_peer deps p pin) of
        Inl _ \<Rightarrow> invalid_token (floats deps) (lit ''untrusted API Gateway peer'')
      | Inr _ \<Rightarrow> json_response (floats deps) code (PDict [(K ''error'', S ''request_rejected'')]) [])"

text \<open>The two \<open>except\<close> clauses of \<open>do_GET\<close> around the credential checks.\<close>

fun refusal_reason :: "exn \<Rightarrow> pystr" where
  "refusal_reason (TokenValidationError m) = m"
| "refusal_reason _ = lit ''invalid credentials''"

definition do_GET ::
    "pop_config \<Rightarrow> ('k, 'z) pop_deps_scheme \<Rightarrow> bytes option \<Rightarrow> peercert \<Rightarrow> request \<Rightarrow> response" where
  "do_GET cfg deps pin peer req =
     (let fc = floats deps in
      case rbind peer (\<lambda>peer_der. verify_api_gateway_peer deps peer_der pin) of
        Inl _ \<Rightarrow> invalid_token fc (lit ''untrusted API Gateway peer'')
      | Inr tls_peer_thumbprint \<Rightarrow>
          if path req = lit ''/healthz'' then json_response fc 200 (PDict [(K ''status'', S ''ok'')]) []
          else if path req \<noteq> lit ''/evidence''
          then json_response fc 404 (PDict [(K ''error'', S ''not_found'')]) []
          else (case bearer_token (req_headers req) of
              None \<Rightarrow> invalid_token fc (lit ''missing bearer token'')
            | Some token \<Rightarrow>
                (case rbind (verify_access_token cfg deps token) (\<lambda>(claims, token_thumbprint).
                        rbind (verify_forwarded_certificate_binding deps (req_headers req) token_thumbprint)
                          (\<lambda>forwarded_thumbprint. Inr (claims, token_thumbprint, forwarded_thumbprint))) of
                   Inl e \<Rightarrow> invalid_token fc (refusal_reason e)
                 | Inr (claims, token_thumbprint, forwarded_thumbprint) \<Rightarrow>
                     (case build_evidence (req_headers req) claims token_thumbprint
                             forwarded_thumbprint tls_peer_thumbprint of
                        Inl _ \<Rightarrow> invalid_token fc (lit ''invalid credentials'')
                      | Inr evidence \<Rightarrow> json_response fc 200 evidence []))))"

text \<open>
  \<open>BaseHTTPRequestHandler.handle_one_request\<close>: a method without a \<open>do_\<close> operation is answered
  by \<open>send_error(501)\<close>; a request line that does not parse, by \<open>send_error\<close> with the code of
  the defect.
\<close>

datatype incoming = Parsed request | Malformed int

fun handle :: "pop_config \<Rightarrow> ('k, 'z) pop_deps_scheme \<Rightarrow> bytes option \<Rightarrow> peercert \<Rightarrow> incoming \<Rightarrow> response" where
  "handle cfg deps pin peer (Malformed code) = send_error deps pin peer code"
| "handle cfg deps pin peer (Parsed req) =
     (if command req = lit ''GET'' then do_GET cfg deps pin peer req
      else send_error deps pin peer 501)"

section \<open>Start-up\<close>

definition create_server_context :: "tls_files \<Rightarrow> environ \<Rightarrow> ssl_context res" where
  "create_server_context fs env =
     rbind (verified_ssl_context fs CLIENT_AUTH) (\<lambda>ctx.
     rbind (load_verify_locations fs (env_get env ''TLS_CA_FILE'' ''/etc/fapi/ca.crt'')
              (ctx\<lparr>verify_mode := CERT_REQUIRED\<rparr>)) (\<lambda>ctx.
     load_cert_chain fs (env_get env ''TLS_CERT_FILE'' ''/etc/fapi/tls.crt'')
       (env_get env ''TLS_KEY_FILE'' ''/etc/fapi/tls.key'') ctx))"

record server =
  pinned_gateway_peer_der :: bytes
  server_context :: ssl_context

definition create_server ::
    "pop_config \<Rightarrow> ('k, 'z) pop_deps_scheme \<Rightarrow> tls_files \<Rightarrow> environ \<Rightarrow> ssl_context option \<Rightarrow> bytes option
     \<Rightarrow> server res" where
  "create_server cfg deps fs env context pinned_peer_der =
     rbind (case pinned_peer_der of Some p \<Rightarrow> Inr p
            | None \<Rightarrow> load_pinned_gateway_certificate deps (API_UPSTREAM_CERT_FILE cfg)) (\<lambda>peer_pin.
     rbind (case context of Some c \<Rightarrow> Inr c | None \<Rightarrow> create_server_context fs env) (\<lambda>ctx.
     Inr \<lparr>pinned_gateway_peer_der = peer_pin, server_context = ctx\<rparr>))"

section \<open>Peer authentication\<close>

text \<open>
  The specification of the gate: the peer presented exactly the pinned certificate, it parses, and
  its only common name is that of the API gateway.
\<close>

fun pinned_peer :: "('k, 'z) pop_deps_scheme \<Rightarrow> bytes option \<Rightarrow> peercert \<Rightarrow> bool" where
  "pinned_peer deps (Some pin) (Inr (Some p)) =
     (p = pin \<and> p \<noteq> []
      \<and> (case load_der_x509 deps p of Inl _ \<Rightarrow> False
         | Inr c \<Rightarrow> common_names c = [API_UPSTREAM_COMMON_NAME]))"
| "pinned_peer deps _ _ = False"

lemma certificate_common_name_iff:
  "certificate_common_name c = Inr cn \<longleftrightarrow> common_names c = [cn]"
  by (cases "common_names c") (auto simp: certificate_common_name_def)

lemma pinned_peerE:
  assumes "pinned_peer deps pin peer"
  obtains p c where "peer = Inr (Some p)" "pin = Some p" "p \<noteq> []" "load_der_x509 deps p = Inr c"
    "common_names c = [API_UPSTREAM_COMMON_NAME]"
  using assms by (cases "(deps, pin, peer)" rule: pinned_peer.cases) (auto split: sum.splits)

lemma verify_api_gateway_peer_iff:
  "rbind peer (\<lambda>p. verify_api_gateway_peer deps p pin) = Inr t \<longleftrightarrow>
     pinned_peer deps pin peer \<and> (\<exists>p. peer = Inr (Some p) \<and> t = base64url_sha256 deps p)"
  by (cases "(deps, pin, peer)" rule: pinned_peer.cases)
    (auto simp: verify_api_gateway_peer_def rbind_eq_Inr_iff recast_if_eq_Inr_iff
      certificate_common_name_iff Let_def split: sum.splits option.splits if_splits)

lemma peer_not_pinned:
  assumes "\<not> pinned_peer deps pin peer"
  obtains e where "rbind peer (\<lambda>p. verify_api_gateway_peer deps p pin) = Inl e"
  using assms verify_api_gateway_peer_iff [of peer deps pin]
  by (cases "rbind peer (\<lambda>p. verify_api_gateway_peer deps p pin)") auto

lemma do_GET_untrusted:
  assumes "\<not> pinned_peer deps pin peer"
  shows "do_GET cfg deps pin peer req
    = invalid_token (floats deps) (lit ''untrusted API Gateway peer'')"
proof -
  obtain e where e: "rbind peer (\<lambda>p. verify_api_gateway_peer deps p pin) = Inl e"
    using assms by (rule peer_not_pinned)
  show ?thesis by (simp add: do_GET_def e)
qed

lemma send_error_untrusted:
  assumes "\<not> pinned_peer deps pin peer"
  shows "send_error deps pin peer code = invalid_token (floats deps) (lit ''untrusted API Gateway peer'')"
proof -
  obtain e where e: "rbind peer (\<lambda>p. verify_api_gateway_peer deps p pin) = Inl e"
    using assms by (rule peer_not_pinned)
  show ?thesis by (simp add: send_error_def e)
qed

lemma handle_untrusted:
  assumes "\<not> pinned_peer deps pin peer"
  shows "handle cfg deps pin peer r = invalid_token (floats deps) (lit ''untrusted API Gateway peer'')"
  by (cases r) (simp_all add: do_GET_untrusted send_error_untrusted assms)

interpretation pop: peer_gate "pinned_peer deps pin" "\<lambda>p r. (handle cfg deps pin p r, [] :: unit list)"
  "\<lambda>_. invalid_token (floats deps) (lit ''untrusted API Gateway peer'')" for cfg deps pin
  by unfold_locales (simp add: handle_untrusted)

section \<open>The forwarded certificate\<close>

lemma forwarded_client_certificate_der_iff:
  "forwarded_client_certificate_der deps hs = Inr der \<longleftrightarrow>
     (\<exists>encoded c. get_all hs ''X-Client-Cert'' = Some [encoded]
        \<and> 0 < length encoded \<and> length encoded \<le> 24576 \<and> 44 \<notin> set encoded
        \<and> list_all (\<lambda>c. c < 128) encoded \<and> \<not> bad_percent encoded
        \<and> one_pem_block (unquote_to_bytes encoded)
        \<and> load_pem_x509 deps (unquote_to_bytes encoded) = Inr c \<and> der = cert_der c)"
proof -
  have single: "length vs = Suc 0 \<longleftrightarrow> (\<exists>v. vs = [v])" for vs :: "pystr list"
    by (cases vs) auto
  have chars: "list_all (\<lambda>c. c < 128) s \<Longrightarrow> map of_char (map char_of s :: bytes) = s" for s :: pystr
    by (induction s) auto
  show ?thesis
    by (cases "get_all hs ''X-Client-Cert''")
      (auto simp: forwarded_client_certificate_der_def MAX_FORWARDED_CERT_HEADER_BYTES_def Let_def
        single ascii_encode_def chars rbind_eq_Inr_iff recast_if_eq_Inr_iff simp del: map_map
        split: if_splits)
qed

section \<open>The access token\<close>

lemma require_scopes_iff:
  "require_scopes cfg claims = Inr u \<longleftrightarrow>
     (\<exists>scope. dget claims ''scope'' = PStr scope \<and> set (REQUIRED_SCOPES cfg) \<subseteq> set (py_split scope))"
  by (cases "dget claims ''scope''") (simp_all add: require_scopes_def raise_if_eq_Inr_iff)

lemma require_azp_iff:
  "require_azp claims = Inr u \<longleftrightarrow> (\<exists>azp. dget claims ''azp'' = PStr azp \<and> map_of AZP_ROUTES azp \<noteq> None)"
  by (cases "dget claims ''azp''") (simp_all add: require_azp_def raise_if_eq_Inr_iff)

lemma confirmation_thumbprint_iff:
  "confirmation_thumbprint claims = Inr tp \<longleftrightarrow>
     (\<exists>cnf. dget claims ''cnf'' = PDict cnf \<and> dget cnf ''x5t#S256'' = PStr tp \<and> tp \<noteq> [])"
  by (cases "dget claims ''cnf''") (auto simp: confirmation_thumbprint_def nonempty_str_iff Let_def)

lemma verify_access_token_iff:
  "verify_access_token cfg deps token = Inr (claims, tp) \<longleftrightarrow>
     (\<exists>key. get_signing_key_from_jwt deps token = Inr key
        \<and> jwt_decode deps token key (token_request cfg) = Inr claims)
     \<and> require_scopes cfg claims = Inr () \<and> require_azp claims = Inr ()
     \<and> confirmation_thumbprint claims = Inr tp"
  unfolding verify_access_token_def by (auto simp: rbind_eq_Inr_iff recast_eq_Inr_iff)

lemma verify_access_token_error:
  "verify_access_token cfg deps token = Inl e \<Longrightarrow>
     e \<in> TokenValidationError ` lit ` {''JWT validation failed'', ''required scope is missing'',
        ''authorized party is invalid'', ''certificate binding is missing''}"
proof -
  have scopes: "require_scopes cfg claims = Inl e \<Longrightarrow> e = TokenValidationError (lit ''required scope is missing'')"
    for claims by (cases "dget claims ''scope''") (auto simp: require_scopes_def raise_if_def split: if_splits)
  have azp: "require_azp claims = Inl e \<Longrightarrow> e = TokenValidationError (lit ''authorized party is invalid'')"
    for claims by (cases "dget claims ''azp''") (auto simp: require_azp_def raise_if_def split: if_splits)
  have cnf: "confirmation_thumbprint claims = Inl e
      \<Longrightarrow> e = TokenValidationError (lit ''certificate binding is missing'')"
    for claims by (auto simp: confirmation_thumbprint_def Let_def split: if_splits)
  assume "verify_access_token cfg deps token = Inl e"
  then show ?thesis
    unfolding verify_access_token_def
    by (auto simp: rbind_eq_Inl_iff recast_def dest: scopes azp cnf split: sum.splits)
qed

lemma constant_time_text_equal_iff:
  "constant_time_text_equal (PStr l) (PStr r) \<longleftrightarrow> l = r \<and> list_all is_scalar l"
  unfolding constant_time_text_equal_def
  using utf8.enc_eq_iff [of l _ r] by (auto simp: utf8_encode_def split: if_splits)

lemma base64url_scalar: "list_all is_scalar (base64url bs)"
  using base64url_shape [of bs]
  by (auto simp: list_all_iff is_b64url_def is_digit_def is_scalar_def is_surrogate_def)

lemma verify_binding_iff:
  "verify_forwarded_certificate_binding deps hs tp = Inr fp \<longleftrightarrow>
     fp = tp \<and> (\<exists>der. forwarded_client_certificate_der deps hs = Inr der \<and> tp = base64url_sha256 deps der)"
  unfolding verify_forwarded_certificate_binding_def
  by (auto simp: rbind_eq_Inr_iff constant_time_text_equal_iff base64url_sha256_def base64url_scalar
      Let_def split: if_splits)

section \<open>The evidence document\<close>

definition evidence_items ::
    "pystr \<Rightarrow> string \<Rightarrow> string \<Rightarrow> pystr \<Rightarrow> pystr \<Rightarrow> headers \<Rightarrow> pydict \<Rightarrow> pydict" where
  "evidence_items azp route auth thumbprint peer_thumbprint hs claims =
     [(K ''azp'', PStr azp), (K ''route'', S route), (K ''client_authentication'', S auth),
      (K ''token_certificate_thumbprint'', PStr thumbprint),
      (K ''forwarded_client_certificate_thumbprint'', PStr thumbprint),
      (K ''api_gateway_tls_peer_certificate_thumbprint'', PStr peer_thumbprint),
      (K ''token_signature_verified'', PBool True), (K ''binding_verified'', PBool True)]
     @ routing_evidence hs claims"

lemma routing_evidence_keys:
  "map fst (routing_evidence hs claims)
   = map K [''department'', ''logical_route'', ''department_header'', ''logical_route_header'',
            ''header_claims_match'']"
  by (simp add: routing_evidence_def Let_def)

lemma dmerge_disjoint:
  "distinct (map fst b) \<Longrightarrow> set (map fst a) \<inter> set (map fst b) = {} \<Longrightarrow> dmerge a b = a @ b"
proof (induction b arbitrary: a)
  case Nil
  then show ?case by (simp add: dmerge_def)
next
  case (Cons kv b)
  obtain k v where kv: "kv = (k, v)" by (cases kv)
  have "dmerge a (kv # b) = dmerge (dset k v a) b" by (simp add: dmerge_def kv)
  also have "dset k v a = a @ [(k, v)]" using Cons.prems kv by (intro dset_new) auto
  also have "dmerge (a @ [(k, v)]) b = (a @ [(k, v)]) @ b" using Cons.prems kv by (intro Cons.IH) auto
  finally show ?case by (simp add: kv)
qed

lemma build_evidence_eq:
  assumes "dget claims ''azp'' = PStr azp" and "map_of AZP_ROUTES azp = Some (route, auth)"
  shows "build_evidence hs claims tp tp peer_tp
    = Inr (PDict (evidence_items azp route auth tp peer_tp hs claims))"
proof -
  have "ditem claims ''azp'' = Inr (PStr azp)"
    using assms(1) ditem_dget [OF dhas_if_dget, of claims "''azp''"] by simp
  then show ?thesis
    using assms(2) by (simp add: build_evidence_def evidence_items_def dmerge_disjoint routing_evidence_keys)
qed

section \<open>Requests for evidence\<close>

text \<open>The specification of a request that is entitled to evidence, with the claims it carries.\<close>

definition entitled ::
    "pop_config \<Rightarrow> ('k, 'z) pop_deps_scheme \<Rightarrow> headers \<Rightarrow> pydict \<Rightarrow> pystr \<Rightarrow> bytes \<Rightarrow> bool" where
  "entitled cfg deps hs claims azp der \<longleftrightarrow>
     (\<exists>token key scope cnf.
        bearer_token hs = Some token \<and> get_signing_key_from_jwt deps token = Inr key
        \<and> jwt_decode deps token key (token_request cfg) = Inr claims
        \<and> dget claims ''scope'' = PStr scope \<and> set (REQUIRED_SCOPES cfg) \<subseteq> set (py_split scope)
        \<and> dget claims ''azp'' = PStr azp \<and> map_of AZP_ROUTES azp \<noteq> None
        \<and> dget claims ''cnf'' = PDict cnf
        \<and> dget cnf ''x5t#S256'' = PStr (base64url_sha256 deps der) \<and> sha256 deps der \<noteq> []
        \<and> forwarded_client_certificate_der deps hs = Inr der)"

lemma base64url_Nil_iff: "base64url bs = [] \<longleftrightarrow> bs = []"
proof -
  have "length (base64url bs) = (4 * length bs + 2) div 3" using base64url_shape by blast
  moreover have "(4 * n + 2) div 3 = 0 \<longleftrightarrow> n = 0" for n :: nat by (cases n) auto
  ultimately show ?thesis by (metis length_0_conv)
qed

lemma credentials_iff:
  "(\<exists>token. bearer_token hs = Some token
      \<and> rbind (verify_access_token cfg deps token) (\<lambda>(claims, tp).
          rbind (verify_forwarded_certificate_binding deps hs tp) (\<lambda>fp. Inr (claims, tp, fp)))
        = Inr (claims, tp, fp)) \<longleftrightarrow>
   (\<exists>azp der. entitled cfg deps hs claims azp der \<and> tp = base64url_sha256 deps der \<and> fp = tp)"
  unfolding entitled_def
  by (auto simp: rbind_eq_Inr_iff verify_access_token_iff verify_binding_iff require_scopes_iff
      require_azp_iff confirmation_thumbprint_iff base64url_sha256_def
      base64url_Nil_iff split: prod.splits)

lemma do_GET_entitled:
  assumes peer: "pinned_peer deps pin (Inr (Some p))" and path: "path req = lit ''/evidence''"
    and ent: "entitled cfg deps (req_headers req) claims azp der"
    and route: "map_of AZP_ROUTES azp = Some (route, auth)"
  shows "do_GET cfg deps pin (Inr (Some p)) req =
    json_response (floats deps) 200
      (PDict (evidence_items azp route auth (base64url_sha256 deps der) (base64url_sha256 deps p)
        (req_headers req) claims)) []"
proof -
  let ?tp = "base64url_sha256 deps der"
  have gate: "rbind (Inr (Some p)) (\<lambda>q. verify_api_gateway_peer deps q pin)
      = Inr (base64url_sha256 deps p)"
    using peer verify_api_gateway_peer_iff [of "Inr (Some p)" deps pin] by simp
  obtain token where token: "bearer_token (req_headers req) = Some token"
    and creds: "rbind (verify_access_token cfg deps token) (\<lambda>(claims, tp).
          rbind (verify_forwarded_certificate_binding deps (req_headers req) tp)
            (\<lambda>fp. Inr (claims, tp, fp))) = Inr (claims, ?tp, ?tp)"
    using credentials_iff [of "req_headers req" cfg deps claims ?tp ?tp] ent by auto
  have "dget claims ''azp'' = PStr azp" using ent by (auto simp: entitled_def)
  note evidence = build_evidence_eq [OF this route]
  show ?thesis by (simp add: do_GET_def gate path token creds evidence del: rbind_Inr)
qed

lemma entitled_grants:
  assumes "pinned_peer deps pin peer" "path req = lit ''/evidence''"
    "entitled cfg deps (req_headers req) claims azp der"
  shows "status (do_GET cfg deps pin peer req) = 200"
proof -
  obtain p where p: "peer = Inr (Some p)" using assms(1) by (rule pinned_peerE)
  obtain route auth where route: "map_of AZP_ROUTES azp = Some (route, auth)"
    using assms(3) by (auto simp: entitled_def)
  show ?thesis
    using do_GET_entitled [OF assms(1)[unfolded p] assms(2,3) route] p
    by (simp add: json_response_def Let_def)
qed

text \<open>The reasons a refused credential is answered with: all of them fixed texts.\<close>

definition SAFE_REASONS :: "string list" where
  "SAFE_REASONS =
     [''untrusted API Gateway peer'', ''missing bearer token'', ''invalid credentials'',
      ''JWT validation failed'', ''required scope is missing'', ''authorized party is invalid'',
      ''certificate binding is missing'', ''certificate binding mismatch'',
      ''forwarded client certificate is missing or ambiguous'',
      ''forwarded client certificate is invalid'']"

lemma invalid_token_not_200 [simp]: "status (invalid_token fc r) = 401"
  by (simp add: invalid_token_def json_response_def Let_def)

lemma json_response_status [simp]: "status (json_response fc code v hs) = code"
  by (simp add: json_response_def Let_def)

text \<open>The x509 parser does not raise this module's own exception class.\<close>

definition foreign_pem_errors :: "('k, 'z) pop_deps_scheme \<Rightarrow> bool" where
  "foreign_pem_errors deps \<longleftrightarrow> (\<forall>pem m. load_pem_x509 deps pem \<noteq> Inl (TokenValidationError m))"

lemma forwarded_error:
  "forwarded_client_certificate_der deps hs = Inl (TokenValidationError m) \<Longrightarrow>
   foreign_pem_errors deps \<Longrightarrow>
   m \<in> lit ` {''forwarded client certificate is missing or ambiguous'',
               ''forwarded client certificate is invalid''}"
  unfolding forwarded_client_certificate_der_def foreign_pem_errors_def
  by (auto simp: rbind_eq_Inl_iff recast_if_def ascii_encode_def Let_def
      split: option.splits if_splits sum.splits)

lemma credentials_error:
  assumes "rbind (verify_access_token cfg deps token) (\<lambda>(claims, tp).
          rbind (verify_forwarded_certificate_binding deps hs tp) (\<lambda>fp. Inr (claims, tp, fp)))
        = Inl (TokenValidationError m)"
    and pem: "foreign_pem_errors deps"
  shows "m \<in> lit ` set SAFE_REASONS"
proof -
  have safe: "m \<in> lit ` set SAFE_REASONS" if "m \<in> lit ` X" "X \<subseteq> set SAFE_REASONS" for X
    using that by blast
  from assms(1) consider
      (tok) "verify_access_token cfg deps token = Inl (TokenValidationError m)"
    | (fwd) "forwarded_client_certificate_der deps hs = Inl (TokenValidationError m)"
    | (bind) "m = lit ''certificate binding mismatch''"
    by (auto simp: rbind_eq_Inl_iff verify_forwarded_certificate_binding_def Let_def
        split: prod.splits if_splits)
  then show ?thesis
  proof cases
    case tok
    then show ?thesis using verify_access_token_error [OF tok] by (auto simp: SAFE_REASONS_def)
  next
    case fwd
    then show ?thesis using forwarded_error [OF fwd pem] by (auto simp: SAFE_REASONS_def)
  next
    case bind
    then show ?thesis by (simp add: SAFE_REASONS_def)
  qed
qed

lemma do_GET_evidence_cases:
  assumes pinned: "pinned_peer deps pin peer" and path: "path req = lit ''/evidence''"
  shows "(\<exists>reason. do_GET cfg deps pin peer req = invalid_token (floats deps) reason
            \<and> (foreign_pem_errors deps \<longrightarrow> reason \<in> lit ` set SAFE_REASONS))
    \<or> (\<exists>claims azp der. entitled cfg deps (req_headers req) claims azp der)"
proof -
  let ?hs = "req_headers req"
  let ?creds = "\<lambda>token. rbind (verify_access_token cfg deps token) (\<lambda>(claims, tp).
          rbind (verify_forwarded_certificate_binding deps ?hs tp) (\<lambda>fp. Inr (claims, tp, fp)))"
  obtain t where gate: "rbind peer (\<lambda>q. verify_api_gateway_peer deps q pin) = Inr t"
    using pinned verify_api_gateway_peer_iff pinned_peerE by metis
  note GET = do_GET_def gate path
  consider (none) "bearer_token ?hs = None"
    | (ok) token r where "bearer_token ?hs = Some token" "?creds token = Inr r"
    | (bad) token e where "bearer_token ?hs = Some token" "?creds token = Inl e"
  proof (cases "bearer_token ?hs")
    case (Some token)
    then show thesis using that by (cases "?creds token") auto
  qed
  then show ?thesis
  proof cases
    case none
    then show ?thesis by (auto simp: GET SAFE_REASONS_def)
  next
    case ok
    obtain claims tp fp where "r = (claims, tp, fp)" by (cases r)
    then have "\<exists>azp der. entitled cfg deps ?hs claims azp der"
      using ok credentials_iff [of ?hs cfg deps claims tp fp] by blast
    then show ?thesis by blast
  next
    case bad
    have "foreign_pem_errors deps \<longrightarrow> refusal_reason e \<in> lit ` set SAFE_REASONS"
      using credentials_error [of cfg deps token ?hs] bad(2) by (cases e) (auto simp: SAFE_REASONS_def)
    then show ?thesis using bad by (auto simp: GET)
  qed
qed

text \<open>The four outcomes of a \<open>GET\<close> request.\<close>

lemma do_GET_cases:
  obtains (refused) reason where "do_GET cfg deps pin peer req = invalid_token (floats deps) reason"
      "foreign_pem_errors deps \<longrightarrow> reason \<in> lit ` set SAFE_REASONS"
  | (health) "pinned_peer deps pin peer" "path req = lit ''/healthz''"
      "do_GET cfg deps pin peer req = json_response (floats deps) 200 (PDict [(K ''status'', S ''ok'')]) []"
  | (missing) "pinned_peer deps pin peer" "path req \<notin> {lit ''/healthz'', lit ''/evidence''}"
      "do_GET cfg deps pin peer req
       = json_response (floats deps) 404 (PDict [(K ''error'', S ''not_found'')]) []"
  | (granted) claims azp der where "pinned_peer deps pin peer"
      "path req = lit ''/evidence''" "entitled cfg deps (req_headers req) claims azp der"
proof (cases "pinned_peer deps pin peer")
  case False
  then show thesis
    by (intro refused [of "lit ''untrusted API Gateway peer''"]) (simp_all add: do_GET_untrusted SAFE_REASONS_def)
next
  case True
  obtain t where gate: "rbind peer (\<lambda>q. verify_api_gateway_peer deps q pin) = Inr t"
    using True verify_api_gateway_peer_iff pinned_peerE by metis
  consider "path req = lit ''/healthz''" | "path req \<notin> {lit ''/healthz'', lit ''/evidence''}"
    | "path req = lit ''/evidence''" by blast
  then show thesis
  proof cases
    case 1
    then show thesis using True gate by (intro health) (simp_all add: do_GET_def)
  next
    case 2
    then show thesis using True gate by (intro missing) (simp_all add: do_GET_def)
  next
    case 3
    then show thesis using do_GET_evidence_cases [OF True 3] refused granted [OF True 3] by blast
  qed
qed

section \<open>Properties\<close>

text \<open>
  C2: Whatever a client sends, in whatever number of requests, methods or malformed request lines,
  it gets nothing but the fixed refusal unless its TLS certificate is byte for byte the pinned one
  and names the API gateway.
\<close>

theorem pop_untrusted_peer_denied:
  assumes "\<not> pinned_peer deps pin peer"
  shows "map (handle cfg deps pin peer) rs
    = replicate (length rs) (invalid_token (floats deps) (lit ''untrusted API Gateway peer''))"
  using pop.session_denied [OF assms, of cfg rs] by (simp add: comp_def)

text \<open>
  C1: A request for evidence is answered with status 200 exactly when the peer is the pinned
  gateway, the bearer token decodes under the configured audience, issuer and algorithms, carries
  the required scopes, an authorized party of the table, and a confirmation thumbprint that is the
  one of the single client certificate the gateway forwarded.
\<close>

theorem pop_evidence_iff:
  assumes "path req = lit ''/evidence''"
  shows "status (do_GET cfg deps pin peer req) = 200 \<longleftrightarrow>
    pinned_peer deps pin peer
    \<and> (\<exists>token key claims scope azp cnf der.
        bearer_token (req_headers req) = Some token \<and> get_signing_key_from_jwt deps token = Inr key
        \<and> jwt_decode deps token key (token_request cfg) = Inr claims
        \<and> dget claims ''scope'' = PStr scope \<and> set (REQUIRED_SCOPES cfg) \<subseteq> set (py_split scope)
        \<and> dget claims ''azp'' = PStr azp \<and> map_of AZP_ROUTES azp \<noteq> None
        \<and> dget claims ''cnf'' = PDict cnf
        \<and> dget cnf ''x5t#S256'' = PStr (base64url_sha256 deps der) \<and> sha256 deps der \<noteq> []
        \<and> forwarded_client_certificate_der deps (req_headers req) = Inr der)" (is "_ = ?spec")
proof -
  have spec: "?spec \<longleftrightarrow> pinned_peer deps pin peer
      \<and> (\<exists>claims azp der. entitled cfg deps (req_headers req) claims azp der)"
    unfolding entitled_def by blast
  show ?thesis
  proof (rule do_GET_cases [of cfg deps pin peer req], goal_cases refused health missing granted)
    case (refused reason)
    then have "\<not> ?spec" unfolding spec using entitled_grants [OF _ assms] by fastforce
    then show ?thesis by (simp add: refused)
  next
    case (granted claims azp der)
    then show ?thesis unfolding spec using entitled_grants [OF _ assms] by blast
  qed (use assms in simp_all)
qed

lemma safe_text_iff:
  "safe_evidence_text v = PStr s \<longleftrightarrow> v = PStr s \<and> length s \<le> 256"
  by (cases v) (auto simp: safe_evidence_text_def)

lemma safe_text_cases:
  "safe_evidence_text v = PNone \<or> (\<exists>s. safe_evidence_text v = PStr s)"
  by (cases v) (auto simp: safe_evidence_text_def)

lemma opt_text_PStr_iff: "opt_text h = PStr s \<longleftrightarrow> h = Some s"
  by (cases h) auto

lemma safe_text_true_iff: "py_true (safe_evidence_text v) \<longleftrightarrow> (\<exists>s. safe_evidence_text v = PStr s \<and> s \<noteq> [])"
  using safe_text_cases [of v] by auto

lemma matched_pair_iff:
  "py_true (safe_evidence_text c) \<and> py_true (safe_evidence_text (opt_text h))
     \<and> constant_time_text_equal (safe_evidence_text c) (safe_evidence_text (opt_text h)) \<longleftrightarrow>
   (\<exists>s. c = PStr s \<and> h = Some s \<and> s \<noteq> [] \<and> length s \<le> 256 \<and> list_all is_scalar s)" (is "?l = ?r")
proof
  assume ?l
  then obtain s t where "safe_evidence_text c = PStr s" "safe_evidence_text (opt_text h) = PStr t"
    "s \<noteq> []" "constant_time_text_equal (PStr s) (PStr t)"
    by (auto simp: safe_text_true_iff)
  then show ?r by (auto simp: safe_text_iff opt_text_PStr_iff constant_time_text_equal_iff)
next
  assume ?r
  then obtain s where "safe_evidence_text c = PStr s" "safe_evidence_text (opt_text h) = PStr s"
    "s \<noteq> []" "list_all is_scalar s"
    using safe_text_iff by fastforce
  then show ?l by (simp add: constant_time_text_equal_iff)
qed

text \<open>
  What a reader of the evidence may expect of a routing field, stated on the texts of the token and
  of the gateway's headers: the text itself when it has at most 256 characters, and \<open>None\<close> for
  anything else; a claim and a header agree when they are the same non-empty short text, and that
  text encodes to UTF-8.
\<close>

definition claim_text :: "pydict \<Rightarrow> string \<Rightarrow> pystr option" where
  "claim_text claims name = (case dget claims name of PStr s \<Rightarrow> Some s | _ \<Rightarrow> None)"

definition shown_text :: "pystr option \<Rightarrow> pyval" where
  "shown_text t = (case t of None \<Rightarrow> PNone | Some s \<Rightarrow> if 256 < length s then PNone else PStr s)"

definition agreed_text :: "pystr option \<Rightarrow> pystr option \<Rightarrow> bool" where
  "agreed_text c h \<longleftrightarrow> (case c of None \<Rightarrow> False
     | Some s \<Rightarrow> h = Some s \<and> s \<noteq> [] \<and> length s \<le> 256 \<and> list_all is_scalar s)"

lemma safe_claim_shown: "safe_evidence_text (dget claims name) = shown_text (claim_text claims name)"
  by (auto simp: safe_evidence_text_def shown_text_def claim_text_def split: pyval.splits)

lemma safe_header_shown: "safe_evidence_text (opt_text h) = shown_text h"
  by (cases h) (auto simp: safe_evidence_text_def shown_text_def)

lemma agreed_text_iff:
  "agreed_text (claim_text claims name) h \<longleftrightarrow>
     (\<exists>s. dget claims name = PStr s \<and> h = Some s \<and> s \<noteq> [] \<and> length s \<le> 256 \<and> list_all is_scalar s)"
  by (auto simp: agreed_text_def claim_text_def split: pyval.splits option.splits)

lemma routing_evidence_items:
  "routing_evidence hs claims =
     [(K ''department'', shown_text (claim_text claims DEPARTMENT_CLAIM)),
      (K ''logical_route'', shown_text (claim_text claims ROUTE_CLAIM)),
      (K ''department_header'', shown_text (get_header hs ''X-Demo-Department'')),
      (K ''logical_route_header'', shown_text (get_header hs ''X-Demo-Route'')),
      (K ''header_claims_match'', PBool
         (agreed_text (claim_text claims DEPARTMENT_CLAIM) (get_header hs ''X-Demo-Department'')
          \<and> agreed_text (claim_text claims ROUTE_CLAIM) (get_header hs ''X-Demo-Route'')))]"
  unfolding agreed_text_iff matched_pair_iff [symmetric]
  unfolding safe_claim_shown [symmetric] unfolding safe_header_shown [symmetric]
  by (auto simp: routing_evidence_def Let_def)

text \<open>
  C3: The evidence of a granted request, field by field: the authorized party with its route and
  authentication method from the table, the thumbprint of the forwarded certificate as token and as
  client thumbprint, the thumbprint of the pinned gateway certificate, the two verification flags,
  the department and the route of the token and of the gateway's headers (a text of at most 256
  characters, or \<open>None\<close>), and \<open>header_claims_match\<close>, which is true exactly when both claims are
  non-empty, at most 256 characters long, encode to UTF-8 and are the texts of the two headers.
\<close>

theorem pop_evidence_document:
  assumes "pinned_peer deps pin (Inr (Some p))" "path req = lit ''/evidence''"
    "entitled cfg deps (req_headers req) claims azp der"
  shows "\<exists>route auth. map_of AZP_ROUTES azp = Some (route, auth)
    \<and> do_GET cfg deps pin (Inr (Some p)) req = json_response (floats deps) 200
        (PDict [(K ''azp'', PStr azp), (K ''route'', S route), (K ''client_authentication'', S auth),
          (K ''token_certificate_thumbprint'', PStr (base64url_sha256 deps der)),
          (K ''forwarded_client_certificate_thumbprint'', PStr (base64url_sha256 deps der)),
          (K ''api_gateway_tls_peer_certificate_thumbprint'', PStr (base64url_sha256 deps p)),
          (K ''token_signature_verified'', PBool True), (K ''binding_verified'', PBool True),
          (K ''department'', shown_text (claim_text claims DEPARTMENT_CLAIM)),
          (K ''logical_route'', shown_text (claim_text claims ROUTE_CLAIM)),
          (K ''department_header'', shown_text (get_header (req_headers req) ''X-Demo-Department'')),
          (K ''logical_route_header'', shown_text (get_header (req_headers req) ''X-Demo-Route'')),
          (K ''header_claims_match'', PBool
             (agreed_text (claim_text claims DEPARTMENT_CLAIM)
                (get_header (req_headers req) ''X-Demo-Department'')
              \<and> agreed_text (claim_text claims ROUTE_CLAIM)
                (get_header (req_headers req) ''X-Demo-Route'')))]) []"
proof -
  obtain route auth where route: "map_of AZP_ROUTES azp = Some (route, auth)"
    using assms(3) by (auto simp: entitled_def)
  show ?thesis
    using do_GET_entitled [OF assms route] route by (simp add: evidence_items_def routing_evidence_items)
qed

text \<open>
  \<open>header_claims_match\<close> is true exactly when both the department and the route claim are
  non-empty texts of at most 256 characters that encode to UTF-8 and the gateway's two headers
  carry the same texts.
\<close>

theorem pop_header_claims_match_iff:
  "dget (routing_evidence hs claims) ''header_claims_match'' = PBool True \<longleftrightarrow>
     (\<exists>department. dget claims DEPARTMENT_CLAIM = PStr department
        \<and> get_header hs ''X-Demo-Department'' = Some department \<and> department \<noteq> []
        \<and> length department \<le> 256 \<and> list_all is_scalar department)
     \<and> (\<exists>route. dget claims ROUTE_CLAIM = PStr route \<and> get_header hs ''X-Demo-Route'' = Some route
        \<and> route \<noteq> [] \<and> length route \<le> 256 \<and> list_all is_scalar route)"
  unfolding matched_pair_iff [symmetric]
  by (auto simp: routing_evidence_def Let_def dict_simps)

text \<open>
  C4: Every refused \<open>GET\<close> carries one of ten fixed reasons and the \<open>WWW-Authenticate\<close> challenge;
  no text of the token, of the headers or of a library error reaches the client.
\<close>

theorem pop_refusals_sanitized:
  assumes "foreign_pem_errors deps" "status (do_GET cfg deps pin peer req) = 401"
  shows "\<exists>reason \<in> set SAFE_REASONS. do_GET cfg deps pin peer req
    = json_response (floats deps) 401
        (PDict [(K ''error'', S ''invalid_token''), (K ''reason'', S reason)])
        [(lit ''WWW-Authenticate'', lit ''Bearer error=\"invalid_token\"'')]"
  using assms
proof (cases rule: do_GET_cases [of cfg deps pin peer req, case_names refused health missing granted])
  case (refused reason)
  then show ?thesis using assms(1) by (auto simp: invalid_token_def)
next
  case (granted claims azp der)
  then show ?thesis using entitled_grants [OF granted] assms(2) by simp
qed simp_all

lemma quote_all_ascii: "list_all (\<lambda>c. c < 128) (quote_all bs)"
proof -
  have "hex_digit n < 128" if "n < 16" for n using that by (simp add: hex_digit_def)
  then show ?thesis by (induction bs) simp_all
qed

lemma quote_all_no_comma: "44 \<notin> set (quote_all bs)"
proof -
  have "hex_digit n \<noteq> 44" if "n < 16" for n using that by (simp add: hex_digit_def)
  then have "44 \<noteq> hex_digit n" if "n < 16" for n using that by metis
  then show ?thesis by (induction bs) simp_all
qed

lemma length_quote_all: "length (quote_all bs) = 3 * length bs"
  by (induction bs) simp_all

text \<open>
  Round trip of the forwarded certificate: a single PEM block that the gateway percent-encodes
  into one \<open>X-Client-Cert\<close> header is recovered, for PEM texts of up to 8192 bytes.
\<close>

theorem forwarded_certificate_roundtrip:
  assumes "one_pem_block pem" "length pem \<le> 8192" "load_pem_x509 deps pem = Inr c"
    and "get_all hs ''X-Client-Cert'' = Some [quote_all pem]"
  shows "forwarded_client_certificate_der deps hs = Inr (cert_der c)"
proof -
  have "pem \<noteq> []" using assms(1) by (auto simp: one_pem_block_def starts_with_def PEM_CERTIFICATE_BEGIN_def)
  then have "quote_all pem \<noteq> []" using length_quote_all [of pem] by auto
  then show ?thesis
    unfolding forwarded_client_certificate_der_iff
    using assms by (simp add: length_quote_all quote_all_ascii quote_all_no_comma quote_all_not_bad
        unquote_quote_all)
qed

text \<open>
  The module loads exactly in the environments that leave the audience fixed, require the
  \<open>openid\<close> scope and allow the algorithm PS256 alone; a loaded configuration says so.
\<close>

theorem load_config_iff:
  "(\<exists>cfg. load_config env = Inr cfg) \<longleftrightarrow>
     env_get env ''OIDC_AUDIENCE'' ''fapi-demo-api'' = lit ''fapi-demo-api''
     \<and> lit ''openid'' \<in> set (py_split (env_get env ''OIDC_REQUIRED_SCOPES'' ''openid''))
     \<and> py_split (env_get env ''OIDC_ALLOWED_ALGORITHMS'' ''PS256'') = [lit ''PS256'']"
proof -
  have "filter (\<lambda>w. w \<noteq> []) (py_split t) = py_split t" for t
    using py_split_word by (auto simp: filter_id_conv)
  then show ?thesis
    by (auto simp: load_config_def Let_def rbind_eq_Inr_iff raise_if_eq_Inr_iff)
qed

lemma load_config_guards:
  "load_config env = Inr cfg \<Longrightarrow>
   AUDIENCE cfg = lit ''fapi-demo-api'' \<and> lit ''openid'' \<in> set (REQUIRED_SCOPES cfg)
   \<and> ALLOWED_ALGORITHMS cfg = [lit ''PS256'']"
  by (auto simp: load_config_def Let_def rbind_eq_Inr_iff raise_if_eq_Inr_iff)

text \<open>
  Under a loaded configuration every token is decoded for the fixed audience, with PS256
  alone, with the seven claims required and the \<open>nbf\<close> check on; and a token without the
  \<open>openid\<close> scope is never accepted.
\<close>

theorem pop_token_request_fixed:
  assumes "load_config env = Inr cfg" "verify_access_token cfg deps token = Inr (claims, tp)"
  shows "\<exists>key scope. jwt_decode deps token key
      \<lparr>algorithms = [lit ''PS256''], audience = lit ''fapi-demo-api'', issuer = ISSUER cfg,
       require = [''exp'', ''iat'', ''iss'', ''aud'', ''cnf'', ''scope'', ''azp''], verify_nbf = True\<rparr>
      = Inr claims
    \<and> dget claims ''scope'' = PStr scope \<and> lit ''openid'' \<in> set (py_split scope)"
proof -
  note cfg = load_config_guards [OF assms(1)]
  then have "token_request cfg = \<lparr>algorithms = [lit ''PS256''], audience = lit ''fapi-demo-api'',
      issuer = ISSUER cfg, require = [''exp'', ''iat'', ''iss'', ''aud'', ''cnf'', ''scope'', ''azp''],
      verify_nbf = True\<rparr>"
    by (simp add: token_request_def)
  then show ?thesis
    using assms(2) cfg by (auto simp: verify_access_token_iff require_scopes_iff)
qed

text \<open>
  A server that starts from the files pins a certificate whose only common name is the API
  gateway's and whose key usage includes client authentication, and its TLS context demands a
  client certificate from the configured CA.
\<close>

theorem pop_server_start:
  assumes "create_server cfg deps fs env None None = Inr srv"
  shows "(\<exists>pem c usages. read_bytes deps (API_UPSTREAM_CERT_FILE cfg) = Inr pem
      \<and> load_pem_x509 deps pem = Inr c \<and> common_names c = [lit ''api-gateway-upstream'']
      \<and> ext_key_usage c = Inr usages \<and> lit ''1.3.6.1.5.5.7.3.2'' \<in> set usages
      \<and> pinned_gateway_peer_der srv = cert_der c)
    \<and> verify_mode (server_context srv) = CERT_REQUIRED
    \<and> anchors (server_context srv) = [CaFile (env_get env ''TLS_CA_FILE'' ''/etc/fapi/ca.crt'')]"
proof -
  from assms obtain pin ctx where
    pin: "load_pinned_gateway_certificate deps (API_UPSTREAM_CERT_FILE cfg) = Inr pin"
    and ctx: "create_server_context fs env = Inr ctx"
    and srv: "srv = \<lparr>pinned_gateway_peer_der = pin, server_context = ctx\<rparr>"
    by (auto simp: create_server_def rbind_eq_Inr_iff)
  have "verify_mode ctx = CERT_REQUIRED
      \<and> anchors ctx = [CaFile (env_get env ''TLS_CA_FILE'' ''/etc/fapi/ca.crt'')]"
    using ctx by (auto simp: create_server_context_def verified_ssl_context_def
        create_default_context_def load_verify_locations_def load_cert_chain_def rbind_eq_Inr_iff)
  then show ?thesis
    using pin srv by (auto simp: load_pinned_gateway_certificate_def rbind_eq_Inr_iff recast_if_eq_Inr_iff
        certificate_common_name_iff API_UPSTREAM_COMMON_NAME_def CLIENT_AUTH_OID_def split: if_splits)
qed

section \<open>A concrete deployment\<close>

text \<open>
  A concrete instance of the external operations: a constant digest, parsers that accept
  everything, and one token. The applications of the theorems below evaluate the handler on it.
\<close>

definition demo_digest :: bytes where
  "demo_digest = replicate 32 (CHR ''k'')"

definition demo_pem :: bytes where
  "demo_pem = ''-----BEGIN CERTIFICATE-----MA==-----END CERTIFICATE-----''"

definition demo_claims :: pydict where
  "demo_claims =
     [(K ''scope'', S ''openid profile''), (K ''azp'', S ''third-party-fapi-mtls''),
      (K ''cnf'', PDict [(K ''x5t#S256'', PStr (base64url demo_digest))]),
      (K DEPARTMENT_CLAIM, S ''payments''), (K ROUTE_CLAIM, S ''route-a'')]"

definition demo_floats :: float_codec where
  "demo_floats = \<lparr>of_text = (\<lambda>_. FNan), to_text = (\<lambda>_. lit ''NaN'')\<rparr>"

definition demo_cert :: "bytes \<Rightarrow> cert" where
  "demo_cert der =
     \<lparr>cert_der = der, common_names = [lit ''api-gateway-upstream''],
      ext_key_usage = Inr [lit ''1.3.6.1.5.5.7.3.2'']\<rparr>"

definition demo_deps :: "unit pop_deps" where
  "demo_deps =
     \<lparr>sha256 = (\<lambda>_. demo_digest),
      load_pem_x509 = (\<lambda>pem. Inr (demo_cert ''leaf'')),
      load_der_x509 = (\<lambda>der. Inr (demo_cert der)),
      read_bytes = (\<lambda>_. Inr demo_pem),
      get_signing_key_from_jwt = (\<lambda>_. Inr ()),
      jwt_decode = (\<lambda>token _ _. if token = lit ''t'' then Inr demo_claims else Inl (ValueError [])),
      floats = demo_floats\<rparr>"

definition demo_env :: environ where
  "demo_env = (\<lambda>_. None)"

definition demo_config :: pop_config where
  "demo_config =
     \<lparr>ISSUER = lit ''https://localhost:8444/realms/fapi-demo'', AUDIENCE = lit ''fapi-demo-api'',
      JWKS_URL = lit ''https://keycloak:8443/realms/fapi-demo/protocol/openid-connect/certs'',
      REQUIRED_SCOPES = [lit ''openid''], ALLOWED_ALGORITHMS = [lit ''PS256''],
      API_UPSTREAM_CERT_FILE = lit ''/etc/fapi/api-upstream.crt''\<rparr>"

definition demo_headers :: headers where
  "demo_headers =
     [(lit ''authorization'', lit ''Bearer t''), (lit ''X-Client-Cert'', quote_all demo_pem),
      (lit ''X-Demo-Department'', lit ''payments''), (lit ''X-Demo-Route'', lit ''route-a'')]"

definition demo_request :: "string \<Rightarrow> request" where
  "demo_request target = \<lparr>command = lit ''GET'', path = lit target, req_headers = demo_headers\<rparr>"

definition demo_files :: tls_files where
  "demo_files = \<lparr>load_ca = (\<lambda>_. Inr ()), load_pair = (\<lambda>_ _. Inr ())\<rparr>"

lemmas demo_defs =
  demo_deps_def demo_cert_def demo_config_def demo_request_def demo_files_def demo_env_def

lemma demo_pinned: "pinned_peer demo_deps (Some ''gw'') (Inr (Some ''gw''))"
  by (simp add: demo_defs API_UPSTREAM_COMMON_NAME_def)

lemma demo_client_header: "get_all demo_headers ''X-Client-Cert'' = Some [quote_all demo_pem]"
  by (simp add: get_all_def demo_headers_def py_lower_def latin1_lower_def lit_def del: quote_all_simps)

lemma demo_bearer: "bearer_token demo_headers = Some (lit ''t'')"
proof -
  have "get_all demo_headers ''Authorization'' = Some [lit ''Bearer t'']"
    by (simp add: get_all_def demo_headers_def py_lower_def latin1_lower_def lit_def del: quote_all_simps)
  then show ?thesis
    by (simp add: bearer_token_def py_partition_def py_lower_def latin1_lower_def lit_def)
qed

lemma demo_one_block: "one_pem_block demo_pem"
  by code_simp

lemma demo_forwarded: "forwarded_client_certificate_der demo_deps demo_headers = Inr ''leaf''"
  unfolding forwarded_client_certificate_der_iff
  by (simp add: demo_client_header demo_one_block unquote_quote_all quote_all_ascii quote_all_no_comma
      quote_all_not_bad length_quote_all) (simp add: demo_defs demo_pem_def)

lemma demo_scope: "py_split (lit ''openid profile'') = [lit ''openid'', lit ''profile'']"
  by (simp add: py_split_def lit_def py_isspace_def)

lemma demo_entitled:
  "entitled demo_config demo_deps demo_headers demo_claims (lit ''third-party-fapi-mtls'') ''leaf''"
  unfolding entitled_def
  by (simp add: demo_bearer demo_forwarded)
    (simp add: demo_defs demo_claims_def dict_simps demo_scope AZP_ROUTES_def base64url_sha256_def
      demo_digest_def)

theorem pop_untrusted_peer_denied_witness:
  "map (handle demo_config demo_deps (Some ''gw'') (Inr (Some ''other'')))
     [Parsed (demo_request ''/evidence''), Malformed 400]
   = replicate 2 (invalid_token demo_floats (lit ''untrusted API Gateway peer''))"
proof -
  have "\<not> pinned_peer demo_deps (Some ''gw'') (Inr (Some ''other''))" by simp
  from pop_untrusted_peer_denied [OF this, of demo_config "[Parsed (demo_request ''/evidence''), Malformed 400]"]
  show ?thesis by (simp add: demo_deps_def numeral_2_eq_2 del: handle.simps)
qed

theorem pop_evidence_iff_witness:
  "status (do_GET demo_config demo_deps (Some ''gw'') (Inr (Some ''gw'')) (demo_request ''/evidence'')) = 200"
proof -
  have path: "path (demo_request ''/evidence'') = lit ''/evidence''" by (simp add: demo_request_def)
  have hs: "req_headers (demo_request ''/evidence'') = demo_headers" by (simp add: demo_request_def)
  show ?thesis
    using pop_evidence_iff [OF path, of demo_config demo_deps "Some ''gw''" "Inr (Some ''gw'')"]
      demo_pinned demo_entitled unfolding hs entitled_def by blast
qed

lemma demo_routing_texts:
  "claim_text demo_claims DEPARTMENT_CLAIM = Some (lit ''payments'')"
  "claim_text demo_claims ROUTE_CLAIM = Some (lit ''route-a'')"
  by (simp_all add: claim_text_def demo_claims_def dict_simps DEPARTMENT_CLAIM_def ROUTE_CLAIM_def)

lemma demo_routing_headers:
  "get_header demo_headers ''X-Demo-Department'' = Some (lit ''payments'')"
  "get_header demo_headers ''X-Demo-Route'' = Some (lit ''route-a'')"
  by (simp_all add: get_header_def get_all_def demo_headers_def py_lower_def latin1_lower_def lit_def
      del: quote_all_simps)

theorem pop_evidence_document_witness:
  "\<exists>route auth. map_of AZP_ROUTES (lit ''third-party-fapi-mtls'') = Some (route, auth)
    \<and> do_GET demo_config demo_deps (Some ''gw'') (Inr (Some ''gw'')) (demo_request ''/evidence'')
      = json_response demo_floats 200
        (PDict [(K ''azp'', S ''third-party-fapi-mtls''), (K ''route'', S route),
          (K ''client_authentication'', S auth),
          (K ''token_certificate_thumbprint'', PStr (base64url demo_digest)),
          (K ''forwarded_client_certificate_thumbprint'', PStr (base64url demo_digest)),
          (K ''api_gateway_tls_peer_certificate_thumbprint'', PStr (base64url demo_digest)),
          (K ''token_signature_verified'', PBool True), (K ''binding_verified'', PBool True),
          (K ''department'', S ''payments''), (K ''logical_route'', S ''route-a''),
          (K ''department_header'', S ''payments''), (K ''logical_route_header'', S ''route-a''),
          (K ''header_claims_match'', PBool True)]) []"
proof -
  have hs: "req_headers (demo_request t) = demo_headers" "path (demo_request t) = lit t" for t
    by (simp_all add: demo_request_def)
  have ext: "base64url_sha256 demo_deps x = base64url demo_digest" "floats demo_deps = demo_floats" for x
    by (simp_all add: base64url_sha256_def demo_deps_def)
  have texts: "shown_text (Some (lit ''payments'')) = S ''payments''" "shown_text (Some (lit ''route-a'')) = S ''route-a''"
    "agreed_text (Some (lit ''payments'')) (Some (lit ''payments''))"
    "agreed_text (Some (lit ''route-a'')) (Some (lit ''route-a''))"
    by (simp_all add: shown_text_def agreed_text_def lit_def is_scalar_def is_surrogate_def)
  show ?thesis
    using pop_evidence_document [of demo_deps "Some ''gw''" "''gw''" "demo_request ''/evidence''" demo_config
        demo_claims "lit ''third-party-fapi-mtls''" "''leaf''", OF demo_pinned]
    by (simp add: hs ext demo_entitled demo_routing_texts demo_routing_headers texts)
qed

theorem pop_refusals_sanitized_witness:
  "\<exists>reason \<in> set SAFE_REASONS. do_GET demo_config demo_deps (Some ''gw'') (Inr None) (demo_request ''/evidence'')
    = json_response demo_floats 401
        (PDict [(K ''error'', S ''invalid_token''), (K ''reason'', S reason)])
        [(lit ''WWW-Authenticate'', lit ''Bearer error=\"invalid_token\"'')]"
proof -
  have "foreign_pem_errors demo_deps" by (simp add: foreign_pem_errors_def demo_deps_def)
  moreover have "status (do_GET demo_config demo_deps (Some ''gw'') (Inr None) (demo_request ''/evidence'')) = 401"
    by (simp add: do_GET_untrusted)
  moreover have "floats demo_deps = demo_floats" by (simp add: demo_deps_def)
  ultimately show ?thesis
    using pop_refusals_sanitized [of demo_deps demo_config "Some ''gw''" "Inr None"] by metis
qed

theorem forwarded_certificate_roundtrip_witness:
  "forwarded_client_certificate_der demo_deps [(lit ''X-Client-Cert'', quote_all demo_pem)] = Inr ''leaf''"
proof -
  have "get_all [(lit ''X-Client-Cert'', quote_all demo_pem)] ''X-Client-Cert'' = Some [quote_all demo_pem]"
    by (simp add: get_all_def)
  then show ?thesis
    using forwarded_certificate_roundtrip [OF demo_one_block, of demo_deps "demo_cert ''leaf''"]
    by (simp add: demo_deps_def demo_cert_def demo_pem_def)
qed

lemma demo_load_config: "load_config demo_env = Inr demo_config"
proof -
  have "py_split (lit ''openid'') = [lit ''openid'']" "py_split (lit ''PS256'') = [lit ''PS256'']"
    by (simp_all add: py_split_def lit_def py_isspace_def)
  then show ?thesis by (simp add: load_config_def env_get_def demo_defs Let_def)
qed

theorem pop_token_request_fixed_witness:
  "\<exists>key scope. jwt_decode demo_deps (lit ''t'') key
      \<lparr>algorithms = [lit ''PS256''], audience = lit ''fapi-demo-api'',
       issuer = lit ''https://localhost:8444/realms/fapi-demo'',
       require = [''exp'', ''iat'', ''iss'', ''aud'', ''cnf'', ''scope'', ''azp''], verify_nbf = True\<rparr>
      = Inr demo_claims
    \<and> dget demo_claims ''scope'' = PStr scope \<and> lit ''openid'' \<in> set (py_split scope)"
proof -
  have "verify_access_token demo_config demo_deps (lit ''t'') = Inr (demo_claims, base64url demo_digest)"
    unfolding verify_access_token_iff
    by (simp add: require_scopes_iff require_azp_iff confirmation_thumbprint_iff)
      (simp add: demo_defs demo_claims_def dict_simps demo_scope AZP_ROUTES_def base64url_Nil_iff
        demo_digest_def)
  from pop_token_request_fixed [OF demo_load_config this]
  show ?thesis by (simp add: demo_config_def)
qed

theorem pop_server_start_witness:
  "\<exists>srv. create_server demo_config demo_deps demo_files demo_env None None = Inr srv
    \<and> verify_mode (server_context srv) = CERT_REQUIRED"
proof -
  obtain srv where srv: "create_server demo_config demo_deps demo_files demo_env None None = Inr srv"
    by (simp add: create_server_def load_pinned_gateway_certificate_def create_server_context_def
        verified_ssl_context_def create_default_context_def load_verify_locations_def
        load_cert_chain_def certificate_common_name_def demo_defs API_UPSTREAM_COMMON_NAME_def
        CLIENT_AUTH_OID_def Let_def)
  then show ?thesis using pop_server_start [OF srv] by blast
qed

end
