(* ===== verification/Third_Party_Backend.thy ===== *)
theory Third_Party_Backend
  imports Http_Service
begin

text \<open>
  The third-party backend, \<open>src/third-party-backend/app.py\<close>: a client behind the third-party Kong
  that calls one fixed API destination with the caller's token and the TLS identity of the
  requested route, and returns a projection of the evidence. The readiness side channel (a Unix
  socket with its server, its client and the status document) is modelled too.

  The network is a parameter: \<open>upstream\<close> maps a request to the response of \<open>http.client\<close> or the
  exception it raises. Files, SHA-256 and \<open>binascii\<close> are fields of \<open>backend_deps\<close>.
\<close>

section \<open>Constants\<close>

definition API_HOST :: string where "API_HOST = ''kong-api''"
definition API_PORT :: int where "API_PORT = 8443"
definition API_PATH :: string where "API_PATH = ''/fapi-api/evidence''"
definition MAX_RESPONSE_BYTES :: nat where "MAX_RESPONSE_BYTES = 16 * 1024"
definition MAX_TOKEN_BYTES :: nat where "MAX_TOKEN_BYTES = 8192"

type_synonym expected = "string \<times> string \<times> string"

definition ROUTES :: "(string \<times> expected) list" where
  "ROUTES =
     [(''/evidence/route-a'', (''route-a'', ''third-party-fapi-mtls'', ''tls_client_auth'')),
      (''/evidence/route-b'', (''route-b'', ''third-party-fapi-pkj-mtls'', ''private_key_jwt''))]"

definition TEXT_FIELDS :: "string list" where
  "TEXT_FIELDS = [''department'', ''logical_route'', ''department_header'', ''logical_route_header'']"

definition THUMBPRINT_FIELDS :: "string list" where
  "THUMBPRINT_FIELDS =
     [''token_certificate_thumbprint'', ''forwarded_client_certificate_thumbprint'',
      ''api_gateway_tls_peer_certificate_thumbprint'']"

definition VERIFICATION_FIELDS :: "string list" where
  "VERIFICATION_FIELDS = [''token_signature_verified'', ''binding_verified'', ''header_claims_match'']"

section \<open>TLS identities\<close>

record TLSFiles =
  ca :: pystr
  certificate :: pystr
  key :: pystr
  gateway_pin :: pystr
  route_a_certificate :: pystr
  route_a_key :: pystr
  route_b_certificate :: pystr
  route_b_key :: pystr

definition from_environment :: "environ \<Rightarrow> TLSFiles" where
  "from_environment env =
     \<lparr>ca = env_get env ''BACKEND_TLS_CA'' ''/etc/fapi/ca.crt'',
      certificate = env_get env ''BACKEND_TLS_CERTIFICATE'' ''/etc/fapi/tls.crt'',
      key = env_get env ''BACKEND_TLS_KEY'' ''/etc/fapi/tls.key'',
      gateway_pin = env_get env ''BACKEND_TLS_GATEWAY_PIN'' ''/etc/fapi/third-party-backend-hop.crt'',
      route_a_certificate = env_get env ''BACKEND_TLS_ROUTE_A_CERTIFICATE'' ''/etc/fapi/route-a.crt'',
      route_a_key = env_get env ''BACKEND_TLS_ROUTE_A_KEY'' ''/etc/fapi/route-a.key'',
      route_b_certificate = env_get env ''BACKEND_TLS_ROUTE_B_CERTIFICATE'' ''/etc/fapi/route-b.crt'',
      route_b_key = env_get env ''BACKEND_TLS_ROUTE_B_KEY'' ''/etc/fapi/route-b.key''\<rparr>"

record backend_deps =
  digest256 :: "bytes \<Rightarrow> bytes"
  read_ascii :: "pystr \<Rightarrow> pystr res"
  a2b_base64 :: "pystr \<Rightarrow> bytes res"
  tls :: tls_files
  json_floats :: float_codec
  recursion_limit :: nat
  decode_wide :: "bytes \<Rightarrow> pystr res"

text \<open>\<open>ssl.PEM_cert_to_DER_cert\<close>: header and footer, then base64 of what is between them.\<close>

definition PEM_HEADER :: pystr where "PEM_HEADER = lit ''-----BEGIN CERTIFICATE-----''"
definition PEM_FOOTER :: pystr where "PEM_FOOTER = lit ''-----END CERTIFICATE-----''"

definition PEM_cert_to_DER_cert :: "backend_deps \<Rightarrow> pystr \<Rightarrow> bytes res" where
  "PEM_cert_to_DER_cert deps pem =
     (if \<not> starts_with PEM_HEADER pem
      then raiseV ''Invalid PEM encoding; must start with -----BEGIN CERTIFICATE-----''
      else if \<not> ends_with PEM_FOOTER (py_strip pem)
      then raiseV ''Invalid PEM encoding; must end with -----END CERTIFICATE-----''
      else let d = py_strip pem;
               inner = drop (length PEM_HEADER) (take (length d - length PEM_FOOTER) d)
           in a2b_base64 deps inner)"

definition read_pin :: "backend_deps \<Rightarrow> pystr \<Rightarrow> bytes res" where
  "read_pin deps file = rbind (read_ascii deps file) (PEM_cert_to_DER_cert deps)"

definition verified_context :: "backend_deps \<Rightarrow> purpose \<Rightarrow> pystr \<Rightarrow> ssl_context res" where
  "verified_context deps p cafile =
     rbind (create_default_context (tls deps) p (Some cafile)) (\<lambda>ctx.
       Inr (ctx\<lparr>verify_strict := False, minimum_version := TLSv1_2\<rparr>))"

type_synonym route_contexts = "(string \<times> ssl_context) list"

definition create_contexts ::
    "backend_deps \<Rightarrow> TLSFiles \<Rightarrow> (ssl_context \<times> route_contexts \<times> bytes) res" where
  "create_contexts deps files =
     rbind (verified_context deps CLIENT_AUTH (ca files)) (\<lambda>inbound0.
     rbind (load_cert_chain (tls deps) (certificate files) (key files)
              (inbound0\<lparr>verify_mode := CERT_REQUIRED\<rparr>)) (\<lambda>inbound.
     rbind (mapr (\<lambda>(route, certificate, key).
              rbind (verified_context deps SERVER_AUTH (ca files)) (\<lambda>context.
              rbind (load_cert_chain (tls deps) certificate key context) (\<lambda>context.
              Inr (route, context))))
            [(''route-a'', route_a_certificate files, route_a_key files),
             (''route-b'', route_b_certificate files, route_b_key files)]) (\<lambda>outbound.
     rbind (read_pin deps (gateway_pin files)) (\<lambda>pin.
     if pin = [] then raiseV ''missing gateway certificate pin''
     else Inr (inbound, outbound, pin)))))"

section \<open>Request checks\<close>

fun trusted_peer :: "bytes option \<Rightarrow> bytes \<Rightarrow> bool" where
  "trusted_peer None pin = False"
| "trusted_peer (Some peer) pin = (peer \<noteq> [] \<and> pin \<noteq> [] \<and> peer = pin)"

text \<open>The class \<open>[A-Za-z0-9\-._~+/]\<close> of the token pattern.\<close>

definition is_token68 :: "nat \<Rightarrow> bool" where
  "is_token68 c \<longleftrightarrow> 65 \<le> c \<and> c \<le> 90 \<or> 97 \<le> c \<and> c \<le> 122 \<or> is_digit c
     \<or> c \<in> set (lit ''-._~+/'')"

definition token68 :: "pystr \<Rightarrow> bool" where
  "token68 s \<longleftrightarrow> takeWhile is_token68 s \<noteq> [] \<and> list_all (\<lambda>c. c = 61) (dropWhile is_token68 s)"

definition bearer_token :: "headers \<Rightarrow> pystr option" where
  "bearer_token hs =
     (let vs = get_all_or hs ''Authorization'' []
      in if length vs \<noteq> 1 \<or> length (hd vs) > MAX_TOKEN_BYTES + 7 then None
         else if py_lower (take 6 (hd vs)) = lit ''bearer'' \<and> take 1 (drop 6 (hd vs)) = [32]
                 \<and> token68 (drop 7 (hd vs))
         then Some (drop 7 (hd vs)) else None)"

section \<open>Projection of the evidence\<close>

definition rejected :: "string \<Rightarrow> 'a res" where
  "rejected msg = Inl (RejectedEvidence (lit msg))"

definition parse_evidence :: "backend_deps \<Rightarrow> bytes \<Rightarrow> pyval res" where
  "parse_evidence deps data =
     recast_if (\<lambda>e. isa_UnicodeError e \<or> isa_ValueError e \<or> e = RecursionError)
       (RejectedEvidence (lit ''invalid JSON''))
       (rbind (utf8_decode data)
          (json_loads (unique_opts (json_floats deps) (RejectedEvidence (lit ''duplicate field'')))
             (recursion_limit deps)))"

definition project_identity :: "pydict \<Rightarrow> expected \<Rightarrow> pydict \<Rightarrow> pydict res" where
  "project_identity source expected result =
     (case expected of (route, azp, auth) \<Rightarrow>
        foldr_res (\<lambda>r (name, v). if \<not> py_eq (dget source name) (S v) then rejected ''wrong route identity''
                       else Inr (dset (K name) (S v) r))
          result [(''route'', route), (''azp'', azp), (''client_authentication'', auth)])"

text \<open>The three loops that check a field of the source and copy it to the result.\<close>

definition copy_fields ::
    "(string \<Rightarrow> bool) \<Rightarrow> string \<Rightarrow> pydict \<Rightarrow> string list \<Rightarrow> pydict \<Rightarrow> pydict res" where
  "copy_fields ok msg source names result =
     foldr_res (\<lambda>r name. if \<not> ok name then rejected msg else Inr (dset (K name) (dget source name) r))
       result names"

definition valid_text :: "pydict \<Rightarrow> string \<Rightarrow> bool" where
  "valid_text source name \<longleftrightarrow>
     dhas source name
     \<and> (case dget source name of
          PNone \<Rightarrow> True
        | PStr s \<Rightarrow> length s \<le> 256 \<and> list_all (\<lambda>c. \<not> (c < 32 \<or> c = 127)) s
        | _ \<Rightarrow> False)"

definition valid_thumbprint :: "pydict \<Rightarrow> string \<Rightarrow> bool" where
  "valid_thumbprint source name \<longleftrightarrow>
     (case dget source name of PStr s \<Rightarrow> length s = 43 \<and> list_all is_b64url s | _ \<Rightarrow> False)"

definition valid_verification :: "pydict \<Rightarrow> string \<Rightarrow> bool" where
  "valid_verification source name \<longleftrightarrow>
     is_bool (dget source name) \<and> (name \<noteq> ''header_claims_match'' \<longrightarrow> dget source name = PBool True)"

definition check_consistency :: "pydict \<Rightarrow> pydict res" where
  "check_consistency result =
     (if \<not> py_eq (dget result ''token_certificate_thumbprint'')
                 (dget result ''forwarded_client_certificate_thumbprint'')
      then rejected ''inconsistent binding''
      else if py_true (dget result ''header_claims_match'')
        \<and> (\<not> list_all (\<lambda>name. py_true (dget result name)) TEXT_FIELDS
           \<or> \<not> py_eq (dget result ''department'') (dget result ''department_header'')
           \<or> \<not> py_eq (dget result ''logical_route'') (dget result ''logical_route_header''))
      then rejected ''inconsistent headers''
      else Inr result)"

definition project_evidence :: "backend_deps \<Rightarrow> bytes \<Rightarrow> expected \<Rightarrow> pydict res" where
  "project_evidence deps data expected =
     rbind (parse_evidence deps data) (\<lambda>v.
     case v of
       PDict source \<Rightarrow>
         rbind (project_identity source expected []) (\<lambda>r1.
         rbind (copy_fields (valid_text source) ''invalid text'' source TEXT_FIELDS r1) (\<lambda>r2.
         rbind (copy_fields (valid_thumbprint source) ''invalid thumbprint'' source THUMBPRINT_FIELDS r2)
           (\<lambda>r3.
         rbind (copy_fields (valid_verification source) ''invalid verification'' source
                  VERIFICATION_FIELDS r3) check_consistency)))
     | _ \<Rightarrow> rejected ''invalid object'')"

section \<open>The upstream call\<close>

record upstream_request =
  up_host :: string
  up_port :: int
  up_method :: string
  up_path :: string
  up_headers :: headers
  up_context :: ssl_context

text \<open>A response of \<open>http.client\<close>: \<open>up_read n\<close> is \<open>response.read(n)\<close>.\<close>

record upstream_response =
  up_status :: int
  up_resp_headers :: headers
  up_read :: "nat \<Rightarrow> bytes res"

type_synonym upstream = "upstream_request \<Rightarrow> upstream_response res"

definition evidence_request :: "pystr \<Rightarrow> ssl_context \<Rightarrow> upstream_request" where
  "evidence_request token context =
     \<lparr>up_host = API_HOST, up_port = API_PORT, up_method = ''GET'', up_path = API_PATH,
      up_headers = [(lit ''Authorization'', lit ''Bearer '' @ token),
                    (lit ''Accept'', lit ''application/json'')],
      up_context = context\<rparr>"

definition upstream_unavailable :: pyval where
  "upstream_unavailable = PDict [(K ''error'', S ''upstream_unavailable'')]"

definition content_type_ok :: "headers \<Rightarrow> bool" where
  "content_type_ok hs \<longleftrightarrow>
     (case get_all_or hs ''Content-Type'' [] of
        [v] \<Rightarrow> py_lower (py_strip (takeWhile (\<lambda>c. c \<noteq> 59) v)) = lit ''application/json''
      | _ \<Rightarrow> False)"

definition lengths_ok :: "pystr list \<Rightarrow> bool" where
  "lengths_ok lengths \<longleftrightarrow>
     lengths = []
     \<or> length lengths = 1 \<and> length (hd lengths) \<le> 10 \<and> hd lengths \<noteq> [] \<and> list_all is_digit (hd lengths)
       \<and> digits_val (hd lengths) \<le> MAX_RESPONSE_BYTES"

definition read_evidence ::
    "backend_deps \<Rightarrow> expected \<Rightarrow> upstream_response \<Rightarrow> (int \<times> pyval) res" where
  "read_evidence deps expected response =
     (if up_status response = 401 \<or> up_status response = 403
      then Inr (up_status response, PDict [(K ''error'', S ''upstream_unauthorized'')])
      else if up_status response \<noteq> 200 then Inr (502, upstream_unavailable)
      else let lengths = get_all_or (up_resp_headers response) ''Content-Length'' [] in
        if \<not> content_type_ok (up_resp_headers response) then rejected ''invalid content type''
        else if \<not> lengths_ok lengths then rejected ''invalid length''
        else rbind (up_read response (MAX_RESPONSE_BYTES + 1)) (\<lambda>data.
          if length data > MAX_RESPONSE_BYTES
             \<or> (lengths \<noteq> [] \<and> length data \<noteq> digits_val (hd lengths))
          then rejected ''invalid body size''
          else rbind (project_evidence deps data expected) (\<lambda>result. Inr (200, PDict result))))"

fun isa_RejectedEvidence :: "exn \<Rightarrow> bool" where
  "isa_RejectedEvidence (RejectedEvidence _) = True"
| "isa_RejectedEvidence _ = False"

definition fetch_evidence ::
    "backend_deps \<Rightarrow> upstream \<Rightarrow> pystr \<Rightarrow> expected \<Rightarrow> ssl_context \<Rightarrow> (int \<times> pyval) res" where
  "fetch_evidence deps up token expected context =
     (case rbind (up (evidence_request token context)) (read_evidence deps expected) of
        Inr r \<Rightarrow> Inr r
      | Inl e \<Rightarrow>
          if e = TimeoutError then Inr (504, PDict [(K ''error'', S ''upstream_timeout'')])
          else if isa_OSError e \<or> e = HTTPException \<or> isa_RejectedEvidence e
          then Inr (502, upstream_unavailable)
          else Inl e)"

section \<open>The request handler\<close>

definition json_response :: "float_codec \<Rightarrow> int \<Rightarrow> pyval \<Rightarrow> response" where
  "json_response fc code v =
     (let data = json_body fc v
      in \<lparr>status = code, resp_headers = JSON_HEADERS data @ [(lit ''Connection'', lit ''close'')],
          body = data\<rparr>)"

definition send_error :: "float_codec \<Rightarrow> int \<Rightarrow> response" where
  "send_error fc code = json_response fc code (PDict [(K ''error'', S ''request_rejected'')])"

record backend_server =
  gateway_pin_der :: bytes
  route_ctxs :: route_contexts

text \<open>
  The handler's answer and the upstream requests it sends. An exception that is not caught ends
  the connection without an answer (\<open>QuietServer.handle_error\<close>).
\<close>

definition do_GET ::
    "backend_deps \<Rightarrow> upstream \<Rightarrow> backend_server \<Rightarrow> peercert \<Rightarrow> request
     \<Rightarrow> response res \<times> upstream_request list" where
  "do_GET deps up srv peer req =
     (let fc = json_floats deps; hs = req_headers req;
          answer = (\<lambda>code v. (Inr (json_response fc code v), [])) in
      case peer of
        Inl e \<Rightarrow> (Inl e, [])
      | Inr peer_der \<Rightarrow>
          if \<not> trusted_peer peer_der (gateway_pin_der srv)
          then answer 401 (PDict [(K ''error'', S ''untrusted_gateway'')])
          else if get_all_or hs ''Transfer-Encoding'' [] \<noteq> []
               \<or> get_all_or hs ''Content-Length'' [lit ''0''] \<noteq> [lit ''0'']
          then answer 400 (PDict [(K ''error'', S ''request_rejected'')])
          else if path req = lit ''/healthz'' then answer 200 (PDict [(K ''status'', S ''ok'')])
          else (case map_of (map (\<lambda>(k, e). (lit k, e)) ROUTES) (path req) of
              None \<Rightarrow> answer 404 (PDict [(K ''error'', S ''not_found'')])
            | Some expected \<Rightarrow>
                (case bearer_token hs of
                   None \<Rightarrow> answer 401 (PDict [(K ''error'', S ''invalid_token'')])
                 | Some token \<Rightarrow>
                     (case map_of (route_ctxs srv) (fst expected) of
                        None \<Rightarrow> (Inl KeyError, [])
                      | Some context \<Rightarrow>
                          (rbind (fetch_evidence deps up token expected context)
                             (\<lambda>(code, result). Inr (json_response fc code result)),
                           [evidence_request token context])))))"

datatype incoming = Parsed request | Malformed int

fun handle ::
    "backend_deps \<Rightarrow> upstream \<Rightarrow> backend_server \<Rightarrow> peercert \<Rightarrow> incoming
     \<Rightarrow> response res \<times> upstream_request list" where
  "handle deps up srv peer (Malformed code) = (Inr (send_error (json_floats deps) code), [])"
| "handle deps up srv peer (Parsed req) =
     (if command req = lit ''GET'' then do_GET deps up srv peer req
      else (Inr (send_error (json_floats deps) 501), []))"

definition create_server :: "backend_deps \<Rightarrow> TLSFiles \<Rightarrow> (backend_server \<times> ssl_context) res" where
  "create_server deps files =
     rbind (create_contexts deps files) (\<lambda>(context, routes, pin).
       Inr (\<lparr>gateway_pin_der = pin, route_ctxs = routes\<rparr>, context))"

section \<open>What the projection accepts\<close>

lemma foldr_res_guarded:
  "foldr_res (\<lambda>r x. if \<not> ok x then Inl e else Inr (f x r)) r xs
   = (if list_all ok xs then Inr (fold f xs r) else Inl e)"
  by (induction xs arbitrary: r) auto

lemma fold_dset_new:
  "distinct (map fst kvs) \<Longrightarrow> set (map fst kvs) \<inter> set (map fst r) = {} \<Longrightarrow>
   fold (\<lambda>(k, v) d. dset k v d) kvs r = r @ kvs"
proof (induction kvs arbitrary: r)
  case Nil
  then show ?case by simp
next
  case (Cons kv kvs)
  obtain k v where kv: "kv = (k, v)" by (cases kv)
  have "dset k v r = r @ [(k, v)]" using Cons.prems kv by (intro dset_new) auto
  moreover have "fold (\<lambda>(k, v) d. dset k v d) kvs (r @ [(k, v)]) = (r @ [(k, v)]) @ kvs"
    using Cons.prems kv by (intro Cons.IH) auto
  ultimately show ?case by (simp add: kv)
qed

lemma copy_fields_eq:
  assumes "distinct names" "set (map K names) \<inter> set (map fst r) = {}"
  shows "copy_fields ok msg source names r
    = (if list_all ok names then Inr (r @ map (\<lambda>n. (K n, dget source n)) names) else rejected msg)"
proof -
  have "fold (\<lambda>n. dset (K n) (dget source n)) names r
      = fold (\<lambda>(k, v) d. dset k v d) (map (\<lambda>n. (K n, dget source n)) names) r"
    by (induction names arbitrary: r) auto
  also have "\<dots> = r @ map (\<lambda>n. (K n, dget source n)) names"
    using assms by (intro fold_dset_new) (auto simp: comp_def distinct_map inj_on_def)
  finally show ?thesis
    unfolding copy_fields_def rejected_def foldr_res_guarded by simp
qed

definition identity_items :: "expected \<Rightarrow> pydict" where
  "identity_items expected =
     (case expected of (route, azp, auth) \<Rightarrow>
        [(K ''route'', S route), (K ''azp'', S azp), (K ''client_authentication'', S auth)])"

lemma project_identity_eq:
  "project_identity source (route, azp, auth) []
   = (if dget source ''route'' = S route \<and> dget source ''azp'' = S azp
         \<and> dget source ''client_authentication'' = S auth
      then Inr (identity_items (route, azp, auth)) else rejected ''wrong route identity'')"
  by (simp add: project_identity_def identity_items_def dset_def rejected_def)

text \<open>The projection of an accepted document: thirteen fields, in the order of the source.\<close>

definition projected :: "pydict \<Rightarrow> expected \<Rightarrow> pydict" where
  "projected source expected =
     identity_items expected
     @ map (\<lambda>n. (K n, dget source n)) (TEXT_FIELDS @ THUMBPRINT_FIELDS @ VERIFICATION_FIELDS)"

lemmas field_defs = TEXT_FIELDS_def THUMBPRINT_FIELDS_def VERIFICATION_FIELDS_def identity_items_def

lemma dget_append: "dget (a @ b) n = (if dhas a n then dget a n else dget b n)"
  by (simp add: dget_def dhas_def map_add_def split: option.splits)

lemma dget_projected:
  "n \<in> set (TEXT_FIELDS @ THUMBPRINT_FIELDS @ VERIFICATION_FIELDS) \<Longrightarrow>
   dget (projected source (route, azp, auth)) n = dget source n"
  by (auto simp: projected_def field_defs dict_simps)

definition consistent :: "pydict \<Rightarrow> bool" where
  "consistent source \<longleftrightarrow>
     py_eq (dget source ''token_certificate_thumbprint'') (dget source ''forwarded_client_certificate_thumbprint'')
     \<and> (py_true (dget source ''header_claims_match'') \<longrightarrow>
          list_all (\<lambda>n. py_true (dget source n)) TEXT_FIELDS
          \<and> py_eq (dget source ''department'') (dget source ''department_header'')
          \<and> py_eq (dget source ''logical_route'') (dget source ''logical_route_header''))"

lemma copy_all_fields:
  "copy_fields (valid_text source) m1 source TEXT_FIELDS (identity_items expected)
   = (if list_all (valid_text source) TEXT_FIELDS
      then Inr (identity_items expected @ map (\<lambda>n. (K n, dget source n)) TEXT_FIELDS) else rejected m1)"
  "copy_fields (valid_thumbprint source) m2 source THUMBPRINT_FIELDS
      (identity_items expected @ map (\<lambda>n. (K n, dget source n)) TEXT_FIELDS)
   = (if list_all (valid_thumbprint source) THUMBPRINT_FIELDS
      then Inr (identity_items expected @ map (\<lambda>n. (K n, dget source n)) TEXT_FIELDS
        @ map (\<lambda>n. (K n, dget source n)) THUMBPRINT_FIELDS)
      else rejected m2)"
  "copy_fields (valid_verification source) m3 source VERIFICATION_FIELDS
      (identity_items expected @ map (\<lambda>n. (K n, dget source n)) TEXT_FIELDS
        @ map (\<lambda>n. (K n, dget source n)) THUMBPRINT_FIELDS)
   = (if list_all (valid_verification source) VERIFICATION_FIELDS
      then Inr (projected source expected) else rejected m3)"
  by (cases expected, subst copy_fields_eq; simp add: field_defs projected_def)+

definition accepted :: "expected \<Rightarrow> pydict \<Rightarrow> bool" where
  "accepted expected source \<longleftrightarrow>
     (case expected of (route, azp, auth) \<Rightarrow>
        dget source ''route'' = S route \<and> dget source ''azp'' = S azp
        \<and> dget source ''client_authentication'' = S auth)
     \<and> list_all (valid_text source) TEXT_FIELDS
     \<and> list_all (valid_thumbprint source) THUMBPRINT_FIELDS
     \<and> list_all (valid_verification source) VERIFICATION_FIELDS"

lemma project_steps:
  "rbind (project_identity source expected []) (\<lambda>r1.
   rbind (copy_fields (valid_text source) m1 source TEXT_FIELDS r1) (\<lambda>r2.
   rbind (copy_fields (valid_thumbprint source) m2 source THUMBPRINT_FIELDS r2) (\<lambda>r3.
   rbind (copy_fields (valid_verification source) m3 source VERIFICATION_FIELDS r3) f))) = Inr r \<longleftrightarrow>
   accepted expected source \<and> f (projected source expected) = Inr r"
proof -
  obtain route azp auth where e: "expected = (route, azp, auth)" by (cases expected)
  show ?thesis
    unfolding e accepted_def project_identity_eq
    by (simp add: rejected_def) (auto simp: copy_all_fields rejected_def)
qed

lemma consistent_projected:
  "consistent (projected source expected) = consistent source"
proof -
  obtain route azp auth where e: "expected = (route, azp, auth)" by (cases expected)
  show ?thesis unfolding consistent_def e by (simp add: dget_projected field_defs)
qed

lemma check_consistency_iff: "check_consistency r = Inr result \<longleftrightarrow> consistent r \<and> result = r"
  unfolding check_consistency_def consistent_def by (auto simp: rejected_def)

lemma project_evidence_accepts:
  "project_evidence deps data expected = Inr result \<longleftrightarrow>
     (\<exists>source. parse_evidence deps data = Inr (PDict source) \<and> accepted expected source
        \<and> consistent source \<and> result = projected source expected)"
proof (cases "parse_evidence deps data")
  case (Inr v)
  then show ?thesis
    by (cases v) (simp_all add: project_evidence_def project_steps check_consistency_iff
        consistent_projected rejected_def)
qed (simp add: project_evidence_def)

section \<open>Properties of the projection\<close>

lemma valid_text_eq:
  "valid_text source a \<Longrightarrow> py_eq v (dget source a) \<longleftrightarrow> v = dget source a"
  by (cases "dget source a") (simp_all add: valid_text_def)

lemma valid_thumbprint_eq:
  "valid_thumbprint source a \<Longrightarrow> py_eq v (dget source a) \<longleftrightarrow> v = dget source a"
  by (cases "dget source a") (simp_all add: valid_thumbprint_def)

text \<open>
  C6: The projection accepts a response body exactly when it is a duplicate-free JSON object with
  the identity of the requested route, bounded printable texts, three well-formed thumbprints of
  which the token's and the forwarded one agree, both verification flags true, and claim headers
  that agree where they are said to; and the result is the thirteen listed fields and no other.
\<close>

theorem project_evidence_iff:
  "project_evidence deps data (route, azp, auth) = Inr result \<longleftrightarrow>
     (\<exists>source matched. parse_evidence deps data = Inr (PDict source)
        \<and> dget source ''route'' = S route \<and> dget source ''azp'' = S azp
        \<and> dget source ''client_authentication'' = S auth
        \<and> list_all (valid_text source) TEXT_FIELDS
        \<and> list_all (valid_thumbprint source) THUMBPRINT_FIELDS
        \<and> dget source ''token_signature_verified'' = PBool True
        \<and> dget source ''binding_verified'' = PBool True
        \<and> dget source ''header_claims_match'' = PBool matched
        \<and> dget source ''token_certificate_thumbprint'' = dget source ''forwarded_client_certificate_thumbprint''
        \<and> (matched \<longrightarrow> list_all (\<lambda>n. py_true (dget source n)) TEXT_FIELDS
              \<and> dget source ''department'' = dget source ''department_header''
              \<and> dget source ''logical_route'' = dget source ''logical_route_header'')
        \<and> result = [(K ''route'', S route), (K ''azp'', S azp), (K ''client_authentication'', S auth)]
            @ map (\<lambda>n. (K n, dget source n)) (TEXT_FIELDS @ THUMBPRINT_FIELDS @ VERIFICATION_FIELDS))"
proof -
  have "accepted (route, azp, auth) source \<and> consistent source \<longleftrightarrow>
      (\<exists>matched. dget source ''route'' = S route \<and> dget source ''azp'' = S azp
        \<and> dget source ''client_authentication'' = S auth
        \<and> list_all (valid_text source) TEXT_FIELDS
        \<and> list_all (valid_thumbprint source) THUMBPRINT_FIELDS
        \<and> dget source ''token_signature_verified'' = PBool True
        \<and> dget source ''binding_verified'' = PBool True
        \<and> dget source ''header_claims_match'' = PBool matched
        \<and> dget source ''token_certificate_thumbprint'' = dget source ''forwarded_client_certificate_thumbprint''
        \<and> (matched \<longrightarrow> list_all (\<lambda>n. py_true (dget source n)) TEXT_FIELDS
              \<and> dget source ''department'' = dget source ''department_header''
              \<and> dget source ''logical_route'' = dget source ''logical_route_header''))" for source
    unfolding accepted_def consistent_def
    by (auto simp: TEXT_FIELDS_def THUMBPRINT_FIELDS_def VERIFICATION_FIELDS_def valid_verification_def
        valid_text_eq valid_thumbprint_eq is_bool_iff)
  then show ?thesis
    unfolding project_evidence_accepts projected_def identity_items_def prod.case by blast
qed

section \<open>The bearer token pattern\<close>

lemma token68_iff:
  "token68 t \<longleftrightarrow> (\<exists>core n. t = core @ replicate n 61 \<and> core \<noteq> [] \<and> list_all is_token68 core)"
proof
  assume "token68 t"
  then have pad: "list_all (\<lambda>c. c = 61) (dropWhile is_token68 t)" and core: "takeWhile is_token68 t \<noteq> []"
    by (auto simp: token68_def)
  have "dropWhile is_token68 t = replicate (length (dropWhile is_token68 t)) 61"
    using pad by (intro replicate_eqI) (auto simp: list_all_iff)
  then have "t = takeWhile is_token68 t @ replicate (length (dropWhile is_token68 t)) 61"
    by (metis takeWhile_dropWhile_id)
  moreover have "list_all is_token68 (takeWhile is_token68 t)" by (auto simp: list_all_iff dest: set_takeWhileD)
  ultimately show "\<exists>core n. t = core @ replicate n 61 \<and> core \<noteq> [] \<and> list_all is_token68 core"
    using core by blast
next
  assume "\<exists>core n. t = core @ replicate n 61 \<and> core \<noteq> [] \<and> list_all is_token68 core"
  then obtain core n where t: "t = core @ replicate n 61" "core \<noteq> []" "list_all is_token68 core" by blast
  have "replicate n 61 = [] \<or> \<not> is_token68 (hd (replicate n 61))"
    by (cases n) (simp_all add: is_token68_def is_digit_def lit_def)
  then show "token68 t"
    unfolding token68_def t(1) using t(2,3)
    by (simp add: takeWhile_append_stop dropWhile_append_stop list_all_iff)
qed

text \<open>
  The backend takes a bearer token exactly from a single \<open>Authorization\<close> header made of the
  scheme in any case, one space, and a token of the RFC 6750 form of at most 8192 characters; the
  forwarded token is that text.
\<close>

theorem backend_bearer_token_iff:
  "bearer_token hs = Some t \<longleftrightarrow>
     (\<exists>scheme core n. get_all hs ''Authorization'' = Some [scheme @ [32] @ t]
        \<and> py_lower scheme = lit ''bearer'' \<and> t = core @ replicate n 61 \<and> core \<noteq> []
        \<and> list_all is_token68 core \<and> length t \<le> 8192)"
proof -
  have lower: "length (py_lower s) = length s" for s by (simp add: py_lower_def)
  have six: "py_lower s = lit ''bearer'' \<Longrightarrow> length s = 6" for s
    using lower [of s] by simp
  have split: "py_lower (take 6 v) = lit ''bearer'' \<and> take 1 (drop 6 v) = [32] \<and> drop 7 v = t \<longleftrightarrow>
      (\<exists>scheme. v = scheme @ [32] @ t \<and> py_lower scheme = lit ''bearer'')" (is "?l v = ?r v") for v
  proof
    assume l: "?l v"
    have "v = take 6 v @ take 1 (drop 6 v) @ drop 1 (drop 6 v)" by (simp only: append_take_drop_id)
    also have "drop 1 (drop 6 v) = drop 7 v" by simp
    finally show "?r v" using l by metis
  next
    assume "?r v"
    then show "?l v" using six by fastforce
  qed
  show ?thesis
  proof (cases "\<exists>v. get_all hs ''Authorization'' = Some [v]")
    case True
    then obtain v where v: "get_all hs ''Authorization'' = Some [v]" by blast
    have "bearer_token hs = Some t \<longleftrightarrow> length v \<le> 8199 \<and> ?l v \<and> token68 t"
      by (auto simp: bearer_token_def get_all_or_def v MAX_TOKEN_BYTES_def Let_def split: if_splits)
    also have "\<dots> \<longleftrightarrow> length v \<le> 8199 \<and> ?r v \<and> token68 t" unfolding split ..
    also have "\<dots> \<longleftrightarrow> ?r v \<and> token68 t \<and> length t \<le> 8192"
      using six by fastforce
    finally show ?thesis unfolding v token68_iff by auto
  next
    case False
    then have "length (get_all_or hs ''Authorization'' []) \<noteq> 1"
      by (cases "get_all hs ''Authorization''") (auto simp: get_all_or_def length_Suc_conv)
    then show ?thesis using False by (auto simp: bearer_token_def)
  qed
qed

section \<open>The gate and the upstream call\<close>

lemma backend_get_untrusted:
  "\<not> trusted_peer q (gateway_pin_der srv) \<Longrightarrow>
   do_GET deps up srv (Inr q) req
   = (Inr (json_response (json_floats deps) 401 (PDict [(K ''error'', S ''untrusted_gateway'')])), [])"
  by (simp add: do_GET_def)

fun gateway_peer :: "backend_server \<Rightarrow> peercert \<Rightarrow> bool" where
  "gateway_peer srv (Inr q) = trusted_peer q (gateway_pin_der srv)"
| "gateway_peer srv (Inl _) = False"

lemma gateway_peer_iff:
  "gateway_peer srv peer \<longleftrightarrow> peer = Inr (Some (gateway_pin_der srv)) \<and> gateway_pin_der srv \<noteq> []"
proof (cases peer)
  case (Inr q)
  then show ?thesis by (cases q) auto
qed simp

fun denied_answer :: "backend_deps \<Rightarrow> peercert \<Rightarrow> response res" where
  "denied_answer deps (Inr _) =
     Inr (json_response (json_floats deps) 401 (PDict [(K ''error'', S ''untrusted_gateway'')]))"
| "denied_answer deps (Inl e) = Inl e"

interpretation backend: peer_gate "gateway_peer srv" "do_GET deps up srv" "denied_answer deps"
  for deps up srv
proof
  fix p r
  assume "\<not> gateway_peer srv p"
  then show "do_GET deps up srv p r = (denied_answer deps p, [])"
    by (cases p) (simp_all add: backend_get_untrusted, simp add: do_GET_def)
qed

text \<open>
  C8: A client whose certificate is not the pinned gateway's never makes the backend call the API:
  every \<open>GET\<close> of any session is answered by the same refusal and no upstream request is sent.
\<close>

theorem backend_untrusted_peer_denied:
  assumes "peer \<noteq> Inr (Some (gateway_pin_der srv)) \<or> gateway_pin_der srv = []"
  shows "map (fst \<circ> do_GET deps up srv peer) rs = replicate (length rs) (denied_answer deps peer)
    \<and> concat (map (snd \<circ> do_GET deps up srv peer) rs) = []"
  using assms by (intro backend.session_denied) (simp add: gateway_peer_iff)

lemma do_GET_upstream:
  "length (snd (do_GET deps up srv peer req)) \<le> 1
   \<and> (\<forall>u \<in> set (snd (do_GET deps up srv peer req)). gateway_peer srv peer
      \<and> (\<exists>token expected context.
          map_of (map (\<lambda>(k, e). (lit k, e)) ROUTES) (path req) = Some expected
          \<and> bearer_token (req_headers req) = Some token
          \<and> map_of (route_ctxs srv) (fst expected) = Some context \<and> u = evidence_request token context))"
  by (cases peer) (auto simp: do_GET_def Let_def split: option.splits)

lemma map_of_lit_keys:
  "map_of (map (\<lambda>(k, e). (lit k, e)) xs) q = Some e \<Longrightarrow> \<exists>k. q = lit k \<and> map_of xs k = Some e"
proof (induction xs)
  case (Cons x xs)
  obtain k v where "x = (k, v)" by (cases x)
  then show ?case using Cons by (cases "q = lit k") auto
qed simp

text \<open>
  C7: The backend calls one destination only. Whatever request arrives, it sends at most one
  upstream request; that one goes to the fixed host, port and path, carries the caller's own token,
  and uses the TLS identity of the route in the path; and the caller was the pinned gateway.
\<close>

theorem backend_fixed_destination:
  "length (snd (handle deps up srv peer r)) \<le> 1
   \<and> (\<forall>u \<in> set (snd (handle deps up srv peer r)).
        peer = Inr (Some (gateway_pin_der srv)) \<and> gateway_pin_der srv \<noteq> []
        \<and> up_host u = ''kong-api'' \<and> up_port u = 8443 \<and> up_method u = ''GET''
        \<and> up_path u = ''/fapi-api/evidence''
        \<and> (\<exists>req token target expected context. r = Parsed req \<and> path req = lit target
             \<and> map_of ROUTES target = Some expected \<and> bearer_token (req_headers req) = Some token
             \<and> map_of (route_ctxs srv) (fst expected) = Some context \<and> up_context u = context
             \<and> up_headers u = [(lit ''Authorization'', lit ''Bearer '' @ token),
                               (lit ''Accept'', lit ''application/json'')]))"
    (is "_ \<and> (\<forall>u \<in> _. ?call u)")
proof (cases r)
  case (Parsed req)
  show ?thesis
  proof (cases "command req = lit ''GET''")
    case True
    then have run: "handle deps up srv peer r = do_GET deps up srv peer req" by (simp add: Parsed)
    have "length (snd (do_GET deps up srv peer req)) \<le> 1" using do_GET_upstream by blast
    moreover
    {
      fix u
      assume "u \<in> set (snd (do_GET deps up srv peer req))"
      then obtain token expected ctx where gate: "gateway_peer srv peer"
        and e: "map_of (map (\<lambda>(k, e). (lit k, e)) ROUTES) (path req) = Some expected"
        and rest: "bearer_token (req_headers req) = Some token"
          "map_of (route_ctxs srv) (fst expected) = Some ctx"
        and u: "u = evidence_request token ctx"
        using do_GET_upstream [of deps up srv peer req] by blast
      obtain target where "path req = lit target" "map_of ROUTES target = Some expected"
        using map_of_lit_keys [OF e] by blast
      note facts = gate Parsed this rest u
      have "?call u"
        using facts unfolding gateway_peer_iff evidence_request_def API_HOST_def API_PORT_def API_PATH_def by (cases expected) simp
    }
    ultimately show ?thesis unfolding run by blast
  qed (simp add: Parsed)
qed simp

section \<open>Every outcome of a fetch\<close>

lemma parse_evidence_error:
  "parse_evidence deps data = Inl e \<Longrightarrow> e = RejectedEvidence (lit ''invalid JSON'')"
proof -
  let ?opts = "unique_opts (json_floats deps) (RejectedEvidence (lit ''duplicate field''))"
  have utf8: "utf8_decode data = Inl d \<Longrightarrow> isa_UnicodeError d" for d
    using utf8_decode_error [of data d] by simp
  have json: "json_loads ?opts n t = Inl d \<Longrightarrow> isa_ValueError d \<or> d = RecursionError" for n t d
    by (rule json_loads_error [where opts = ?opts])
      (auto simp: unique_opts_total, auto simp: unique_opts_def unique_object_eq split: if_splits)
  assume "parse_evidence deps data = Inl e"
  then show ?thesis
    unfolding parse_evidence_def recast_if_def
    by (auto simp: rbind_eq_Inl_iff dest!: utf8 json split: sum.splits if_splits)
qed

lemma project_evidence_error: "project_evidence deps data expected = Inl e \<Longrightarrow> isa_RejectedEvidence e"
proof -
  have copy: "copy_fields ok msg source names r = Inl e \<Longrightarrow> isa_RejectedEvidence e"
    for ok msg source names r
    unfolding copy_fields_def rejected_def foldr_res_guarded by (auto split: if_splits)
  have ident: "project_identity source expected [] = Inl e \<Longrightarrow> isa_RejectedEvidence e" for source
    by (cases expected) (auto simp: project_identity_eq rejected_def split: if_splits)
  have consist: "check_consistency r = Inl e \<Longrightarrow> isa_RejectedEvidence e" for r
    by (auto simp: check_consistency_def rejected_def split: if_splits)
  assume err: "project_evidence deps data expected = Inl e"
  show ?thesis
  proof (cases "parse_evidence deps data")
    case (Inl d)
    then show ?thesis using err parse_evidence_error [OF Inl] by (auto simp: project_evidence_def)
  next
    case (Inr v)
    show ?thesis
    proof (cases v)
      case (PDict source)
      then show ?thesis
        using err copy ident consist unfolding project_evidence_def Inr
        by (simp only: rbind_Inr pyval.case rbind_eq_Inl_iff) blast
    qed (use err Inr in \<open>auto simp: project_evidence_def rejected_def\<close>)
  qed
qed

text \<open>What \<open>http.client\<close> documents: a call or a read fails with \<open>OSError\<close> or \<open>HTTPException\<close>.\<close>

definition http_errors_only :: "upstream \<Rightarrow> bool" where
  "http_errors_only up \<longleftrightarrow>
     (\<forall>u e. up u = Inl e \<longrightarrow> isa_OSError e \<or> e = HTTPException)
     \<and> (\<forall>u resp n e. up u = Inr resp \<longrightarrow> up_read resp n = Inl e \<longrightarrow> isa_OSError e \<or> e = HTTPException)"

lemma read_evidence_error:
  "read_evidence deps expected resp = Inl e \<Longrightarrow>
   isa_RejectedEvidence e \<or> up_read resp (MAX_RESPONSE_BYTES + 1) = Inl e"
  by (auto simp: read_evidence_def rejected_def rbind_eq_Inl_iff Let_def dest!: project_evidence_error
      split: if_splits)

text \<open>
  Every fetch ends in one of five answers and never in an uncaught exception, given that
  \<open>http.client\<close> fails only in its documented ways: the projected evidence of a body of at most
  16384 bytes with the expected content type, the API's refusal (401 or 403), 504 for a timeout,
  or 502.
\<close>

theorem fetch_evidence_outcomes:
  assumes "http_errors_only up"
  shows "\<exists>code v. fetch_evidence deps up token expected ctx = Inr (code, v)
    \<and> (code = 200 \<and> (\<exists>resp data result. up (evidence_request token ctx) = Inr resp
           \<and> up_status resp = 200 \<and> content_type_ok (up_resp_headers resp)
           \<and> up_read resp 16385 = Inr data \<and> length data \<le> 16384
           \<and> project_evidence deps data expected = Inr result \<and> v = PDict result)
       \<or> code \<in> {401, 403} \<and> v = PDict [(K ''error'', S ''upstream_unauthorized'')]
           \<and> (\<exists>resp. up (evidence_request token ctx) = Inr resp \<and> up_status resp = code)
       \<or> code = 504 \<and> v = PDict [(K ''error'', S ''upstream_timeout'')]
       \<or> code = 502 \<and> v = PDict [(K ''error'', S ''upstream_unavailable'')])"
proof (cases "rbind (up (evidence_request token ctx)) (read_evidence deps expected)")
  case (Inl e)
  then have "isa_OSError e \<or> e = HTTPException \<or> isa_RejectedEvidence e"
    using assms read_evidence_error [of deps expected _ e]
    unfolding http_errors_only_def rbind_eq_Inl_iff by blast
  then show ?thesis
    by (auto simp: fetch_evidence_def Inl upstream_unavailable_def)
next
  case (Inr r)
  then obtain resp where resp: "up (evidence_request token ctx) = Inr resp"
    "read_evidence deps expected resp = Inr r"
    by (auto simp: rbind_eq_Inr_iff)
  from resp(2) show ?thesis
    by (auto simp: fetch_evidence_def Inr resp(1) read_evidence_def rejected_def rbind_eq_Inr_iff Let_def
        upstream_unavailable_def MAX_RESPONSE_BYTES_def split: if_splits)
qed

text \<open>
  The TLS identities of a started backend: callers need a client certificate of the configured
  CA; the two routes call out with their own certificate and key, verify the API's certificate
  against that CA alone and check its host name; all contexts require TLS 1.2; the pin is not empty.
\<close>

theorem create_contexts_identities:
  assumes "create_contexts deps files = Inr (inbound, outbound, pin)"
  shows "verify_mode inbound = CERT_REQUIRED \<and> anchors inbound = [CaFile (ca files)]
    \<and> cert_chain inbound = Some (certificate files, key files) \<and> minimum_version inbound = TLSv1_2
    \<and> map fst outbound = [''route-a'', ''route-b''] \<and> pin \<noteq> []
    \<and> map (cert_chain \<circ> snd) outbound
        = [Some (route_a_certificate files, route_a_key files),
           Some (route_b_certificate files, route_b_key files)]
    \<and> (\<forall>c \<in> snd ` set outbound. verify_mode c = CERT_REQUIRED \<and> check_hostname c
        \<and> anchors c = [CaFile (ca files)] \<and> minimum_version c = TLSv1_2)"
proof -
  have ctx: "verified_context deps p f = Inr c \<longleftrightarrow> load_ca (tls deps) f = Inr ()
      \<and> c = \<lparr>verify_mode = (if p = SERVER_AUTH then CERT_REQUIRED else CERT_NONE),
             check_hostname = (p = SERVER_AUTH), verify_strict = False,
             minimum_version = TLSv1_2, anchors = [CaFile f], cert_chain = None\<rparr>" for p f c
    by (auto simp: verified_context_def create_default_context_def rbind_eq_Inr_iff Let_def)
  show ?thesis
    using assms unfolding create_contexts_def
    by (auto simp: ctx load_cert_chain_def rbind_eq_Inr_iff split: if_splits)
qed

section \<open>A concrete deployment\<close>

lemma parse_evidence_body:
  "json_plain v \<Longrightarrow> json_depth v \<le> recursion_limit deps \<Longrightarrow> parse_evidence deps (json_body fc v) = Inr v"
  using json_wire.dec_enc [of fc "recursion_limit deps" v "json_body fc v"]
  by (simp add: parse_evidence_def utf8_decode_json_body json_loads_dumps unique_opts_keeps_pairs)

definition sample_files :: tls_files where
  "sample_files = \<lparr>load_ca = (\<lambda>_. Inr ()), load_pair = (\<lambda>_ _. Inr ())\<rparr>"

definition sample_deps :: backend_deps where
  "sample_deps =
     \<lparr>digest256 = (\<lambda>_. replicate 32 (CHR ''k'')),
      read_ascii = (\<lambda>_. Inr (PEM_HEADER @ lit ''MA=='' @ PEM_FOOTER)),
      a2b_base64 = (\<lambda>_. Inr ''gw''), tls = sample_files,
      json_floats = \<lparr>of_text = (\<lambda>_. FNan), to_text = (\<lambda>_. lit ''NaN'')\<rparr>,
      recursion_limit = 50, decode_wide = (\<lambda>_. Inl UnicodeDecodeError)\<rparr>"

definition sample_source :: pydict where
  "sample_source =
     [(K ''azp'', S ''third-party-fapi-mtls''), (K ''route'', S ''route-a''),
      (K ''client_authentication'', S ''tls_client_auth''),
      (K ''token_certificate_thumbprint'', PStr (replicate 43 65)),
      (K ''forwarded_client_certificate_thumbprint'', PStr (replicate 43 65)),
      (K ''api_gateway_tls_peer_certificate_thumbprint'', PStr (replicate 43 66)),
      (K ''token_signature_verified'', PBool True), (K ''binding_verified'', PBool True),
      (K ''department'', S ''payments''), (K ''logical_route'', PNone),
      (K ''department_header'', PNone), (K ''logical_route_header'', PNone),
      (K ''header_claims_match'', PBool False), (K ''extra'', PNone)]"

definition sample_expected :: expected where
  "sample_expected = (''route-a'', ''third-party-fapi-mtls'', ''tls_client_auth'')"

definition sample_body :: bytes where
  "sample_body = json_body (json_floats sample_deps) (PDict sample_source)"

lemma sample_parse: "parse_evidence sample_deps sample_body = Inr (PDict sample_source)"
proof -
  have "list_all is_scalar (replicate 43 n)" if "n < 128" for n
    using that by (simp add: list_all_iff is_scalar_def is_surrogate_def)
  then have "json_plain (PDict sample_source)" by (simp add: sample_source_def lit_scalar)
  moreover have "json_depth (PDict sample_source) \<le> recursion_limit sample_deps"
    by (simp add: sample_source_def sample_deps_def)
  ultimately show ?thesis unfolding sample_body_def by (rule parse_evidence_body)
qed

theorem project_evidence_iff_witness:
  "\<exists>result. project_evidence sample_deps sample_body (''route-a'', ''third-party-fapi-mtls'', ''tls_client_auth'') = Inr result
    \<and> dget result ''department'' = S ''payments'' \<and> \<not> dhas result ''extra''"
proof -
  have "list_all (valid_text sample_source) TEXT_FIELDS"
    by (simp add: TEXT_FIELDS_def valid_text_def sample_source_def dict_simps) (simp add: lit_def)
  moreover have "list_all (valid_thumbprint sample_source) THUMBPRINT_FIELDS"
    by (simp add: THUMBPRINT_FIELDS_def valid_thumbprint_def sample_source_def dict_simps list_all_iff is_b64url_def)
  moreover have "Ex Not" by (rule exI [of _ False]) simp
  ultimately show ?thesis
    using project_evidence_iff [of sample_deps sample_body "''route-a''" "''third-party-fapi-mtls''" "''tls_client_auth''"]
    unfolding sample_parse
    by (simp add: sample_source_def dict_simps TEXT_FIELDS_def THUMBPRINT_FIELDS_def VERIFICATION_FIELDS_def)
qed

definition sample_ctx :: ssl_context where
  "sample_ctx =
     \<lparr>verify_mode = CERT_REQUIRED, check_hostname = True, verify_strict = False,
      minimum_version = TLSv1_2, anchors = [], cert_chain = None\<rparr>"

definition sample_server :: backend_server where
  "sample_server = \<lparr>gateway_pin_der = ''gw'', route_ctxs = [(''route-a'', sample_ctx)]\<rparr>"

definition sample_request :: request where
  "sample_request =
     \<lparr>command = lit ''GET'', path = lit ''/evidence/route-a'',
      req_headers = [(lit ''Authorization'', lit ''Bearer abc'')]\<rparr>"

definition sample_upstream :: upstream where
  "sample_upstream = (\<lambda>_. Inr \<lparr>up_status = 200,
     up_resp_headers = [(lit ''Content-Type'', lit ''application/json'')],
     up_read = (\<lambda>n. Inr (take n sample_body))\<rparr>)"

theorem backend_untrusted_peer_denied_witness:
  "map (fst \<circ> do_GET sample_deps sample_upstream sample_server (Inr (Some ''other''))) [sample_request, sample_request]
     = replicate 2 (denied_answer sample_deps (Inr (Some ''other'')))
   \<and> concat (map (snd \<circ> do_GET sample_deps sample_upstream sample_server (Inr (Some ''other'')))
       [sample_request, sample_request]) = []"
proof -
  have "Inr (Some ''other'') \<noteq> Inr (Some (gateway_pin_der sample_server)) \<or> gateway_pin_der sample_server = []"
    by (simp add: sample_server_def)
  from backend_untrusted_peer_denied [OF this, of sample_deps sample_upstream "[sample_request, sample_request]"]
  show ?thesis by (simp add: numeral_2_eq_2)
qed

theorem backend_fixed_destination_witness:
  "list_all (\<lambda>u. up_host u = ''kong-api'' \<and> up_port u = 8443)
     (snd (handle sample_deps sample_upstream sample_server (Inr (Some ''gw'')) (Parsed sample_request)))"
  unfolding list_all_iff using backend_fixed_destination by blast

theorem fetch_evidence_outcomes_witness:
  "http_errors_only sample_upstream
   \<and> (\<exists>code v. fetch_evidence sample_deps sample_upstream (lit ''abc'') sample_expected sample_ctx = Inr (code, v))"
proof -
  have "http_errors_only sample_upstream" by (simp add: http_errors_only_def sample_upstream_def)
  then show ?thesis using fetch_evidence_outcomes by blast
qed

lemma sample_read_pin: "read_pin sample_deps f = Inr ''gw''"
  by (simp add: read_pin_def sample_deps_def PEM_cert_to_DER_cert_def PEM_HEADER_def PEM_FOOTER_def
      starts_with_def ends_with_def py_strip_def py_lstrip_def py_rstrip_def lit_def py_isspace_def Let_def)

lemma sample_contexts:
  "\<exists>i o' q. create_contexts sample_deps (from_environment (\<lambda>_. None)) = Inr (i, o', q)"
  unfolding create_contexts_def sample_read_pin
  by (simp add: verified_context_def create_default_context_def load_cert_chain_def
      sample_deps_def sample_files_def Let_def)

theorem create_contexts_identities_witness:
  "\<exists>inbound outbound pin. create_contexts sample_deps (from_environment (\<lambda>_. None)) = Inr (inbound, outbound, pin)
    \<and> verify_mode inbound = CERT_REQUIRED"
  using sample_contexts create_contexts_identities by blast

end
