(* ===== verification/Backend_Readiness.thy ===== *)
theory Backend_Readiness
  imports Third_Party_Backend
begin

text \<open>
  The readiness side channel of \<open>src/third-party-backend/app.py\<close>: the fingerprint of the public
  configuration, the server that answers \<open>READY\<close> on a Unix socket, the receive loop and validation
  of the client, and the exit code of \<open>--check-ready\<close>.

  A connection is the list of the results of its \<open>recv\<close> calls when they are not cut short by the
  requested size: segments of bytes, or an exception. An empty segment, or the end of the list, is
  the end of the stream.
\<close>

section \<open>Fingerprint of the configuration\<close>

definition encode_sorted :: "backend_deps \<Rightarrow> pyval \<Rightarrow> bytes" where
  "encode_sorted deps v = map char_of (json_dumps_sorted (json_floats deps) v)"

definition public_config :: "backend_deps \<Rightarrow> TLSFiles \<Rightarrow> pydict res" where
  "public_config deps files =
     rbind (mapr (\<lambda>(name, file). rbind (read_pin deps file) (\<lambda>der.
              Inr (K name, PStr (hexdigest (digest256 deps der)))))
            [(''ca'', ca files), (''certificate'', certificate files), (''gateway_pin'', gateway_pin files),
             (''route_a_certificate'', route_a_certificate files),
             (''route_b_certificate'', route_b_certificate files)]) (\<lambda>public.
     Inr (public @
       [(K ''target'', PList [S API_HOST, PInt API_PORT, S API_PATH]),
        (K ''routes'', PDict (map (\<lambda>(k, (route, azp, auth)). (K k, PList [S route, S azp, S auth])) ROUTES))]))"

definition public_config_hash :: "backend_deps \<Rightarrow> TLSFiles \<Rightarrow> pystr res" where
  "public_config_hash deps files =
     rbind (public_config deps files) (\<lambda>public.
       Inr (hexdigest (digest256 deps (encode_sorted deps (PDict public)))))"

section \<open>The status document\<close>

definition ready_status :: "pystr \<Rightarrow> pystr \<Rightarrow> int \<Rightarrow> pydict" where
  "ready_status gen config_hash pid =
     [(K ''schema_version'', PInt 1), (K ''ready'', PBool True), (K ''generation'', PStr gen),
      (K ''config_sha256'', PStr config_hash), (K ''pid'', PInt pid)]"

fun positive_int :: "pyval \<Rightarrow> bool" where
  "positive_int (PInt i) = (0 < i)"
| "positive_int _ = False"

definition hex_text :: "nat \<Rightarrow> pyval \<Rightarrow> bool" where
  "hex_text n v \<longleftrightarrow> (case v of PStr s \<Rightarrow> length s = n \<and> list_all is_lower_hex s | _ \<Rightarrow> False)"

definition validate_ready_status :: "pyval \<Rightarrow> pyval res" where
  "validate_ready_status v =
     (if \<not> (case v of PDict d \<Rightarrow>
               keys_are d [''schema_version'', ''ready'', ''generation'', ''config_sha256'', ''pid'']
             | _ \<Rightarrow> False)
      then raiseV ''invalid readiness status''
      else let d = the_dict v in
        if dget d ''schema_version'' \<noteq> PInt 1 \<or> dget d ''ready'' \<noteq> PBool True
           \<or> \<not> positive_int (dget d ''pid'') \<or> \<not> hex_text 32 (dget d ''generation'')
           \<or> \<not> hex_text 64 (dget d ''config_sha256'')
        then raiseV ''invalid readiness status''
        else Inr v)"

section \<open>The server side\<close>

record ready_server =
  rs_files :: TLSFiles
  rs_config_hash :: pystr
  rs_generation :: pystr

definition ready_handle :: "backend_deps \<Rightarrow> ready_server \<Rightarrow> int \<Rightarrow> bytes res \<Rightarrow> bytes option res" where
  "ready_handle deps srv pid request =
     (let reply =
        rbind request (\<lambda>data.
        if data \<noteq> ''READY'' @ [CHR 0x0A] then Inr None
        else rbind (create_contexts deps (rs_files srv)) (\<lambda>_.
          rbind (public_config_hash deps (rs_files srv)) (\<lambda>h.
          if h \<noteq> rs_config_hash srv then Inr None
          else Inr (Some (encode_sorted deps
                 (PDict (ready_status (rs_generation srv) (rs_config_hash srv) pid)) @ [CHR 0x0A])))))
      in case reply of
           Inl e \<Rightarrow> if isa_OSError e \<or> isa_ValueError e then Inr None else Inl e
         | Inr r \<Rightarrow> Inr r)"

record dir_info =
  is_dir :: bool
  mode_bits :: nat
  owner :: nat

definition ready_server_init ::
    "backend_deps \<Rightarrow> TLSFiles \<Rightarrow> dir_info res \<Rightarrow> nat \<Rightarrow> pystr \<Rightarrow> ready_server res" where
  "ready_server_init deps files parent uid uuid =
     rbind parent (\<lambda>info.
     rbind (raise_if (\<not> is_dir info \<or> mode_bits info \<noteq> 448 \<or> owner info \<noteq> uid)
              (ValueError (lit ''unsafe readiness directory''))) (\<lambda>_.
     rbind (public_config_hash deps files) (\<lambda>h.
     Inr \<lparr>rs_files = files, rs_config_hash = h, rs_generation = uuid\<rparr>)))"

section \<open>The client side\<close>

text \<open>\<open>connection.recv(n)\<close> on the remaining segments.\<close>

fun recv :: "nat \<Rightarrow> bytes res list \<Rightarrow> (bytes \<times> bytes res list) res" where
  "recv n [] = Inr ([], [])"
| "recv n (Inl e # segs) = Inl e"
| "recv n (Inr s # segs) = Inr (if length s \<le> n then (s, segs) else (take n s, Inr (drop n s) # segs))"

lemma recv_length: "recv n segs = Inr (chunk, rest) \<Longrightarrow> length chunk \<le> n"
  by (cases "(n, segs)" rule: recv.cases) (auto split: if_splits)

function recv_loop :: "bytes res list \<Rightarrow> bytes \<Rightarrow> bytes res" where
  "recv_loop segs chunks =
     (if length chunks \<le> 4096
      then rbind (recv (4097 - length chunks) segs) (\<lambda>(chunk, rest).
             if chunk = [] then Inr chunks else recv_loop rest (chunks @ chunk))
      else Inr chunks)"
  by pat_completeness auto
termination
  by (relation "measure (\<lambda>(segs, chunks). 4097 - length chunks)") (auto simp: neq_Nil_conv)

declare recv_loop.simps [simp del]

definition check_ready :: "backend_deps \<Rightarrow> bytes res list res \<Rightarrow> pyval res" where
  "check_ready deps connection =
     rbind connection (\<lambda>segs.
     rbind (recv_loop segs []) (\<lambda>chunks.
     if length chunks > 4096 then raiseV ''invalid readiness status''
     else rbind (json_bytes_text (decode_wide deps) chunks) (\<lambda>t.
       rbind (json_loads (unique_opts (json_floats deps) (RejectedEvidence (lit ''duplicate field'')))
                (recursion_limit deps) t) validate_ready_status)))"

text \<open>The branch of \<open>main\<close> under \<open>--check-ready\<close>: exit code and output.\<close>

definition main_check_ready :: "backend_deps \<Rightarrow> bytes res list res \<Rightarrow> (int \<times> pystr) res" where
  "main_check_ready deps connection =
     (case check_ready deps connection of
        Inr v \<Rightarrow> Inr (0, json_dumps_sorted (json_floats deps) v @ [10])
      | Inl e \<Rightarrow> if isa_OSError e \<or> isa_ValueError e then Inr (1, []) else Inl e)"

section \<open>The receive loop\<close>

lemma recv_loop_ok:
  "list_all (\<lambda>s. s \<noteq> []) segs \<Longrightarrow> length chunks \<le> 4097 \<Longrightarrow>
   recv_loop (map Inr segs) chunks = Inr (take 4097 (chunks @ concat segs))"
proof (induction segs arbitrary: chunks)
  case Nil
  then show ?case by (subst recv_loop.simps) simp
next
  case (Cons s segs)
  show ?case
  proof (cases "length chunks \<le> 4096")
    case False
    then show ?thesis using Cons.prems by (subst recv_loop.simps) simp
  next
    case small: True
    show ?thesis
    proof (cases "length s \<le> 4097 - length chunks")
      case True
      then have "recv_loop (map Inr segs) (chunks @ s) = Inr (take 4097 ((chunks @ s) @ concat segs))"
        using Cons.prems small by (intro Cons.IH) auto
      then show ?thesis using True small Cons.prems by (subst recv_loop.simps) simp
    next
      case False
      let ?c = "chunks @ take (4097 - length chunks) s"
      have len: "length ?c = 4097" using False small by simp
      then have "recv_loop rest ?c = Inr ?c" for rest by (subst recv_loop.simps) simp
      moreover have "take 4097 (chunks @ s @ concat segs) = ?c" using False small by simp
      ultimately show ?thesis using False small Cons.prems by (subst recv_loop.simps) simp
    qed
  qed
qed

section \<open>The status document on the wire\<close>

definition sorted_status :: "pystr \<Rightarrow> pystr \<Rightarrow> int \<Rightarrow> pydict" where
  "sorted_status gen config_hash pid =
     [(K ''config_sha256'', PStr config_hash), (K ''generation'', PStr gen), (K ''pid'', PInt pid),
      (K ''ready'', PBool True), (K ''schema_version'', PInt 1)]"

lemma ready_status_dumped:
  "json_dumps_sorted fc (PDict (ready_status g h pid)) = json_dumps fc (PDict (sorted_status g h pid))"
  by (simp add: json_dumps_sorted_def json_dumps_def ready_status_def sorted_status_def sort_key_def lit_def)

lemma lower_hex_scalar: "list_all is_lower_hex s \<Longrightarrow> list_all is_scalar s"
  by (auto simp: list_all_iff is_lower_hex_def is_digit_def is_scalar_def is_surrogate_def)

lemma quote_lower_hex: "list_all is_lower_hex s \<Longrightarrow> quote_string s = 34 # s @ [34]"
proof -
  have "is_lower_hex c \<Longrightarrow> escape_char c = [c]" for c
    by (auto simp: is_lower_hex_def is_digit_def escape_char_def)
  then show "list_all is_lower_hex s \<Longrightarrow> ?thesis"
    by (induction s) (auto simp: quote_string_def)
qed

lemma status_length:
  assumes "length g = 32" "list_all is_lower_hex g" "length h = 64" "list_all is_lower_hex h"
    and "length (show_int pid) \<le> 20"
  shows "length (json_dumps fc (PDict (sorted_status g h pid))) \<le> 4000"
proof -
  have key: "quote_string (lit n) = 34 # lit n @ [34]"
    if "n \<in> {''config_sha256'', ''generation'', ''pid'', ''ready'', ''schema_version''}" for n
    using that by (auto simp: quote_string_def escape_char_def lit_def)
  have one: "show_int 1 = [49]" by (simp add: show_int_def) (subst show_nat.simps, simp)
  show ?thesis
    using assms by (simp add: json_dumps_def sorted_status_def key quote_lower_hex one)
qed

lemma status_plain:
  assumes "list_all is_lower_hex g" "list_all is_lower_hex h" "length (show_int pid) \<le> 20"
  shows "json_plain (PDict (sorted_status g h pid))" "json_depth (PDict (sorted_status g h pid)) = 1"
proof -
  have "length (show_nat (nat \<bar>pid\<bar>)) \<le> 4300" using assms(3) by (auto simp: show_int_def split: if_splits)
  moreover have "length (show_nat 1) \<le> 4300" by (subst show_nat.simps) simp
  ultimately show "json_plain (PDict (sorted_status g h pid))"
    using assms by (simp add: sorted_status_def lower_hex_scalar lit_scalar)
  show "json_depth (PDict (sorted_status g h pid)) = 1" by (simp add: sorted_status_def)
qed

lemma validate_sorted_status:
  "length g = 32 \<Longrightarrow> list_all is_lower_hex g \<Longrightarrow> length h = 64 \<Longrightarrow> list_all is_lower_hex h \<Longrightarrow> 0 < pid \<Longrightarrow>
   validate_ready_status (PDict (sorted_status g h pid)) = Inr (PDict (sorted_status g h pid))"
  by (auto simp: validate_ready_status_def sorted_status_def keys_are_def dict_simps hex_text_def)

text \<open>A written document has no NUL character.\<close>

lemma status_ascii:
  assumes "list_all is_lower_hex g" "list_all is_lower_hex h"
  shows "list_all (\<lambda>b. 0 < b \<and> b < 128) (json_dumps fc (PDict (sorted_status g h pid)) @ [10])"
proof -
  have key: "quote_string (lit n) = 34 # lit n @ [34]"
    if "n \<in> {''config_sha256'', ''generation'', ''pid'', ''ready'', ''schema_version''}" for n
    using that by (auto simp: quote_string_def escape_char_def lit_def)
  have num: "list_all (\<lambda>b. 0 < b \<and> b < 128) (show_int i)" for i
  proof -
    have "list_all (\<lambda>b. 0 < b \<and> b < 128) (show_nat n)" for n
      using show_nat_digits [of n] by (auto simp: list_all_iff is_digit_def)
    then show ?thesis by (simp add: show_int_def)
  qed
  have hex: "list_all (\<lambda>b. 0 < b \<and> b < 128) s" if "list_all is_lower_hex s" for s
    using that by (auto simp: list_all_iff is_lower_hex_def is_digit_def)
  show ?thesis
    using assms num hex
    by (simp add: json_dumps_def sorted_status_def key quote_lower_hex) (simp add: lit_def)
qed

lemma check_ready_reply:
  assumes g: "length g = 32" "list_all is_lower_hex g" and h: "length h = 64" "list_all is_lower_hex h"
    and pid: "0 < pid" "length (show_int pid) \<le> 20" and depth: "1 \<le> recursion_limit deps"
    and segs: "list_all (\<lambda>s. s \<noteq> []) segs"
      "concat segs = map char_of (json_dumps fc (PDict (sorted_status g h pid)) @ [10])"
  shows "check_ready deps (Inr (map Inr segs)) = Inr (PDict (sorted_status g h pid))"
proof -
  let ?text = "json_dumps fc (PDict (sorted_status g h pid))"
  let ?opts = "unique_opts (json_floats deps) (RejectedEvidence (lit ''duplicate field''))"
  have len: "length (concat segs) \<le> 4001"
    using status_length [OF g h pid(2), of fc] unfolding segs(2) by simp
  have "recv_loop (map Inr segs) [] = Inr (concat segs)"
    using recv_loop_ok [OF segs(1), of "[]"] len by simp
  moreover have "json_bytes_text (decode_wide deps) (concat segs) = Inr (?text @ [10])"
    unfolding segs(2) by (rule json_bytes_text_ascii [OF status_ascii [OF g(2) h(2)]])
  moreover have "json_loads ?opts (recursion_limit deps) (?text @ [10]) = Inr (PDict (sorted_status g h pid))"
    using depth status_plain [OF g(2) h(2) pid(2)] by (intro json_loads_line unique_opts_keeps_pairs) auto
  ultimately show ?thesis
    using len validate_sorted_status [OF g h pid(1)] by (simp add: check_ready_def)
qed

section \<open>Properties\<close>

text \<open>
  C9: Round trip of the readiness channel. A server set up on a safe directory, whose certificates
  still load and hash to the same configuration, answers \<open>READY\<close> with a document that the client
  accepts however the stream is cut into segments, and the client sees the server's generation,
  configuration hash and process id.
\<close>

theorem readiness_roundtrip:
  assumes init: "ready_server_init deps files parent uid uuid = Inr srv"
    and ctx: "create_contexts deps files = Inr ctx"
    and uuid: "length uuid = 32" "list_all is_lower_hex uuid"
    and sha: "\<And>m. length (digest256 deps m) = 32"
    and pid: "0 < pid" "length (show_int pid) \<le> 20" and depth: "1 \<le> recursion_limit deps"
  shows "\<exists>reply. ready_handle deps srv pid (Inr (''READY'' @ [CHR 0x0A])) = Inr (Some reply)
    \<and> (\<forall>segs. list_all (\<lambda>s. s \<noteq> []) segs \<and> concat segs = reply \<longrightarrow>
         check_ready deps (Inr (map Inr segs))
         = Inr (PDict (sorted_status uuid (rs_config_hash srv) pid)))"
proof -
  from init obtain h where h: "public_config_hash deps files = Inr h"
    and srv: "srv = \<lparr>rs_files = files, rs_config_hash = h, rs_generation = uuid\<rparr>"
    by (auto simp: ready_server_init_def rbind_eq_Inr_iff raise_if_eq_Inr_iff)
  have hex: "length h = 64" "list_all is_lower_hex h"
    using h sha hexdigest_shape by (auto simp: public_config_hash_def rbind_eq_Inr_iff)
  let ?reply = "map char_of (json_dumps (json_floats deps) (PDict (sorted_status uuid h pid)) @ [10]) :: bytes"
  have "(CHR 0x0A :: char) = char_of (10 :: nat)" by code_simp
  then have "ready_handle deps srv pid (Inr (''READY'' @ [CHR 0x0A])) = Inr (Some ?reply)"
    by (simp add: ready_handle_def srv ctx h encode_sorted_def ready_status_dumped)
  moreover have "check_ready deps (Inr (map Inr segs)) = Inr (PDict (sorted_status uuid h pid))"
    if "list_all (\<lambda>s. s \<noteq> []) segs" "concat segs = ?reply" for segs
    using check_ready_reply [OF uuid hex pid depth that] .
  ultimately show ?thesis by (auto simp: srv)
qed

text \<open>
  The client reports readiness (exit code 0) only for a stream of at most 4096 bytes that holds
  one status document: the five keys and no other, schema 1, ready, a positive process id, and
  lower-case hexadecimal generation and configuration hash of the right lengths.
\<close>

theorem check_ready_exit_zero:
  assumes "list_all (\<lambda>s. s \<noteq> []) segs"
    and "main_check_ready deps (Inr (map Inr segs)) = Inr (0, out)"
  shows "length (concat segs) \<le> 4096
    \<and> (\<exists>d g h pid. out = json_dumps_sorted (json_floats deps) (PDict d) @ [10]
        \<and> keys_are d [''schema_version'', ''ready'', ''generation'', ''config_sha256'', ''pid'']
        \<and> dget d ''schema_version'' = PInt 1 \<and> dget d ''ready'' = PBool True
        \<and> dget d ''pid'' = PInt pid \<and> 0 < pid
        \<and> dget d ''generation'' = PStr g \<and> length g = 32 \<and> list_all is_lower_hex g
        \<and> dget d ''config_sha256'' = PStr h \<and> length h = 64 \<and> list_all is_lower_hex h)"
proof -
  have pos: "positive_int v \<longleftrightarrow> (\<exists>i. v = PInt i \<and> 0 < i)" for v by (cases v) auto
  have hex: "hex_text n v \<longleftrightarrow> (\<exists>s. v = PStr s \<and> length s = n \<and> list_all is_lower_hex s)" for n v
    by (cases v) (auto simp: hex_text_def)
  from assms(2) obtain v where v: "check_ready deps (Inr (map Inr segs)) = Inr v"
    and out: "out = json_dumps_sorted (json_floats deps) v @ [10]"
    by (auto simp: main_check_ready_def split: sum.splits if_splits)
  have loop: "recv_loop (map Inr segs) [] = Inr (take 4097 (concat segs))"
    using recv_loop_ok [OF assms(1), of "[]"] by simp
  have same: "validate_ready_status x = Inr y \<Longrightarrow> y = x" for x y
    by (auto simp: validate_ready_status_def Let_def split: if_splits)
  from v have "length (concat segs) \<le> 4096" and valid: "validate_ready_status v = Inr v"
    by (auto simp: check_ready_def loop rbind_eq_Inr_iff dest: same split: if_splits)
  moreover obtain d where "v = PDict d" using valid by (cases v) (auto simp: validate_ready_status_def)
  ultimately show ?thesis
    using valid out by (auto simp: validate_ready_status_def pos hex Let_def split: if_splits)
qed

definition sample_ready :: ready_server where
  "sample_ready =
     \<lparr>rs_files = from_environment (\<lambda>_. None),
      rs_config_hash = hexdigest (replicate 32 (CHR ''k'')), rs_generation = replicate 32 97\<rparr>"

lemma sample_ready_init:
  "ready_server_init sample_deps (from_environment (\<lambda>_. None))
     (Inr \<lparr>is_dir = True, mode_bits = 448, owner = 7\<rparr>) 7 (replicate 32 97) = Inr sample_ready"
  by (simp add: ready_server_init_def public_config_hash_def public_config_def sample_read_pin sample_ready_def)
    (simp add: sample_deps_def)

theorem readiness_roundtrip_witness:
  "\<exists>reply segs. ready_handle sample_deps sample_ready 42 (Inr (''READY'' @ [CHR 0x0A])) = Inr (Some reply)
    \<and> concat segs = reply
    \<and> check_ready sample_deps (Inr (map Inr segs))
       = Inr (PDict (sorted_status (replicate 32 97) (rs_config_hash sample_ready) 42))"
proof -
  obtain ctx where ctx: "create_contexts sample_deps (from_environment (\<lambda>_. None)) = Inr ctx"
    using sample_contexts by blast
  have "length (show_int 42) \<le> 20"
    by (simp add: show_int_def) (subst show_nat.simps, simp, subst show_nat.simps, simp)
  then obtain reply where reply: "ready_handle sample_deps sample_ready 42 (Inr (''READY'' @ [CHR 0x0A])) = Inr (Some reply)"
    and all: "\<forall>segs. list_all (\<lambda>s. s \<noteq> []) segs \<and> concat segs = reply \<longrightarrow>
         check_ready sample_deps (Inr (map Inr segs))
         = Inr (PDict (sorted_status (replicate 32 97) (rs_config_hash sample_ready) 42))"
    using readiness_roundtrip [OF sample_ready_init ctx, of 42]
    by (auto simp: sample_deps_def list_all_iff is_lower_hex_def)
  show ?thesis
  proof (cases "reply = []")
    case True
    then show ?thesis using reply all [rule_format, of "[]"] by (intro exI [of _ reply] exI [of _ "[]"]) simp
  next
    case False
    then show ?thesis using reply all [rule_format, of "[reply]"] by (intro exI [of _ reply] exI [of _ "[reply]"]) simp
  qed
qed

theorem check_ready_exit_zero_witness:
  "length (concat [map char_of (json_dumps (json_floats sample_deps)
      (PDict (sorted_status (replicate 32 97) (replicate 64 97) 42)) @ [10]) :: bytes]) \<le> 4096"
proof -
  let ?seg = "map char_of (json_dumps (json_floats sample_deps)
      (PDict (sorted_status (replicate 32 97) (replicate 64 97) 42)) @ [10]) :: bytes"
  have num: "length (show_int 42) \<le> 20"
    by (simp add: show_int_def) (subst show_nat.simps, simp, subst show_nat.simps, simp)
  have hex: "list_all is_lower_hex (replicate n 97)" for n
    by (simp add: list_all_iff is_lower_hex_def)
  have "check_ready sample_deps (Inr (map Inr [?seg])) = Inr (PDict (sorted_status (replicate 32 97) (replicate 64 97) 42))"
    by (rule check_ready_reply [OF _ hex _ hex _ num]) (simp_all add: sample_deps_def)
  then obtain out where "main_check_ready sample_deps (Inr (map Inr [?seg])) = Inr (0, out)"
    by (simp add: main_check_ready_def)
  then show ?thesis using check_ready_exit_zero [of "[?seg]"] by simp
qed

end
