(* ===== verification/End_To_End.thy ===== *)
theory End_To_End
  imports Pop_Verifier Backend_Readiness
begin

text \<open>
  The two services together: the evidence that the verifier answers with is a document the backend
  accepts, through the JSON text on the wire, its size limit and its content checks. The API
  gateway between them is taken to pass status, headers and body of the verifier's response on
  unchanged (\<open>passed_on\<close>).
\<close>

section \<open>The response on the wire\<close>

definition passed_on :: "response \<Rightarrow> upstream_response" where
  "passed_on r =
     \<lparr>up_status = status r, up_resp_headers = resp_headers r, up_read = (\<lambda>n. Inr (take n (body r)))\<rparr>"

lemma show_nat_length: "n < 10 ^ k \<Longrightarrow> 0 < k \<Longrightarrow> length (show_nat n) \<le> k"
proof (induction k arbitrary: n)
  case (Suc k)
  show ?case
  proof (cases "n < 10")
    case True
    then show ?thesis by (subst show_nat.simps) simp
  next
    case False
    then have "0 < k" using Suc.prems by (cases k) auto
    moreover have "n div 10 < 10 ^ k" using Suc.prems by (simp add: less_mult_imp_div_less)
    ultimately have "length (show_nat (n div 10)) \<le> k" by (rule Suc.IH [rotated])
    then show ?thesis using False by (subst show_nat.simps) simp
  qed
qed simp

lemma json_headers:
  "get_all_or (JSON_HEADERS data) ''Content-Length'' [] = [show_nat (length data)]"
  "content_type_ok (JSON_HEADERS data)"
  by (simp_all add: get_all_or_def get_all_def JSON_HEADERS_def content_type_ok_def py_lower_def
      latin1_lower_def lit_def py_strip_def py_lstrip_def py_rstrip_def py_isspace_def del: show_nat.simps)

lemma read_evidence_passed_on:
  assumes "length (json_body fc v) \<le> 16384" "json_plain v" "json_depth v \<le> recursion_limit deps"
  shows "read_evidence deps expected (passed_on (Pop_Verifier.json_response fc 200 v []))
    = rbind (project_evidence deps (json_body fc v) expected) (\<lambda>result. Inr (200, PDict result))"
proof -
  let ?n = "length (json_body fc v)"
  have "length (show_nat ?n) \<le> 10" using assms(1) by (intro show_nat_length) simp_all
  then have "lengths_ok [show_nat ?n]"
    using assms(1) show_nat_digits [of ?n] by (simp add: lengths_ok_def MAX_RESPONSE_BYTES_def)
  then show ?thesis
    using assms(1) by (simp add: read_evidence_def passed_on_def Pop_Verifier.json_response_def Let_def
        json_headers MAX_RESPONSE_BYTES_def)
qed

section \<open>Size of the evidence\<close>

lemma escape_char_length: "length (escape_char c) \<le> 12"
  by (simp add: escape_char_def uescape_def)

lemma quote_string_length: "length (quote_string s) \<le> 12 * length s + 2"
proof -
  have "length (concat (map escape_char s)) \<le> 12 * length s"
  proof (induction s)
    case (Cons c s)
    then show ?case using escape_char_length [of c] by simp
  qed simp
  then show ?thesis by (simp add: quote_string_def)
qed

definition plain_ascii :: "nat \<Rightarrow> bool" where
  "plain_ascii c \<longleftrightarrow> 32 \<le> c \<and> c < 127 \<and> c \<noteq> 34 \<and> c \<noteq> 92"

lemma quote_plain_length: "list_all plain_ascii s \<Longrightarrow> length (quote_string s) = length s + 2"
proof -
  have "plain_ascii c \<Longrightarrow> escape_char c = [c]" for c by (auto simp: plain_ascii_def escape_char_def)
  then show "list_all plain_ascii s \<Longrightarrow> ?thesis" by (induction s) (auto simp: quote_string_def)
qed

text \<open>A text field of the evidence: \<open>None\<close> or a printable text of at most 256 characters.\<close>

definition printable :: "pyval \<Rightarrow> bool" where
  "printable v \<longleftrightarrow>
     (case v of PNone \<Rightarrow> True
      | PStr s \<Rightarrow> length s \<le> 256 \<and> list_all (\<lambda>c. \<not> (c < 32 \<or> c = 127) \<and> is_scalar c) s
      | _ \<Rightarrow> False)"

lemma printable_size: "printable v \<Longrightarrow> length (json_dumps fc v) \<le> 3074"
proof (cases v)
  case (PStr s)
  moreover assume "printable v"
  ultimately show ?thesis using quote_string_length [of s] by (simp add: printable_def json_dumps_def)
qed (simp_all add: printable_def json_dumps_def)

lemma printable_plain: "printable v \<Longrightarrow> json_plain v \<and> json_depth v = 0"
  by (cases v) (auto simp: printable_def list_all_iff)

section \<open>The evidence document is accepted\<close>

definition routing_items :: "pyval \<Rightarrow> pyval \<Rightarrow> pyval \<Rightarrow> pyval \<Rightarrow> bool \<Rightarrow> pydict" where
  "routing_items a b c e m =
     [(K ''department'', a), (K ''logical_route'', b), (K ''department_header'', c),
      (K ''logical_route_header'', e), (K ''header_claims_match'', PBool m)]"

lemma routing_form:
  obtains a b c e m where
    "routing_evidence hs claims = routing_items a b c e m" "m \<longrightarrow> a = c \<and> b = e \<and> py_true a \<and> py_true b"
proof -
  have "constant_time_text_equal x y \<Longrightarrow> x = y" for x y
    by (cases x; cases y) (auto simp: constant_time_text_equal_iff, auto simp: constant_time_text_equal_def)
  then show thesis
    by (intro that) (auto simp: routing_evidence_def routing_items_def Let_def)
qed

definition document :: "string \<Rightarrow> string \<Rightarrow> string \<Rightarrow> pystr \<Rightarrow> pystr \<Rightarrow> pydict \<Rightarrow> pydict" where
  "document azp route auth tp ptp routing =
     [(K ''azp'', S azp), (K ''route'', S route), (K ''client_authentication'', S auth),
      (K ''token_certificate_thumbprint'', PStr tp),
      (K ''forwarded_client_certificate_thumbprint'', PStr tp),
      (K ''api_gateway_tls_peer_certificate_thumbprint'', PStr ptp),
      (K ''token_signature_verified'', PBool True), (K ''binding_verified'', PBool True)] @ routing"

lemma document_plain:
  assumes "printable a" "printable b" "printable c" "printable e"
    and "list_all is_scalar tp" "list_all is_scalar ptp"
  shows "json_plain (PDict (document azp route auth tp ptp (routing_items a b c e m)))"
    and "json_depth (PDict (document azp route auth tp ptp (routing_items a b c e m))) = 1"
  using assms printable_plain
  by (simp_all add: document_def routing_items_def lit_scalar)

lemma thumbprint_plain: "list_all is_b64url t \<Longrightarrow> list_all plain_ascii t \<and> list_all is_scalar t"
  by (auto simp: list_all_iff is_b64url_def is_digit_def plain_ascii_def is_scalar_def is_surrogate_def)

lemma document_size:
  assumes "printable a" "printable b" "printable c" "printable e"
    and "length tp = 43" "list_all is_b64url tp" "length ptp = 43" "list_all is_b64url ptp"
    and "list_all plain_ascii (lit azp)" "list_all plain_ascii (lit route)" "list_all plain_ascii (lit auth)"
    and "length azp + length route + length auth \<le> 100"
  shows "length (json_body fc (PDict (document azp route auth tp ptp (routing_items a b c e m)))) \<le> 16384"
proof -
  have key: "length (quote_string (lit n)) = length n + 2" if "list_all (\<lambda>c. plain_ascii (of_char c)) n" for n
    using quote_plain_length [of "lit n"] that by (simp add: list_all_lit_iff)
  have texts: "length (dumps_with fc (\<lambda>items. items) v) \<le> 3074" if "printable v" for v
    using printable_size [OF that, of fc] by (simp add: json_dumps_def)
  have thumbs: "length (quote_string tp) = 45" "length (quote_string ptp) = 45"
    using assms thumbprint_plain quote_plain_length by simp_all
  have ids: "length (quote_string (lit azp)) = length azp + 2"
    "length (quote_string (lit route)) = length route + 2" "length (quote_string (lit auth)) = length auth + 2"
    using assms quote_plain_length by simp_all
  show ?thesis
    using texts [OF assms(1)] texts [OF assms(2)] texts [OF assms(3)] texts [OF assms(4)] assms(12)
    by (simp add: json_body_def json_dumps_def document_def routing_items_def key plain_ascii_def thumbs ids)
qed

lemma printable_eq: "printable v \<Longrightarrow> py_eq v v"
  by (cases v) (simp_all add: printable_def)

lemma printable_valid_text: "dhas d n \<Longrightarrow> printable (dget d n) \<Longrightarrow> valid_text d n"
  by (cases "dget d n") (auto simp: valid_text_def printable_def list_all_iff)

lemma document_accepted:
  assumes "printable a" "printable b" "printable c" "printable e"
    and "length tp = 43" "list_all is_b64url tp" "length ptp = 43" "list_all is_b64url ptp"
    and match: "m \<longrightarrow> a = c \<and> b = e \<and> py_true a \<and> py_true b"
  shows "accepted (route, azp, auth) (document azp route auth tp ptp (routing_items a b c e m))"
    and "consistent (document azp route auth tp ptp (routing_items a b c e m))"
proof -
  let ?d = "document azp route auth tp ptp (routing_items a b c e m)"
  note doc = document_def routing_items_def dict_simps
  have "list_all (valid_text ?d) TEXT_FIELDS"
    using assms(1-4) by (auto simp: TEXT_FIELDS_def doc intro!: printable_valid_text)
  then show "accepted (route, azp, auth) ?d"
    using assms by (simp add: accepted_def THUMBPRINT_FIELDS_def VERIFICATION_FIELDS_def
        valid_thumbprint_def valid_verification_def doc)
  have "py_eq a a" "py_eq b b" using printable_eq assms(1,2) by blast+
  then show "consistent ?d" using match by (auto simp: consistent_def TEXT_FIELDS_def doc)
qed

lemma fetch_document:
  assumes texts: "printable a" "printable b" "printable c" "printable e"
    and thumbs: "length tp = 43" "list_all is_b64url tp" "length ptp = 43" "list_all is_b64url ptp"
    and ids: "list_all plain_ascii (lit azp)" "list_all plain_ascii (lit route)" "list_all plain_ascii (lit auth)"
      "length azp + length route + length auth \<le> 100"
    and match: "m \<longrightarrow> a = c \<and> b = e \<and> py_true a \<and> py_true b"
    and depth: "1 \<le> recursion_limit deps"
    and up: "up (evidence_request token ctx) = Inr (passed_on (Pop_Verifier.json_response fc 200
        (PDict (document azp route auth tp ptp (routing_items a b c e m))) []))"
  shows "fetch_evidence deps up token (route, azp, auth) ctx
    = Inr (200, PDict (projected (document azp route auth tp ptp (routing_items a b c e m)) (route, azp, auth)))"
proof -
  let ?d = "document azp route auth tp ptp (routing_items a b c e m)"
  have scalar: "list_all is_scalar tp" "list_all is_scalar ptp" using thumbs thumbprint_plain by auto
  note plain = document_plain [OF texts scalar, of azp route auth m]
  have "parse_evidence deps (json_body fc (PDict ?d)) = Inr (PDict ?d)"
    using plain depth by (intro parse_evidence_body) simp_all
  then have "project_evidence deps (json_body fc (PDict ?d)) (route, azp, auth)
      = Inr (projected ?d (route, azp, auth))"
    using document_accepted [OF texts thumbs match] by (simp add: project_evidence_accepts)
  then show ?thesis
    using document_size [OF texts thumbs ids, of fc m] plain depth
    by (simp add: fetch_evidence_def up read_evidence_passed_on)
qed

section \<open>Properties\<close>

text \<open>
  C5: End to end. When the verifier grants evidence for the authorized party of a route, and the
  routing texts are printable, the backend that fetched it for that route returns 200 with exactly
  the verifier's thirteen fields: the thumbprint of the forwarded client certificate, that of the
  pinned gateway, and the routing claims. In particular the evidence never exceeds the backend's
  16384 byte limit and survives the JSON text.
\<close>

theorem evidence_end_to_end:
  assumes peer: "pinned_peer deps pin (Inr (Some p))" "path req = lit ''/evidence''"
    and ent: "entitled cfg deps (req_headers req) claims (lit azp) der"
    and route: "map_of AZP_ROUTES (lit azp) = Some (route, auth)"
    and sha: "\<And>m. length (sha256 deps m) = 32"
    and texts: "\<And>n. n \<in> set TEXT_FIELDS \<Longrightarrow> printable (dget (routing_evidence (req_headers req) claims) n)"
    and depth: "1 \<le> recursion_limit bdeps"
    and up: "up (evidence_request token ctx)
      = Inr (passed_on (Pop_Verifier.do_GET cfg deps pin (Inr (Some p)) req))"
  shows "fetch_evidence bdeps up token (route, azp, auth) ctx = Inr (200, PDict
    ([(K ''route'', S route), (K ''azp'', S azp), (K ''client_authentication'', S auth)]
     @ map (\<lambda>n. (K n, dget (routing_evidence (req_headers req) claims) n)) TEXT_FIELDS
     @ [(K ''token_certificate_thumbprint'', PStr (base64url_sha256 deps der)),
        (K ''forwarded_client_certificate_thumbprint'', PStr (base64url_sha256 deps der)),
        (K ''api_gateway_tls_peer_certificate_thumbprint'', PStr (base64url_sha256 deps p)),
        (K ''token_signature_verified'', PBool True), (K ''binding_verified'', PBool True),
        (K ''header_claims_match'',
         dget (routing_evidence (req_headers req) claims) ''header_claims_match'')]))"
proof -
  let ?tp = "base64url_sha256 deps der" and ?ptp = "base64url_sha256 deps p"
  obtain a b c e m where routing: "routing_evidence (req_headers req) claims = routing_items a b c e m"
    and match: "m \<longrightarrow> a = c \<and> b = e \<and> py_true a \<and> py_true b"
    by (rule routing_form [of "req_headers req" claims])
  have thumb: "length (base64url_sha256 deps x) = 43" "list_all is_b64url (base64url_sha256 deps x)" for x
    using base64url_shape [of "sha256 deps x"] sha by (simp_all add: base64url_sha256_def)
  have print: "printable a" "printable b" "printable c" "printable e"
    using texts [of "''department''"] texts [of "''logical_route''"] texts [of "''department_header''"]
      texts [of "''logical_route_header''"] unfolding routing
    by (simp_all add: TEXT_FIELDS_def routing_items_def dict_simps)
  have ids: "list_all plain_ascii (lit azp)" "list_all plain_ascii (lit route)"
    "list_all plain_ascii (lit auth)" "length azp + length route + length auth \<le> 100"
    using route by (auto simp: AZP_ROUTES_def list_all_lit_iff plain_ascii_def split: if_splits)
  have "evidence_items (lit azp) route auth ?tp ?ptp (req_headers req) claims
      = document azp route auth ?tp ?ptp (routing_items a b c e m)"
    by (simp add: evidence_items_def document_def routing)
  then have "up (evidence_request token ctx) = Inr (passed_on (Pop_Verifier.json_response (floats deps) 200
        (PDict (document azp route auth ?tp ?ptp (routing_items a b c e m))) []))"
    using up do_GET_entitled [OF peer ent route] by simp
  from fetch_document [where up = up and token = token and ctx = ctx,
      OF print thumb [of der] thumb [of p] ids match depth this]
  show ?thesis
    unfolding routing
    by (simp add: projected_def field_defs document_def routing_items_def dict_simps)
qed

lemma demo_routing:
  "routing_evidence demo_headers demo_claims
   = routing_items (S ''payments'') (S ''route-a'') (S ''payments'') (S ''route-a'') True"
proof -
  have "get_header demo_headers ''X-Demo-Department'' = Some (lit ''payments'')"
    "get_header demo_headers ''X-Demo-Route'' = Some (lit ''route-a'')"
    by (simp_all add: get_header_def get_all_def demo_headers_def py_lower_def latin1_lower_def lit_def
        del: quote_all_simps)
  then show ?thesis
    by (simp add: routing_evidence_def routing_items_def demo_claims_def dict_simps DEPARTMENT_CLAIM_def
        ROUTE_CLAIM_def safe_evidence_text_def constant_time_text_equal_iff lit_scalar Let_def)
qed

theorem evidence_end_to_end_witness:
  "\<exists>result. fetch_evidence sample_deps
      (\<lambda>_. Inr (passed_on (Pop_Verifier.do_GET demo_config demo_deps (Some ''gw'') (Inr (Some ''gw''))
        (demo_request ''/evidence'')))) (lit ''t'')
      (''route-a'', ''third-party-fapi-mtls'', ''tls_client_auth'') sample_ctx = Inr (200, PDict result)
    \<and> dget result ''department_header'' = S ''payments'' \<and> dget result ''header_claims_match'' = PBool True"
proof -
  have req: "path (demo_request ''/evidence'') = lit ''/evidence''"
    "req_headers (demo_request ''/evidence'') = demo_headers" by (simp_all add: demo_request_def)
  have route: "map_of AZP_ROUTES (lit ''third-party-fapi-mtls'') = Some (''route-a'', ''tls_client_auth'')"
    by (simp add: AZP_ROUTES_def)
  have texts: "printable (dget (routing_evidence (req_headers (demo_request ''/evidence'')) demo_claims) n)"
    if "n \<in> set TEXT_FIELDS" for n
  proof -
    have "printable (S ''payments'')" "printable (S ''route-a'')"
      by (simp_all add: printable_def lit_def is_scalar_def is_surrogate_def)
    then show ?thesis
      using that by (auto simp: req demo_routing routing_items_def TEXT_FIELDS_def dict_simps)
  qed
  have sha: "length (sha256 demo_deps x) = 32" for x by (simp add: demo_deps_def demo_digest_def)
  have limit: "1 \<le> recursion_limit sample_deps" by (simp add: sample_deps_def)
  show ?thesis
    using evidence_end_to_end [OF demo_pinned req(1) demo_entitled [folded req(2)] route sha texts limit,
        of "\<lambda>_. Inr (passed_on (Pop_Verifier.do_GET demo_config demo_deps (Some ''gw'') (Inr (Some ''gw''))
        (demo_request ''/evidence'')))" "lit ''t''" sample_ctx]
    by (simp add: req demo_routing routing_items_def TEXT_FIELDS_def dict_simps)
qed

end
