(* ===== verification/Rsa_Jwk.thy ===== *)
theory Rsa_Jwk
  imports Py_Json_Roundtrip
begin

text \<open>
  \<open>src/scripts/export-rsa-jwk.py\<close>: the reader of the PKCS#1 private key in DER, the base64url
  encoding of its integers, and the JWK and environment files written from it. The two runs of
  \<open>openssl\<close> and SHA-256 are parameters.

  Offsets into a byte string are natural numbers; indexing past the end raises \<open>IndexError\<close> and a
  slice is cut at the end, as in the source.
\<close>

section \<open>Integers as bytes\<close>

definition from_bytes :: "bytes \<Rightarrow> nat" where
  "from_bytes bs = foldl (\<lambda>a b. 256 * a + of_char b) 0 bs"

fun to_bytes :: "nat \<Rightarrow> nat \<Rightarrow> bytes" where
  "to_bytes 0 v = []"
| "to_bytes (Suc n) v = to_bytes n (v div 256) @ [char_of (v mod 256)]"

fun bit_length :: "nat \<Rightarrow> nat" where
  "bit_length n = (if n = 0 then 0 else Suc (bit_length (n div 2)))"

declare bit_length.simps [simp del]

section \<open>The DER reader\<close>

definition read_length :: "bytes \<Rightarrow> nat \<Rightarrow> (nat \<times> nat) res" where
  "read_length data offset =
     (if offset \<ge> length data then Inl IndexError
      else let first = of_char (data ! offset) :: nat; offset = offset + 1 in
        if first < 128 then Inr (first, offset)
        else let count = first mod 128 in
          if count = 0 \<or> count > 4 then raiseV ''unsupported DER length''
          else let fin = offset + count in Inr (from_bytes (take (fin - offset) (drop offset data)), fin))"

definition read_value :: "bytes \<Rightarrow> nat \<Rightarrow> nat \<Rightarrow> (bytes \<times> nat) res" where
  "read_value data offset expected_tag =
     (if offset \<ge> length data \<or> of_char (data ! offset) \<noteq> expected_tag
      then Inl (ValueError (lit ''unexpected DER tag at offset '' @ show_nat offset))
      else rbind (read_length data (offset + 1)) (\<lambda>(len, start).
        let fin = start + len in
        if fin > length data then raiseV ''truncated DER value''
        else Inr (take (fin - start) (drop start data), fin)))"

lemma read_length_advances: "read_length data offset = Inr (n, start) \<Longrightarrow> offset < start"
  by (auto simp: read_length_def Let_def split: if_splits)

lemma read_value_advances:
  "read_value data offset tag = Inr (v, fin) \<Longrightarrow> offset < fin \<and> fin \<le> length data"
  by (auto simp: read_value_def Let_def rbind_eq_Inr_iff dest!: read_length_advances split: if_splits)

text \<open>The loop over the members of the sequence.\<close>

function read_integers :: "bytes \<Rightarrow> nat \<Rightarrow> nat list \<Rightarrow> nat list res" where
  "read_integers sequence offset values =
     (if offset < length sequence
      then rbind (read_value sequence offset 2) (\<lambda>(encoded, offset').
             read_integers sequence offset' (values @ [from_bytes encoded]))
      else Inr values)"
  by pat_completeness auto
termination
  by (relation "measure (\<lambda>(sequence, offset, values). length sequence - offset)")
    (auto dest: read_value_advances)

declare read_integers.simps [simp del]

definition parse_rsa_private_key :: "bytes \<Rightarrow> nat list res" where
  "parse_rsa_private_key stdout =
     rbind (read_value stdout 0 48) (\<lambda>(sequence, fin).
     if fin \<noteq> length stdout then raiseV ''unexpected trailing DER data''
     else rbind (read_integers sequence 0 []) (\<lambda>values.
       if length values \<noteq> 9 \<or> hd values \<notin> {0, 1} then raiseV ''unsupported RSA private key''
       else Inr (tl values)))"

text \<open>\<open>openssl rsa\<close> and \<open>openssl pkey\<close> on the key file.\<close>

record jwk_deps =
  openssl_rsa :: "pystr \<Rightarrow> bytes res"
  openssl_pkey :: "pystr \<Rightarrow> bytes res"
  jwk_sha256 :: "bytes \<Rightarrow> bytes"
  jwk_floats :: float_codec

definition read_rsa_private_key :: "jwk_deps \<Rightarrow> pystr \<Rightarrow> nat list res" where
  "read_rsa_private_key deps path = rbind (openssl_rsa deps path) parse_rsa_private_key"

definition base64url_uint :: "nat \<Rightarrow> pystr" where
  "base64url_uint v = (let size = max 1 ((bit_length v + 7) div 8) in base64url (to_bytes size v))"

definition keycloak_key_id :: "jwk_deps \<Rightarrow> pystr \<Rightarrow> pystr res" where
  "keycloak_key_id deps path = rbind (openssl_pkey deps path) (\<lambda>der. Inr (base64url (jwk_sha256 deps der)))"

section \<open>The script\<close>

definition jwk_items :: "pystr \<Rightarrow> nat list \<Rightarrow> pydict" where
  "jwk_items kid values =
     [(K ''kty'', S ''RSA''), (K ''kid'', PStr kid), (K ''use'', S ''sig''), (K ''alg'', S ''PS256'')]
     @ map (\<lambda>(name, v). (K name, PStr (base64url_uint v)))
         (zip [''n'', ''e'', ''d'', ''p'', ''q'', ''dp'', ''dq'', ''qi''] values)"

text \<open>A file written: its name, text and mode.\<close>

type_synonym file_write = "pystr \<times> pystr \<times> nat"

definition export_jwk :: "jwk_deps \<Rightarrow> pystr list \<Rightarrow> file_write list res" where
  "export_jwk deps argv =
     (case argv of
        [_, private_key, jwk_output, env_output] \<Rightarrow>
          rbind (read_rsa_private_key deps private_key) (\<lambda>values.
          rbind (keycloak_key_id deps private_key) (\<lambda>kid.
          let jwk = jwk_items kid values;
              compact = json_dumps (jwk_floats deps) (PDict jwk)
          in Inr [(jwk_output, compact @ [10], 384),
                  (env_output,
                   lit ''DECK_ROUTE_B_JWK_KID='' @ the_str (dget jwk ''kid'') @ [10]
                   @ lit ''DECK_ROUTE_B_JWK_N='' @ the_str (dget jwk ''n'') @ [10]
                   @ lit ''DECK_ROUTE_B_JWK_E='' @ the_str (dget jwk ''e'') @ [10]
                   @ lit ''ROUTE_B_JWK=''  @ [39] @ compact @ [39, 10], 384)]))
      | _ \<Rightarrow> Inl (SystemExit (lit ''usage: export-rsa-jwk.py PRIVATE_KEY JWK_OUTPUT ENV_OUTPUT'')))"

section \<open>Integers\<close>

lemma from_bytes_snoc: "from_bytes (bs @ [b]) = 256 * from_bytes bs + of_char b"
  by (simp add: from_bytes_def)

lemma length_to_bytes [simp]: "length (to_bytes n v) = n"
  by (induction n arbitrary: v) auto

lemma from_bytes_to_bytes: "v < 256 ^ n \<Longrightarrow> from_bytes (to_bytes n v) = v"
proof (induction n arbitrary: v)
  case 0
  then show ?case by (simp add: from_bytes_def)
next
  case (Suc n)
  then have "v div 256 < 256 ^ n" by (simp add: less_mult_imp_div_less mult.commute)
  then have "from_bytes (to_bytes n (v div 256)) = v div 256" by (rule Suc.IH)
  then show ?case by (simp add: from_bytes_snoc)
qed

lemma less_two_power_bit_length: "v < 2 ^ bit_length v"
proof (induction v rule: bit_length.induct)
  case (1 n)
  show ?case
  proof (cases "n = 0")
    case False
    then have "n div 2 < 2 ^ bit_length (n div 2)" by (rule 1)
    then show ?thesis using False by (subst bit_length.simps) simp
  qed simp
qed

lemma power_bit_length_le: "v \<noteq> 0 \<Longrightarrow> 2 ^ (bit_length v - 1) \<le> v"
proof (induction v rule: bit_length.induct)
  case (1 n)
  show ?case
  proof (cases "n div 2 = 0")
    case True
    then have "bit_length n = 1" using 1 by (subst bit_length.simps) (simp add: bit_length.simps [of 0])
    then show ?thesis using 1 by simp
  next
    case False
    then have "2 ^ (bit_length (n div 2) - 1) \<le> n div 2" using 1 by blast
    moreover have "bit_length n = Suc (bit_length (n div 2))" using 1(2) by (subst bit_length.simps) simp
    moreover have "bit_length (n div 2) \<noteq> 0" using False by (subst bit_length.simps) simp
    ultimately show ?thesis by (cases "bit_length (n div 2)") auto
  qed
qed

lemma uint_size: "v < 256 ^ max 1 ((bit_length v + 7) div 8)"
proof -
  let ?size = "(bit_length v + 7) div 8"
  have "bit_length v \<le> 8 * ?size" by simp
  then have "(2 :: nat) ^ bit_length v \<le> 2 ^ (8 * ?size)" by (intro power_increasing) auto
  also have "\<dots> = 256 ^ ?size" by (simp add: power_mult)
  also have "\<dots> \<le> 256 ^ max 1 ?size" by (intro power_increasing) auto
  finally show ?thesis using less_two_power_bit_length [of v] by linarith
qed

lemma uint_b64url: "list_all is_b64url (base64url_uint v)"
  using base64url_shape by (simp add: base64url_uint_def Let_def)

text \<open>
  Every member of the JWK decodes to the integer of the key: the base64url text of a number is
  non-empty, uses the URL-safe alphabet without padding, and its decoded big-endian bytes denote
  the number.
\<close>

theorem base64url_uint_roundtrip:
  "from_bytes (base64url_decode (base64url_uint v)) = v
   \<and> base64url_uint v \<noteq> [] \<and> list_all is_b64url (base64url_uint v)"
proof -
  let ?n = "max 1 ((bit_length v + 7) div 8)"
  have "length (base64url (to_bytes ?n v)) = (4 * ?n + 2) div 3"
    using base64url_shape [of "to_bytes ?n v"] by simp
  moreover have "(4 * n + 2) div 3 \<noteq> 0" if "1 \<le> n" for n :: nat using that by linarith
  ultimately have "base64url (to_bytes ?n v) \<noteq> []" by (metis length_0_conv max.cobounded1)
  then show ?thesis
    using uint_size [of v] base64url_shape [of "to_bytes ?n v"]
    by (simp add: base64url_uint_def Let_def base64url_decode_encode from_bytes_to_bytes)
qed

section \<open>The key format\<close>

text \<open>The distinguished encoding that \<open>openssl rsa -traditional -outform DER\<close> writes.\<close>

definition der_length :: "nat \<Rightarrow> bytes" where
  "der_length n =
     (if n < 128 then [char_of n]
      else let k = (bit_length n + 7) div 8 in char_of (128 + k) # to_bytes k n)"

definition der_tlv :: "nat \<Rightarrow> bytes \<Rightarrow> bytes" where
  "der_tlv tag content = char_of tag # der_length (length content) @ content"

definition der_uint :: "nat \<Rightarrow> bytes" where
  "der_uint v = der_tlv 2 (to_bytes (bit_length v div 8 + 1) v)"

lemma bit_length_mono_bound: "v < 2 ^ k \<Longrightarrow> bit_length v \<le> k"
proof (cases "v = 0")
  case True
  then show ?thesis by (subst bit_length.simps) simp
next
  case False
  assume "v < 2 ^ k"
  then have "2 ^ (bit_length v - 1) < (2 :: nat) ^ k" using power_bit_length_le [OF False] by linarith
  then have "bit_length v - 1 < k" by (simp add: power_less_imp_less_exp)
  then show ?thesis by simp
qed

lemma read_length_encoded:
  assumes "n < 2 ^ 32"
  shows "read_length (pre @ der_length n @ post) (length pre) = Inr (n, length pre + length (der_length n))"
proof (cases "n < 128")
  case True
  then show ?thesis by (simp add: read_length_def der_length_def nth_append)
next
  case False
  let ?k = "(bit_length n + 7) div 8"
  have "bit_length n \<le> 32" using assms by (rule bit_length_mono_bound)
  then have k4: "?k \<le> 4" by linarith
  have "bit_length n \<noteq> 0" using False by (subst bit_length.simps) simp
  then have k1: "1 \<le> ?k" by linarith
  have n: "n < 256 ^ ?k" using uint_size [of n] k1 by (simp add: max_def)
  have data: "pre @ der_length n @ post = (pre @ [char_of (128 + ?k)]) @ to_bytes ?k n @ post"
    using False by (simp add: der_length_def Let_def)
  have len: "length (der_length n) = Suc ?k" using False by (simp add: der_length_def Let_def)
  have first: "(of_char (char_of (128 + ?k) :: char) :: nat) = 128 + ?k" using k4 by simp
  have "(128 + ?k) mod 128 = ?k" using k4 by simp
  then show ?thesis
    unfolding read_length_def data len
    using k1 k4 n by (simp add: nth_append first from_bytes_to_bytes Let_def)
qed

lemma read_value_encoded:
  assumes "tag < 256" "length content < 2 ^ 32"
  shows "read_value (pre @ der_tlv tag content @ post) (length pre) tag
    = Inr (content, length pre + length (der_tlv tag content))"
proof -
  let ?n = "length content" and ?pre = "pre @ [char_of tag]"
  have data: "pre @ der_tlv tag content @ post = ?pre @ der_length ?n @ (content @ post)"
    by (simp add: der_tlv_def)
  have "read_length (?pre @ der_length ?n @ (content @ post)) (length ?pre)
      = Inr (?n, length ?pre + length (der_length ?n))"
    using assms(2) by (rule read_length_encoded)
  then show ?thesis
    unfolding read_value_def data using assms(1)
    by (simp add: nth_append der_tlv_def Let_def)
qed

lemma uint_content: "from_bytes (to_bytes (Suc (bit_length v div 8)) v) = v"
proof (rule from_bytes_to_bytes)
  let ?k = "Suc (bit_length v div 8)"
  have "bit_length v \<le> 8 * ?k" by simp
  then have "(2 :: nat) ^ bit_length v \<le> 2 ^ (8 * ?k)" by (intro power_increasing) auto
  also have "\<dots> = 256 ^ ?k" by (simp only: power_mult) simp
  finally show "v < 256 ^ ?k" using less_two_power_bit_length [of v] by linarith
qed

lemma read_integers_encoded:
  assumes "list_all (\<lambda>v. bit_length v < 2 ^ 32) vs"
  shows "read_integers (pre @ concat (map der_uint vs)) (length pre) acc = Inr (acc @ vs)"
  using assms
proof (induction vs arbitrary: pre acc)
  case Nil
  then show ?case by (subst read_integers.simps) simp
next
  case (Cons v vs)
  let ?c = "to_bytes (bit_length v div 8 + 1) v"
  have "bit_length v < 2 ^ 32" using Cons.prems by simp
  then have "bit_length v div 8 < 2 ^ 29" by (intro less_mult_imp_div_less) simp
  then have "length ?c < 2 ^ 32" by simp
  then have step: "read_value (pre @ der_uint v @ concat (map der_uint vs)) (length pre) 2
      = Inr (?c, length (pre @ der_uint v))"
    using read_value_encoded [of 2 ?c pre "concat (map der_uint vs)"] by (simp add: der_uint_def)
  have "0 < length (der_uint v)" by (simp add: der_uint_def der_tlv_def)
  moreover have "read_integers ((pre @ der_uint v) @ concat (map der_uint vs)) (length (pre @ der_uint v))
      (acc @ [v]) = Inr ((acc @ [v]) @ vs)"
    using Cons.prems by (intro Cons.IH) simp
  ultimately show ?case
    using step by (subst read_integers.simps) (simp add: uint_content del: to_bytes.simps)
qed

text \<open>
  C10: Round trip of the private key: the reader recovers the eight integers of every two-prime RSA
  key of version 0 or 1 from its distinguished encoding, at any key size a DER length of four bytes
  can express.
\<close>

theorem rsa_private_key_roundtrip:
  assumes "ver \<in> {0, 1}" "length vs = 8" "list_all (\<lambda>v. bit_length v < 2 ^ 32) vs"
    and "length (concat (map der_uint (ver # vs))) < 2 ^ 32"
  shows "parse_rsa_private_key (der_tlv 48 (concat (map der_uint (ver # vs)))) = Inr vs"
proof -
  let ?seq = "concat (map der_uint (ver # vs))"
  have outer: "read_value (der_tlv 48 ?seq) 0 48 = Inr (?seq, length (der_tlv 48 ?seq))"
    using read_value_encoded [of 48 ?seq "[]" "[]"] assms(4) by simp
  have "bit_length ver \<le> 1" using assms(1) by (intro bit_length_mono_bound) auto
  then have "list_all (\<lambda>v. bit_length v < 2 ^ 32) (ver # vs)" using assms(3) by simp
  from read_integers_encoded [OF this, of "[]" "[]"]
  have "read_integers ?seq 0 [] = Inr (ver # vs)" by simp
  then show ?thesis
    unfolding parse_rsa_private_key_def outer using assms(1,2) by simp
qed

section \<open>The written files\<close>

lemma b64url_scalar: "list_all is_b64url t \<Longrightarrow> list_all is_scalar t"
  by (auto simp: list_all_iff is_b64url_def is_digit_def is_scalar_def is_surrogate_def)

lemma quote_b64url: "list_all is_b64url t \<Longrightarrow> quote_string t = 34 # t @ [34]"
proof -
  have "is_b64url c \<Longrightarrow> escape_char c = [c]" for c
    by (auto simp: is_b64url_def is_digit_def escape_char_def)
  then show "list_all is_b64url t \<Longrightarrow> ?thesis"
    by (induction t) (auto simp: quote_string_def)
qed

lemma jwk_plain:
  assumes "list_all is_b64url kid"
  shows "json_plain (PDict (jwk_items kid [n, e, d, p, q, dp, dq, qi]))"
    "json_depth (PDict (jwk_items kid [n, e, d, p, q, dp, dq, qi])) = 1"
proof -
  have lits: "list_all is_scalar (lit s)" for s
    using set_lit_less_256 [of _ s] by (fastforce simp: list_all_iff is_scalar_def is_surrogate_def)
  have "list_all is_scalar (base64url_uint v)" for v
    using uint_b64url b64url_scalar by blast
  then show "json_plain (PDict (jwk_items kid [n, e, d, p, q, dp, dq, qi]))"
    using assms by (simp add: jwk_items_def lits b64url_scalar)
  show "json_depth (PDict (jwk_items kid [n, e, d, p, q, dp, dq, qi])) = 1"
    by (simp add: jwk_items_def)
qed

text \<open>No quote of the shell in the compact text.\<close>

lemma jwk_no_quote:
  assumes "list_all is_b64url kid"
  shows "39 \<notin> set (json_dumps fc (PDict (jwk_items kid [n, e, d, p, q, dp, dq, qi])))"
proof -
  have safe: "39 \<notin> set (quote_string t)" if "list_all is_b64url t" for t
    using that by (auto simp: quote_b64url list_all_iff is_b64url_def is_digit_def)
  have "list_all is_b64url (lit s)" if "list_all (\<lambda>c. is_b64url (of_char c)) s" for s
    using that by (simp add: list_all_lit_iff)
  note key = safe [OF this]
  have "39 \<notin> set (quote_string (base64url_uint v))" for v
    using uint_b64url safe by blast
  then show ?thesis
    using safe [OF assms]
    by (simp add: json_dumps_def jwk_items_def key is_b64url_def is_digit_def)
qed

text \<open>
  The files the script writes: both with mode 0600; the JWK file reads back, as JSON, to the
  twelve members of the key; the environment file repeats its key id, modulus and exponent, and
  quotes the compact JWK in single quotes that the text itself never contains.
\<close>

theorem export_jwk_files:
  assumes "export_jwk deps [prog, key_file, jwk_file, env_file] = Inr writes" and "1 \<le> depth"
  shows "\<exists>kid n e d p q dp dq qi compact.
    read_rsa_private_key deps key_file = Inr [n, e, d, p, q, dp, dq, qi]
    \<and> keycloak_key_id deps key_file = Inr kid
    \<and> json_loads (unique_opts fc err) depth (compact @ [10])
        = Inr (PDict (jwk_items kid [n, e, d, p, q, dp, dq, qi]))
    \<and> 39 \<notin> set compact
    \<and> writes = [(jwk_file, compact @ [10], 384),
        (env_file, lit ''DECK_ROUTE_B_JWK_KID='' @ kid @ [10]
           @ lit ''DECK_ROUTE_B_JWK_N='' @ base64url_uint n @ [10]
           @ lit ''DECK_ROUTE_B_JWK_E='' @ base64url_uint e @ [10]
           @ lit ''ROUTE_B_JWK='' @ [39] @ compact @ [39, 10], 384)]"
proof -
  from assms(1) obtain vs kid where vs: "read_rsa_private_key deps key_file = Inr vs"
    and kid: "keycloak_key_id deps key_file = Inr kid"
    by (auto simp: export_jwk_def rbind_eq_Inr_iff)
  have "length vs = 8"
    using vs by (auto simp: read_rsa_private_key_def parse_rsa_private_key_def rbind_eq_Inr_iff split: if_splits)
  then obtain n e d p q dp dq qi where eight: "vs = [n, e, d, p, q, dp, dq, qi]"
    by (auto simp: numeral_eq_Suc length_Suc_conv)
  have b64: "list_all is_b64url kid"
    using kid base64url_shape by (auto simp: keycloak_key_id_def rbind_eq_Inr_iff)
  let ?jwk = "jwk_items kid [n, e, d, p, q, dp, dq, qi]"
  let ?compact = "json_dumps (jwk_floats deps) (PDict ?jwk)"
  have "json_loads (unique_opts fc err) depth (?compact @ [10]) = Inr (PDict ?jwk)"
    using jwk_plain [OF b64] assms(2) by (intro json_loads_line unique_opts_keeps_pairs) simp_all
  moreover have "dget ?jwk ''kid'' = PStr kid" "dget ?jwk ''n'' = PStr (base64url_uint n)"
    "dget ?jwk ''e'' = PStr (base64url_uint e)"
    by (simp_all add: jwk_items_def dict_simps)
  ultimately show ?thesis
    using assms(1) vs kid eight jwk_no_quote [OF b64, of "jwk_floats deps" n e d p q dp dq qi]
    by (simp add: export_jwk_def Let_def) blast
qed

definition sample_jwk_deps :: jwk_deps where
  "sample_jwk_deps =
     \<lparr>openssl_rsa = (\<lambda>_. Inr (der_tlv 48 (concat (map der_uint [0, 3, 5, 7, 11, 13, 17, 19, 23])))),
      openssl_pkey = (\<lambda>_. Inr ''der''), jwk_sha256 = (\<lambda>_. replicate 32 (CHR ''k'')),
      jwk_floats = \<lparr>of_text = (\<lambda>_. FNan), to_text = (\<lambda>_. lit ''NaN'')\<rparr>\<rparr>"

lemma small_bits: "v < 128 \<Longrightarrow> bit_length v < 8"
  using bit_length_mono_bound [of v 7] by simp

lemma small_uint: "v < 128 \<Longrightarrow> length (der_uint v) = 3"
  using small_bits [of v] by (simp add: der_uint_def der_tlv_def der_length_def)

lemma sample_key_parsed:
  "parse_rsa_private_key (der_tlv 48 (concat (map der_uint [0, 3, 5, 7, 11, 13, 17, 19, 23])))
   = Inr [3, 5, 7, 11, 13, 17, 19, 23]"
  by code_simp

theorem rsa_private_key_roundtrip_witness:
  "parse_rsa_private_key (der_tlv 48 (concat (map der_uint [0, 3, 5, 7, 11, 13, 17, 19, 23])))
   = Inr [3, 5, 7, 11, 13, 17, 19, 23]"
  using small_bits small_uint
  by (intro rsa_private_key_roundtrip) (simp_all add: order.strict_trans [OF small_bits])

theorem export_jwk_files_witness:
  "\<exists>kid compact. json_loads (unique_opts (jwk_floats sample_jwk_deps) KeyError) 5 (compact @ [10])
      = Inr (PDict (jwk_items kid [3, 5, 7, 11, 13, 17, 19, 23])) \<and> 39 \<notin> set compact"
proof -
  have vs: "read_rsa_private_key sample_jwk_deps [] = Inr [3, 5, 7, 11, 13, 17, 19, 23]"
    unfolding read_rsa_private_key_def sample_jwk_deps_def using small_bits small_uint
    by (simp del: list.map concat.simps)
      (rule sample_key_parsed)
  then obtain writes where "export_jwk sample_jwk_deps [[], [], [], []] = Inr writes"
    by (simp add: export_jwk_def keycloak_key_id_def sample_jwk_deps_def Let_def)
  from export_jwk_files [OF this, of 5 "jwk_floats sample_jwk_deps" KeyError] vs
  show ?thesis by auto
qed

end
