(* ===== verification/Url_Split.thy ===== *)
theory Url_Split
  imports Py_Codec
begin

text \<open>
  \<open>urllib.parse.urlsplit\<close> as far as \<open>src/scripts/wp1.py\<close> uses it: scheme, network location, path,
  query and fragment, and the derived user name, password, host name and port.

  Two checks of the standard library that only ever raise \<open>ValueError\<close> are parameters: that the
  NFKC form of a non-ASCII network location introduces no delimiter, and that a bracketed host is
  an IP literal.
\<close>

record url_checks =
  nfkc_ok :: "pystr \<Rightarrow> bool"
  bracket_ok :: "pystr \<Rightarrow> bool"

record split_result =
  scheme :: pystr
  netloc :: pystr
  url_path :: pystr
  query :: pystr
  fragment :: pystr

definition is_alpha :: "nat \<Rightarrow> bool" where
  "is_alpha c \<longleftrightarrow> 65 \<le> c \<and> c \<le> 90 \<or> 97 \<le> c \<and> c \<le> 122"

definition is_scheme_char :: "nat \<Rightarrow> bool" where
  "is_scheme_char c \<longleftrightarrow> is_alpha c \<or> is_digit c \<or> c = 43 \<or> c = 45 \<or> c = 46"

text \<open>The removals in front of the parser: leading C0 controls and spaces, then tab, CR and LF.\<close>

definition url_clean :: "pystr \<Rightarrow> pystr" where
  "url_clean s = filter (\<lambda>c. c \<notin> {9, 10, 13}) (dropWhile (\<lambda>c. c \<le> 32) s)"

definition split_scheme :: "pystr \<Rightarrow> pystr \<times> pystr" where
  "split_scheme url =
     (let (before, found, after) = py_partition 58 url
      in if found \<and> before \<noteq> [] \<and> is_alpha (hd before) \<and> list_all is_scheme_char before
         then (py_lower before, after) else ([], url))"

definition split_netloc :: "pystr \<Rightarrow> pystr \<times> pystr" where
  "split_netloc url =
     (if take 2 url = [47, 47]
      then let rest = drop 2 url; stop = (\<lambda>c. c \<noteq> 47 \<and> c \<noteq> 63 \<and> c \<noteq> 35)
           in (takeWhile stop rest, dropWhile stop rest)
      else ([], url))"

definition check_netloc :: "url_checks \<Rightarrow> pystr \<Rightarrow> unit res" where
  "check_netloc chk loc =
     (if (91 \<in> set loc) \<noteq> (93 \<in> set loc) then raiseV ''Invalid IPv6 URL''
      else if 91 \<in> set loc \<and> 93 \<in> set loc \<and> \<not> bracket_ok chk loc then raiseV ''Invalid bracketed host''
      else if \<not> list_all (\<lambda>c. c < 128) loc \<and> \<not> nfkc_ok chk loc
      then raiseV ''netloc contains invalid characters under NFKC normalization''
      else Inr ())"

definition urlsplit :: "url_checks \<Rightarrow> pystr \<Rightarrow> split_result res" where
  "urlsplit chk s =
     (let (sch, rest) = split_scheme (url_clean s);
          (loc, rest) = split_netloc rest;
          (rest, _, frag) = py_partition 35 rest;
          (p, _, q) = py_partition 63 rest
      in rbind (check_netloc chk loc) (\<lambda>_.
           Inr \<lparr>scheme = sch, netloc = loc, url_path = p, query = q, fragment = frag\<rparr>))"

text \<open>\<open>netloc.rpartition("@")\<close>: what is before and after the last at sign.\<close>

definition user_host :: "pystr \<Rightarrow> pystr option \<times> pystr" where
  "user_host loc =
     (if 64 \<in> set loc
      then (Some (rev (tl (dropWhile (\<lambda>c. c \<noteq> 64) (rev loc)))), rev (takeWhile (\<lambda>c. c \<noteq> 64) (rev loc)))
      else (None, loc))"

definition username :: "split_result \<Rightarrow> pystr option" where
  "username r = map_option (\<lambda>u. fst (py_partition 58 u)) (fst (user_host (netloc r)))"

definition password :: "split_result \<Rightarrow> pystr option" where
  "password r =
     (case fst (user_host (netloc r)) of None \<Rightarrow> None
      | Some u \<Rightarrow> (case py_partition 58 u of (_, found, pw) \<Rightarrow> if found then Some pw else None))"

text \<open>Host and port text of the network location; an empty port is no port.\<close>

definition host_port :: "split_result \<Rightarrow> pystr \<times> pystr option" where
  "host_port r =
     (let info = snd (user_host (netloc r));
          (_, open_br, bracketed) = py_partition 91 info;
          (host, port) =
            (if open_br
             then let (h, _, after) = py_partition 93 bracketed; (_, _, p) = py_partition 58 after in (h, p)
             else let (h, _, p) = py_partition 58 info in (h, p))
      in (host, if port = [] then None else Some port))"

definition hostname :: "split_result \<Rightarrow> pystr option" where
  "hostname r =
     (let h = fst (host_port r)
      in if h = [] then None
         else let (name, percent, zone) = py_partition 37 h
              in Some (py_lower name @ (if percent then 37 # zone else [])))"

definition port :: "split_result \<Rightarrow> nat option res" where
  "port r =
     (case snd (host_port r) of None \<Rightarrow> Inr None
      | Some t \<Rightarrow>
          if \<not> list_all is_digit t then raiseV ''Port could not be cast to integer value''
          else if digits_val t > 65535 then raiseV ''Port out of range 0-65535''
          else Inr (Some (digits_val t)))"

lemma url_clean_id: "\<forall>c \<in> set s. 32 < c \<Longrightarrow> url_clean s = s"
proof -
  assume s: "\<forall>c \<in> set s. 32 < c"
  then have "dropWhile (\<lambda>c. c \<le> 32) s = s" by (cases s) auto
  moreover have "filter (\<lambda>c. c \<notin> {9, 10, 13}) s = s" using s by (auto simp: filter_id_conv)
  ultimately show ?thesis by (simp add: url_clean_def)
qed

lemma urlsplit_authority:
  assumes scheme_ok: "sch \<noteq> []" "is_alpha (hd sch)" "list_all is_scheme_char sch"
    and loc: "list_all (\<lambda>c. c < 128 \<and> 32 < c \<and> c \<notin> {47, 63, 35, 91, 93}) loc"
    and tail: "tail = [] \<or> tail = [47]"
  shows "urlsplit chk (sch @ [58, 47, 47] @ loc @ tail)
    = Inr \<lparr>scheme = py_lower sch, netloc = loc, url_path = tail, query = [], fragment = []\<rparr>"
proof -
  have chars: "\<forall>c \<in> set sch. 32 < c \<and> c \<noteq> 58"
    using scheme_ok(3) by (auto simp: list_all_iff is_scheme_char_def is_alpha_def is_digit_def)
  have locs: "\<forall>c \<in> set loc. 32 < c \<and> c \<noteq> 47 \<and> c \<noteq> 63 \<and> c \<noteq> 35 \<and> c \<noteq> 91 \<and> c \<noteq> 93 \<and> c < 128"
    using loc by (auto simp: list_all_iff)
  have "32 < c" if "c \<in> set (sch @ [58, 47, 47] @ loc @ tail)" for c
  proof -
    have "c \<in> set sch \<or> c \<in> set loc \<or> c = 58 \<or> c = 47" using that tail by (elim disjE) auto
    then show ?thesis using chars locs by (elim disjE) auto
  qed
  then have clean: "url_clean (sch @ [58, 47, 47] @ loc @ tail) = sch @ [58, 47, 47] @ loc @ tail"
    by (intro url_clean_id) blast
  have "py_partition 58 (sch @ 58 # 47 # 47 # loc @ tail) = (sch, True, 47 # 47 # loc @ tail)"
    using chars by (intro py_partition_append) auto
  then have split: "split_scheme (sch @ [58, 47, 47] @ loc @ tail) = (py_lower sch, [47, 47] @ loc @ tail)"
    using scheme_ok by (simp add: split_scheme_def)
  have net: "split_netloc ([47, 47] @ loc @ tail) = (loc, tail)"
  proof -
    let ?stop = "\<lambda>c. c \<noteq> 47 \<and> c \<noteq> 63 \<and> c \<noteq> (35 :: nat)"
    have all: "list_all ?stop loc" unfolding list_all_iff using locs by blast
    have fin: "tail = [] \<or> \<not> ?stop (hd tail)" using tail by (elim disjE) simp_all
    have "takeWhile ?stop (loc @ tail) = loc" "dropWhile ?stop (loc @ tail) = tail"
      by (rule takeWhile_append_stop [OF all fin], rule dropWhile_append_stop [OF all fin])
    then show ?thesis by (simp add: split_netloc_def Let_def)
  qed
  have "py_partition 35 tail = (tail, False, []) \<and> py_partition 63 tail = (tail, False, [])"
    using tail by (auto simp: py_partition_def)
  moreover have "check_netloc chk loc = Inr ()"
  proof -
    have "91 \<notin> set loc" "93 \<notin> set loc" "list_all (\<lambda>c. c < 128) loc"
      unfolding list_all_iff using locs by blast+
    then show ?thesis by (simp add: check_netloc_def)
  qed
  ultimately show ?thesis
    by (simp only: urlsplit_def clean split net Let_def prod.case) simp
qed

end
