(* ===== verification/Wp1_Targets.thy ===== *)
theory Wp1_Targets
  imports Url_Split Py_Json_Roundtrip
begin

text \<open>
  The validation helpers of \<open>src/scripts/wp1.py\<close> that do not page through a collection: the
  selector of a command, the host of a Konnect endpoint, the gateway target manifest, the fixed
  route identities, and the normalisation and hash of a plugin schema.
\<close>

section \<open>Fixed routes\<close>

definition route_identity :: "string \<Rightarrow> string \<Rightarrow> string \<Rightarrow> string \<Rightarrow> string \<Rightarrow> pyval" where
  "route_identity rid logical client cert key_file =
     PDict [(K ''route_id'', S rid), (K ''logical_route'', S logical), (K ''client_id'', S client),
            (K ''certificate_file'', S cert), (K ''key_file'', S key_file)]"

definition ROUTES :: "pyval list" where
  "ROUTES =
     [route_identity ''754519ff-b0b9-5ed5-94c0-e453d260c6c4'' ''A'' ''third-party-fapi-mtls''
        ''/etc/kong/fapi/route-a.crt'' ''/etc/kong/fapi/route-a.key'',
      route_identity ''0f45debe-a3a6-5207-aea3-637227fb96f2'' ''B'' ''third-party-fapi-pkj-mtls''
        ''/etc/kong/fapi/route-b.crt'' ''/etc/kong/fapi/route-b.key'']"

definition validate_route_manifest :: "pyval list \<Rightarrow> unit res" where
  "validate_route_manifest routes =
     raise_if (\<not> py_eq_list routes ROUTES)
       (ValueError (lit ''third-party Route manifest does not match the fixed A/B identities''))"

section \<open>The selector\<close>

definition validate_selector :: "pystr \<Rightarrow> pystr option \<Rightarrow> pystr \<Rightarrow> unit res" where
  "validate_selector gateway stage operation =
     (if gateway \<notin> {lit ''api'', lit ''third-party''} then raiseV ''GATEWAY must be api or third-party''
      else if operation \<in> {lit ''diff'', lit ''sync''}
              \<and> stage \<notin> {Some (lit ''foundation''), Some (lit ''runtime'')}
      then raiseV ''STAGE must be foundation or runtime''
      else if operation = lit ''schema'' \<and> stage \<noteq> None
      then raiseV ''schema operations do not accept STAGE''
      else Inr ())"

section \<open>Endpoints\<close>

definition endpoint_host :: "url_checks \<Rightarrow> pyval \<Rightarrow> pystr res" where
  "endpoint_host chk v =
     (if (case v of PStr s \<Rightarrow> s = [] \<or> s \<noteq> py_strip s \<or> \<not> list_all (\<lambda>c. \<not> (c < 32 \<or> c = 127)) s
          | _ \<Rightarrow> True)
      then raiseV ''endpoint contains whitespace or control characters''
      else
        rbind (recast_if (\<lambda>e. e = TypeError \<or> isa_ValueError e) (ValueError (lit ''endpoint is malformed''))
                 (rbind (urlsplit chk (the_str v)) (\<lambda>parsed.
                  rbind (port parsed) (\<lambda>p. Inr (parsed, p))))) (\<lambda>(parsed, p).
        if scheme parsed \<noteq> lit ''https'' \<or> hostname parsed = None \<or> hostname parsed = Some []
           \<or> username parsed \<noteq> None \<or> password parsed \<noteq> None
           \<or> query parsed \<noteq> [] \<or> fragment parsed \<noteq> []
           \<or> url_path parsed \<notin> {[], lit ''/''} \<or> p \<notin> {None, Some 443}
        then raiseV ''endpoint must be an unambiguous HTTPS authority''
        else Inr (py_lower (the (hostname parsed)))))"

section \<open>Gateway targets\<close>

text \<open>
  The text form of a UUID: 32 hexadecimal digits in groups of 8, 4, 4, 4 and 12. The guard
  \<open>str(UUID(s)) != s.lower()\<close>, with the exceptions of \<open>UUID\<close> mapped to the same error, holds of
  exactly the texts whose lower case is not of this form.
\<close>

definition canonical_uuid :: "pystr \<Rightarrow> bool" where
  "canonical_uuid s \<longleftrightarrow>
     length s = 36
     \<and> list_all (\<lambda>i. if i \<in> {8, 13, 18, 23} then s ! i = 45 else is_lower_hex (s ! i)) [0..<36]"

text \<open>\<open>set(v)\<close>: the elements of an iterable, or the \<open>TypeError\<close> for another value.\<close>

fun hash_key :: "pyval \<Rightarrow> pykey res" where
  "hash_key (PStr s) = Inr (KStr s)"
| "hash_key PNone = Inr KNone"
| "hash_key (PBool b) = Inr (KBool b)"
| "hash_key (PInt i) = Inr (KInt i)"
| "hash_key (PFloat f) = Inr (KFloat f)"
| "hash_key _ = Inl TypeError"

fun set_of :: "pyval \<Rightarrow> pykey list res" where
  "set_of (PDict d) = Inr (map fst d)"
| "set_of (PList xs) = mapr hash_key xs"
| "set_of (PStr s) = Inr (map (\<lambda>c. KStr [c]) s)"
| "set_of _ = Inl TypeError"

fun subscript :: "pyval \<Rightarrow> string \<Rightarrow> pyval res" where
  "subscript (PDict d) k = ditem d k"
| "subscript _ k = Inl TypeError"

definition TARGET_FIELDS :: "string list" where
  "TARGET_FIELDS = [''control_plane_id'', ''control_plane_name'', ''control_plane_endpoint'', ''telemetry_endpoint'']"

definition blank :: "pyval \<Rightarrow> bool" where
  "blank v \<longleftrightarrow> (case v of PStr s \<Rightarrow> py_strip s = [] | _ \<Rightarrow> True)"

record seen_targets =
  ids :: "pystr list"
  names :: "pystr list"
  normalized :: "(string \<times> pydict) list"

definition name_differs :: "(string \<times> pystr) list \<Rightarrow> string \<Rightarrow> pystr \<Rightarrow> bool res" where
  "name_differs expected_names gateway cp_name =
     (if expected_names = [] then Inr False
      else case map_of expected_names gateway of None \<Rightarrow> Inl KeyError | Some n \<Rightarrow> Inr (cp_name \<noteq> n))"

text \<open>One iteration of the loop of \<open>validate_targets\<close>.\<close>

definition validate_target ::
    "url_checks \<Rightarrow> (string \<times> pystr) list \<Rightarrow> pyval \<Rightarrow> seen_targets \<Rightarrow> string \<Rightarrow> seen_targets res" where
  "validate_target chk expected_names targets seen gateway =
     rbind (subscript targets gateway) (\<lambda>target.
     if \<not> (case target of PDict d \<Rightarrow> keys_are d TARGET_FIELDS | _ \<Rightarrow> False)
     then Inl (ValueError (lit gateway @ lit '' target fields are incomplete or unexpected''))
     else let d = the_dict target; cp_id = dget d ''control_plane_id''; cp_name = dget d ''control_plane_name'' in
       if blank cp_id \<or> blank cp_name
       then Inl (ValueError (lit gateway @ lit '' control plane ID/name is empty''))
       else if \<not> canonical_uuid (py_lower (the_str cp_id))
       then Inl (ValueError (lit gateway @ lit '' control plane ID is not a UUID''))
       else if the_str cp_id \<in> set (ids seen)
       then raiseV ''API and third-party control plane IDs must differ''
       else if the_str cp_name \<in> set (names seen)
       then raiseV ''API and third-party control plane names must differ''
       else rbind (name_differs expected_names gateway (the_str cp_name)) (\<lambda>differs.
         if differs
         then Inl (ValueError (lit gateway @ lit '' control plane name does not match local configuration''))
         else
         rbind (endpoint_host chk (dget d ''control_plane_endpoint'')) (\<lambda>cp_host.
         rbind (endpoint_host chk (dget d ''telemetry_endpoint'')) (\<lambda>tp_host.
         if cp_host = tp_host
         then Inl (ValueError (lit gateway @ lit '' control plane and telemetry endpoints are ambiguous''))
         else Inr \<lparr>ids = the_str cp_id # ids seen, names = the_str cp_name # names seen,
                   normalized = normalized seen @
                     [(gateway, dmerge d [(K ''control_plane_host'', PStr cp_host),
                                          (K ''telemetry_host'', PStr tp_host)])]\<rparr>))))"

text \<open>
  \<open>expected_names\<close> is the configured name of either gateway, or the empty list where the source
  passes \<open>None\<close>.
\<close>

definition validate_targets ::
    "url_checks \<Rightarrow> (string \<times> pystr) list \<Rightarrow> pyval \<Rightarrow> (string \<times> pydict) list res" where
  "validate_targets chk expected_names targets =
     rbind (set_of targets) (\<lambda>ks.
     if set ks \<noteq> {K ''api'', K ''third-party''}
     then raiseV ''gateway target manifest must contain api and third-party''
     else rbind (foldr_res (validate_target chk expected_names targets)
                  \<lparr>ids = [], names = [], normalized = []\<rparr> [''api'', ''third-party'']) (\<lambda>seen.
       Inr (normalized seen)))"

section \<open>Schemas\<close>

definition normalize_schema :: "pyval \<Rightarrow> pystr res" where
  "normalize_schema v =
     (if \<not> nonempty_str v then raiseV ''schema Lua must be a non-empty string''
      else let source = py_replace [13, 10] [10] (the_str v)
           in Inr (if ends_with [10] source then butlast source else source))"

definition schema_hash :: "(bytes \<Rightarrow> bytes) \<Rightarrow> pyval \<Rightarrow> pystr res" where
  "schema_hash sha v =
     rbind (normalize_schema v) (\<lambda>source.
     rbind (utf8_encode source) (\<lambda>data. Inr (hexdigest (sha data))))"

section \<open>Which endpoints are accepted\<close>

definition host_char :: "nat \<Rightarrow> bool" where
  "host_char c \<longleftrightarrow> is_alpha c \<or> is_digit c \<or> c = 45 \<or> c = 46"

lemma host_char_range: "host_char c \<Longrightarrow> 45 \<le> c \<and> c \<le> 122 \<and> c \<noteq> 47 \<and> c \<noteq> 58 \<and> c \<noteq> 63 \<and> c \<noteq> 64 \<and> c \<noteq> 91 \<and> c \<noteq> 93"
  by (auto simp: host_char_def is_alpha_def is_digit_def)

lemma py_strip_id: "list_all (\<lambda>c. 32 < c \<and> c < 127) s \<Longrightarrow> py_strip s = s"
proof -
  assume s: "list_all (\<lambda>c. 32 < c \<and> c < 127) s"
  have space: "\<not> py_isspace c" if "c \<in> set s" for c
    using s that by (auto simp: list_all_iff py_isspace_def)
  show ?thesis
  proof (cases s rule: rev_cases)
    case (snoc t c)
    then have "hd s \<in> set s" using hd_in_set [of s] by blast
    then have "dropWhile py_isspace s = s" using space by (simp add: dropWhile_eq_self_iff)
    then show ?thesis
      using space snoc by (simp add: py_strip_def py_lstrip_def py_rstrip_suffix_free)
  qed (simp add: py_strip_def py_lstrip_def py_rstrip_def)
qed

lemma host_port_plain:
  assumes "list_all host_char host"
  shows "host_port \<lparr>scheme = sc, netloc = host, url_path = p, query = q, fragment = f\<rparr> = (host, None)"
    "host_port \<lparr>scheme = sc, netloc = host @ lit '':443'', url_path = p, query = q, fragment = f\<rparr>
     = (host, Some (lit ''443''))"
proof -
  have no: "c \<notin> set host" if "c \<in> {58, 64, 91}" for c
    using assms host_char_range that unfolding list_all_iff by blast
  have uh: "user_host s = (None, s)" if "64 \<notin> set s" for s using that by (simp add: user_host_def)
  have colon: "lit '':443'' = 58 # lit ''443''" by (simp add: lit_def)
  have digits: "set (lit '':443'') = {58, 52, 51}" by (auto simp: lit_def)
  show "host_port \<lparr>scheme = sc, netloc = host, url_path = p, query = q, fragment = f\<rparr> = (host, None)"
    using no by (simp add: host_port_def uh py_partition_absent)
  have "64 \<notin> set (host @ lit '':443'')" "91 \<notin> set (host @ lit '':443'')" using no digits by auto
  moreover have "py_partition 58 (host @ lit '':443'') = (host, True, lit ''443'')"
    unfolding colon using no by (intro py_partition_append) simp
  ultimately show "host_port \<lparr>scheme = sc, netloc = host @ lit '':443'', url_path = p, query = q, fragment = f\<rparr>
     = (host, Some (lit ''443''))"
    by (simp add: host_port_def uh py_partition_absent [of 91])
qed

lemma py_lower_idem: "py_lower (py_lower s) = py_lower s"
  by (simp add: py_lower_def latin1_lower_def)

text \<open>
  Every plain HTTPS authority is accepted, with the scheme in any case, an optional port 443 and
  an optional root path, and its host is returned in lower case.
\<close>

theorem endpoint_host_accepts:
  assumes "py_lower sch = lit ''https''" "list_all is_alpha sch"
    and "host \<noteq> []" "list_all host_char host"
    and "prt \<in> {[], lit '':443''}" and "tail \<in> {[], lit ''/''}"
  shows "endpoint_host chk (PStr (sch @ lit ''://'' @ host @ prt @ tail)) = Inr (py_lower host)"
proof -
  have sep: "lit ''://'' = [58, 47, 47]" "lit ''/'' = [47]" by (simp_all add: lit_def)
  let ?s = "sch @ [58, 47, 47] @ (host @ prt) @ tail"
  have sch: "sch \<noteq> []" "is_alpha (hd sch)" "list_all is_scheme_char sch"
  proof -
    show "sch \<noteq> []" using assms(1) by (auto simp: py_lower_def lit_def)
    then show "is_alpha (hd sch)" using assms(2) by (cases sch) auto
    show "list_all is_scheme_char sch" using assms(2) by (auto simp: list_all_iff is_scheme_char_def)
  qed
  have prt: "set prt \<subseteq> {58, 52, 51}" using assms(5) by (auto simp: lit_def)
  have loc: "list_all (\<lambda>c. c < 128 \<and> 32 < c \<and> c \<notin> {47, 63, 35, 91, 93}) (host @ prt)"
    unfolding list_all_iff
  proof
    fix c
    assume "c \<in> set (host @ prt)"
    then consider "host_char c" | "c \<in> {58, 52, 51}" using assms(4) prt by (auto simp: list_all_iff)
    then show "c < 128 \<and> 32 < c \<and> c \<notin> {47, 63, 35, 91, 93}"
      using host_char_range [of c] by cases auto
  qed
  have schc: "is_alpha c \<Longrightarrow> 32 < c \<and> c < 127" for c by (auto simp: is_alpha_def)
  have all: "list_all (\<lambda>c. 32 < c \<and> c < 127) ?s"
    unfolding list_all_iff
  proof
    fix c
    assume "c \<in> set ?s"
    then consider "is_alpha c" | "c \<in> {58, 47}" | "host_char c" | "c \<in> {58, 52, 51}"
      using assms(2,4,6) prt unfolding list_all_iff sep by auto
    then show "32 < c \<and> c < 127" using host_char_range [of c] schc [of c] by cases auto
  qed
  have tail: "tail = [] \<or> tail = [47]" using assms(6) sep by auto
  note parsed = urlsplit_authority [OF sch loc tail, of chk, unfolded assms(1)]
  have strip: "py_strip ?s = ?s" using all by (rule py_strip_id)
  have ctrl: "list_all (\<lambda>c. \<not> (c < 32 \<or> c = 127)) ?s"
    using all by (rule list.pred_mono_strong) auto
  let ?r = "\<lparr>scheme = lit ''https'', netloc = host @ prt, url_path = tail, query = [], fragment = []\<rparr>"
  have hp: "host_port ?r = (host, if prt = [] then None else Some (lit ''443''))"
    using assms(5) host_port_plain [OF assms(4)] by auto
  have "37 \<notin> set host" using assms(4) host_char_range unfolding list_all_iff by fastforce
  then have host: "hostname ?r = Some (py_lower host)"
    using assms(3) by (simp add: hostname_def hp py_partition_absent)
  have "64 \<notin> set (host @ prt)" using assms(4) prt host_char_range unfolding list_all_iff by fastforce
  then have user: "username ?r = None" "password ?r = None"
    by (simp_all add: username_def password_def user_host_def)
  have "port ?r = Inr (if prt = [] then None else Some 443)"
    by (simp add: port_def hp) (simp add: lit_def is_digit_def digits_val_def)
  moreover have "py_lower host \<noteq> []" using assms(3) by (simp add: py_lower_def)
  moreover have "url_path ?r \<in> {[], lit ''/''}" using assms(6) by simp
  ultimately have "endpoint_host chk (PStr ?s) = Inr (py_lower host)"
    using sch(1) strip ctrl user host parsed
    by (simp add: endpoint_host_def py_lower_idem)
  then show ?thesis by (simp add: sep)
qed

lemma py_partition_join:
  "py_partition c s = (a, found, b) \<Longrightarrow> s = a @ (if found then c # b else []) \<and> c \<notin> set a \<and> (\<not> found \<longrightarrow> b = [])"
proof (cases "c \<in> set s")
  case True
  assume "py_partition c s = (a, found, b)"
  then have "found" "py_partition c s = (a, True, b)" using True by (auto simp: py_partition_def)
  then show ?thesis using py_partition_found [of c s a b] by simp
next
  case False
  assume "py_partition c s = (a, found, b)"
  then show ?thesis using py_partition_absent [OF False] False by auto
qed

lemma split_netloc_parts:
  "split_netloc url = (loc, rest) \<Longrightarrow> loc \<noteq> [] \<Longrightarrow>
   url = [47, 47] @ loc @ rest \<and> 47 \<notin> set loc \<and> 63 \<notin> set loc \<and> 35 \<notin> set loc"
proof -
  let ?stop = "\<lambda>c. c \<noteq> 47 \<and> c \<noteq> 63 \<and> c \<noteq> (35 :: nat)"
  assume split: "split_netloc url = (loc, rest)" and loc: "loc \<noteq> []"
  then have two: "take 2 url = [47, 47]" and
    parts: "loc = takeWhile ?stop (drop 2 url)" "rest = dropWhile ?stop (drop 2 url)"
    by (auto simp: split_netloc_def Let_def split: if_splits)
  have "url = take 2 url @ drop 2 url" by simp
  also have "drop 2 url = loc @ rest" unfolding parts by simp
  finally have "url = [47, 47] @ loc @ rest" using two by simp
  moreover have "?stop c" if "c \<in> set loc" for c using that unfolding parts by (rule set_takeWhileD [THEN conjunct2])
  ultimately show ?thesis by blast
qed

lemma urlsplit_parts:
  assumes "urlsplit chk s = Inr r" "netloc r \<noteq> []" "scheme r \<noteq> []" "query r = []" "fragment r = []"
    and clean: "url_clean s = s"
  obtains sch qm hm where "s = sch @ [58, 47, 47] @ netloc r @ url_path r @ qm @ hm"
    "scheme r = py_lower sch" "qm \<in> {[], [63]}" "hm \<in> {[], [35]}"
    "47 \<notin> set (netloc r)" "63 \<notin> set (netloc r)" "35 \<notin> set (netloc r)"
proof -
  obtain sch rest loc rest2 rest3 h1 frag p h2 q where
    split: "split_scheme (url_clean s) = (sch, rest)" "split_netloc rest = (loc, rest2)"
      "py_partition 35 rest2 = (rest3, h1, frag)" "py_partition 63 rest3 = (p, h2, q)"
    by (metis prod_cases3 surj_pair)
  have r: "r = \<lparr>scheme = sch, netloc = loc, url_path = p, query = q, fragment = frag\<rparr>"
    using assms(1) unfolding urlsplit_def split Let_def prod.case by (auto simp: rbind_eq_Inr_iff)
  obtain a found b where part: "py_partition 58 s = (a, found, b)" by (metis prod_cases3)
  have sch: "found" "sch = py_lower a" "rest = b"
    using split(1) assms(3) unfolding clean r by (auto simp: split_scheme_def part split: if_splits)
  have "s = a @ 58 # b" using py_partition_join [OF part] sch by simp
  moreover have "rest = [47, 47] @ loc @ rest2 \<and> 47 \<notin> set loc \<and> 63 \<notin> set loc \<and> 35 \<notin> set loc"
    using split_netloc_parts [OF split(2)] assms(2) r by simp
  moreover have "rest2 = rest3 @ (if h1 then [35] else [])" "rest3 = p @ (if h2 then [63] else [])"
    using py_partition_join [OF split(3)] py_partition_join [OF split(4)] assms(4,5) r by auto
  ultimately show thesis
    using r sch
    by (intro that [of a "if h2 then [63] else []" "if h1 then [35] else []"]) auto
qed

text \<open>
  Whatever is accepted is an HTTPS authority and nothing else: the text is the scheme in some
  case, the separator, a network location without user information or delimiters, and at most the
  root path and empty query and fragment marks; the port is absent or 443; the result is not empty.
\<close>

theorem endpoint_host_sound:
  assumes "endpoint_host chk v = Inr h"
  shows "h \<noteq> [] \<and> (\<exists>sch loc tail r. v = PStr (sch @ lit ''://'' @ loc @ tail) \<and> py_lower sch = lit ''https''
    \<and> urlsplit chk (the_str v) = Inr r \<and> netloc r = loc \<and> username r = None
    \<and> 47 \<notin> set loc \<and> 63 \<notin> set loc \<and> 35 \<notin> set loc \<and> 64 \<notin> set loc
    \<and> (port r = Inr None \<or> port r = Inr (Some 443)) \<and> hostname r \<noteq> None \<and> h = py_lower (the (hostname r))
    \<and> tail \<in> {p @ q @ f |p q f. p \<in> {[], [47]} \<and> q \<in> {[], [63]} \<and> f \<in> {[], [35]}})"
proof -
  obtain s where v: "v = PStr s" using assms by (cases v) (auto simp: endpoint_host_def)
  from assms obtain r p where ok: "s \<noteq> []" "s = py_strip s" "list_all (\<lambda>c. \<not> (c < 32 \<or> c = 127)) s"
    and r: "urlsplit chk s = Inr r" and p: "port r = Inr p"
    and guard: "scheme r = lit ''https''" "hostname r \<noteq> None" "hostname r \<noteq> Some []" "username r = None"
      "query r = []" "fragment r = []" "url_path r \<in> {[], lit ''/''}" "p \<in> {None, Some 443}"
    and h: "h = py_lower (the (hostname r))"
    unfolding v endpoint_host_def
    by (auto simp: rbind_eq_Inr_iff recast_if_eq_Inr_iff split: if_splits)
  have "hd s \<noteq> 32"
  proof
    assume "hd s = 32"
    then have "dropWhile py_isspace s = dropWhile py_isspace (tl s)"
      using ok(1) by (cases s) (auto simp: py_isspace_def)
    then have "length (py_strip s) \<le> length (tl s)"
      using length_dropWhile_le [of py_isspace "tl s"]
        length_dropWhile_le [of py_isspace "rev (dropWhile py_isspace (tl s))"]
      by (simp add: py_strip_def py_lstrip_def py_rstrip_def)
    then show False using ok(1,2) by (cases s) auto
  qed
  have clean: "url_clean s = s"
  proof -
    have "\<not> hd s \<le> 32" using ok(1,3) \<open>hd s \<noteq> 32\<close> by (cases s) auto
    then have "dropWhile (\<lambda>c. c \<le> 32) s = s" by (simp add: dropWhile_eq_self_iff)
    moreover have "filter (\<lambda>c. c \<notin> {9, 10, 13}) s = s"
      using ok(3) by (auto simp: filter_id_conv list_all_iff)
    ultimately show ?thesis by (simp add: url_clean_def)
  qed
  have "netloc r \<noteq> []"
    using guard(2) by (auto simp: hostname_def host_port_def user_host_def py_partition_def)
  moreover have "scheme r \<noteq> []" by (simp add: guard)
  ultimately obtain sch qm hm where s: "s = sch @ [58, 47, 47] @ netloc r @ url_path r @ qm @ hm"
    and sch: "scheme r = py_lower sch" "qm \<in> {[], [63]}" "hm \<in> {[], [35]}"
    and loc: "47 \<notin> set (netloc r)" "63 \<notin> set (netloc r)" "35 \<notin> set (netloc r)"
    by (rule urlsplit_parts [OF r _ _ guard(5,6) clean])
  have "64 \<notin> set (netloc r)" using guard(4) by (auto simp: username_def user_host_def split: if_splits)
  moreover have "h \<noteq> []" using h guard(2,3) by (auto simp: py_lower_def)
  moreover have "s = sch @ lit ''://'' @ netloc r @ url_path r @ qm @ hm" using s by (simp add: lit_def)
  moreover have "url_path r @ qm @ hm \<in> {p @ q @ f |p q f. p \<in> {[], [47]} \<and> q \<in> {[], [63]} \<and> f \<in> {[], [35]}}"
    using guard(7) sch(2,3) by (auto simp: lit_def)
  moreover have "port r = Inr None \<or> port r = Inr (Some 443)" using p guard(8) by auto
  moreover have "py_lower sch = lit ''https''" using sch(1) guard(1) by simp
  ultimately show ?thesis
    unfolding v the_str.simps pyval.inject using r guard(2,4) h loc by blast
qed

section \<open>Which targets are accepted\<close>

text \<open>What the loop has established of the gateways it has seen.\<close>

definition target_ok :: "url_checks \<Rightarrow> (string \<times> pystr) list \<Rightarrow> string \<Rightarrow> pydict \<Rightarrow> pydict \<Rightarrow> bool" where
  "target_ok chk expected gateway d n \<longleftrightarrow>
     keys_are d TARGET_FIELDS
     \<and> (\<exists>i nm ch th. dget d ''control_plane_id'' = PStr i \<and> canonical_uuid (py_lower i)
         \<and> dget d ''control_plane_name'' = PStr nm \<and> py_strip nm \<noteq> []
         \<and> (expected = [] \<or> map_of expected gateway = Some nm)
         \<and> endpoint_host chk (dget d ''control_plane_endpoint'') = Inr ch
         \<and> endpoint_host chk (dget d ''telemetry_endpoint'') = Inr th \<and> ch \<noteq> th
         \<and> n = dmerge d [(K ''control_plane_host'', PStr ch), (K ''telemetry_host'', PStr th)])"

lemma validate_target_Inr:
  assumes "validate_target chk expected (PDict ts) seen gateway = Inr seen'"
  obtains d n where "dget ts gateway = PDict d" "dhas ts gateway" "target_ok chk expected gateway d n"
    "the_str (dget d ''control_plane_id'') \<notin> set (ids seen)"
    "the_str (dget d ''control_plane_name'') \<notin> set (names seen)"
    "seen' = \<lparr>ids = the_str (dget d ''control_plane_id'') # ids seen,
              names = the_str (dget d ''control_plane_name'') # names seen,
              normalized = normalized seen @ [(gateway, n)]\<rparr>"
proof -
  have nonblank: "\<not> blank v \<longleftrightarrow> (\<exists>s. v = PStr s \<and> py_strip s \<noteq> [])" for v
    by (cases v) (auto simp: blank_def)
  from assms obtain target where target: "ditem ts gateway = Inr target"
    by (auto simp: validate_target_def rbind_eq_Inr_iff)
  then have has: "dhas ts gateway" "target = dget ts gateway"
    by (auto simp: ditem_def dhas_def dget_def split: option.splits)
  obtain d where d: "target = PDict d" using assms target by (cases target) (auto simp: validate_target_def)
  from assms obtain i nm ch th where
    "keys_are d TARGET_FIELDS" "dget d ''control_plane_id'' = PStr i" "canonical_uuid (py_lower i)"
    "dget d ''control_plane_name'' = PStr nm" "py_strip nm \<noteq> []" "i \<notin> set (ids seen)" "nm \<notin> set (names seen)"
    "name_differs expected gateway nm = Inr False"
    "endpoint_host chk (dget d ''control_plane_endpoint'') = Inr ch"
    "endpoint_host chk (dget d ''telemetry_endpoint'') = Inr th" "ch \<noteq> th"
    "seen' = \<lparr>ids = i # ids seen, names = nm # names seen, normalized = normalized seen @
       [(gateway, dmerge d [(K ''control_plane_host'', PStr ch), (K ''telemetry_host'', PStr th)])]\<rparr>"
    unfolding validate_target_def subscript.simps target d
    by (auto simp: Let_def nonblank rbind_eq_Inr_iff split: if_splits)
  then show thesis
    using has d by (intro that [of d]) (auto simp: target_ok_def name_differs_def split: option.splits if_splits)
qed

lemma validate_targets_Inr:
  assumes "validate_targets chk expected (PDict ts) = Inr result"
  obtains a t na nt where "keys_are ts [''api'', ''third-party'']"
    "dget ts ''api'' = PDict a" "dget ts ''third-party'' = PDict t"
    "target_ok chk expected ''api'' a na" "target_ok chk expected ''third-party'' t nt"
    "dget a ''control_plane_id'' \<noteq> dget t ''control_plane_id''"
    "dget a ''control_plane_name'' \<noteq> dget t ''control_plane_name''"
    "result = [(''api'', na), (''third-party'', nt)]"
proof -
  from assms have ks: "keys_are ts [''api'', ''third-party'']"
    by (auto simp: validate_targets_def keys_are_def rbind_eq_Inr_iff split: if_splits)
  from assms obtain s1 s2 where
    s1: "validate_target chk expected (PDict ts) \<lparr>ids = [], names = [], normalized = []\<rparr> ''api'' = Inr s1"
    and s2: "validate_target chk expected (PDict ts) s1 ''third-party'' = Inr s2"
    and res: "result = normalized s2"
    by (auto simp: validate_targets_def rbind_eq_Inr_iff split: if_splits)
  obtain a na where a: "dget ts ''api'' = PDict a" "target_ok chk expected ''api'' a na"
    "s1 = \<lparr>ids = [the_str (dget a ''control_plane_id'')], names = [the_str (dget a ''control_plane_name'')],
           normalized = [(''api'', na)]\<rparr>"
    by (rule validate_target_Inr [OF s1]) simp
  obtain t nt where t: "dget ts ''third-party'' = PDict t" "target_ok chk expected ''third-party'' t nt"
    "the_str (dget t ''control_plane_id'') \<noteq> the_str (dget a ''control_plane_id'')"
    "the_str (dget t ''control_plane_name'') \<noteq> the_str (dget a ''control_plane_name'')"
    "normalized s2 = [(''api'', na), (''third-party'', nt)]"
    by (rule validate_target_Inr [OF s2]) (simp add: a(3))
  then show thesis using ks a res that by metis
qed

text \<open>
  C11: A target manifest is accepted only with exactly the two gateways, each with its four fields, an
  identifier that is a canonical UUID once lower-cased, a name that is not blank and is the
  configured one where one is configured, and two accepted endpoints with different hosts; the texts
  of the two identifiers and of the two names differ; and every target is returned with its two hosts
  added. The identifiers differ as texts only: two spellings of one UUID in upper and lower case
  pass (\<open>validate_targets_same_control_plane\<close>).
\<close>

theorem validate_targets_sound:
  assumes "validate_targets chk expected (PDict ts) = Inr result"
  shows "\<exists>a t na nt. keys_are ts [''api'', ''third-party'']
    \<and> dget ts ''api'' = PDict a \<and> dget ts ''third-party'' = PDict t
    \<and> target_ok chk expected ''api'' a na \<and> target_ok chk expected ''third-party'' t nt
    \<and> dget a ''control_plane_id'' \<noteq> dget t ''control_plane_id''
    \<and> dget a ''control_plane_name'' \<noteq> dget t ''control_plane_name''
    \<and> result = [(''api'', na), (''third-party'', nt)]"
  using validate_targets_Inr [OF assms] by metis

section \<open>Schema normalisation\<close>

definition crlf :: "pystr \<Rightarrow> pystr" where
  "crlf s = concat (map (\<lambda>c. if c = 10 then [13, 10] else [c]) s)"

lemma replace_crlf: "13 \<notin> set s \<Longrightarrow> py_replace [13, 10] [10] (crlf s) = s"
  unfolding py_replace_def crlf_def
  by (induction s) (auto simp: starts_with_def)

lemma replace_lf: "13 \<notin> set s \<Longrightarrow> py_replace [13, 10] [10] s = s"
  unfolding py_replace_def by (induction s) (auto simp: starts_with_def)

text \<open>
  The hash of a schema does not depend on the line ending of the file nor on one final newline:
  a text without carriage returns, its variant with CRLF line ends, and either with a final newline
  removed, have the same hash.
\<close>

theorem schema_hash_line_endings:
  assumes "s \<noteq> []" "13 \<notin> set s" "\<not> ends_with [10] s"
  shows "schema_hash sha (PStr s) = schema_hash sha (PStr (s @ [10]))
    \<and> schema_hash sha (PStr (crlf s)) = schema_hash sha (PStr s)
    \<and> schema_hash sha (PStr (crlf (s @ [10]))) = schema_hash sha (PStr s)"
proof -
  have ne: "crlf s \<noteq> []" using assms(1) by (cases s) (auto simp: crlf_def)
  have nl: "crlf (s @ [10]) \<noteq> []" by (simp add: crlf_def)
  have fin: "ends_with [10] (s @ [10])" by (simp add: ends_with_iff)
  show ?thesis
    using assms ne nl fin
    by (simp add: schema_hash_def normalize_schema_def replace_lf replace_crlf [of s] replace_crlf [of "s @ [10]"]
        replace_lf [of "s @ [10]"] Let_def)
qed

section \<open>A concrete manifest\<close>

definition no_checks :: url_checks where
  "no_checks = \<lparr>nfkc_ok = (\<lambda>_. True), bracket_ok = (\<lambda>_. True)\<rparr>"

definition sample_target :: "string \<Rightarrow> string \<Rightarrow> pydict" where
  "sample_target i nm =
     [(K ''control_plane_id'', S i), (K ''control_plane_name'', S nm),
      (K ''control_plane_endpoint'', S ''https://cp.example''),
      (K ''telemetry_endpoint'', S ''https://tp.example'')]"

definition UPPER_ID :: string where "UPPER_ID = ''AAAAAAAA-AAAA-4AAA-8AAA-AAAAAAAAAAAA''"
definition LOWER_ID :: string where "LOWER_ID = ''aaaaaaaa-aaaa-4aaa-8aaa-aaaaaaaaaaaa''"

definition sample_targets :: pydict where
  "sample_targets =
     [(K ''api'', PDict (sample_target UPPER_ID ''api'')),
      (K ''third-party'', PDict (sample_target LOWER_ID ''third''))]"

lemma sample_hosts:
  "endpoint_host no_checks (S ''https://cp.example'') = Inr (lit ''cp.example'')"
  "endpoint_host no_checks (S ''https://tp.example'') = Inr (lit ''tp.example'')"
  by (simp_all add: endpoint_host_def urlsplit_def url_clean_def split_scheme_def split_netloc_def
      check_netloc_def py_partition_def hostname_def host_port_def user_host_def username_def password_def
      port_def py_strip_def py_lstrip_def py_rstrip_def py_isspace_def py_lower_def latin1_lower_def
      is_alpha_def is_scheme_char_def is_digit_def lit_def Let_def)

lemma sample_ids:
  "canonical_uuid (py_lower (lit UPPER_ID))" "canonical_uuid (py_lower (lit LOWER_ID))"
  "py_lower (lit UPPER_ID) = py_lower (lit LOWER_ID)"
  by (simp_all add: UPPER_ID_def LOWER_ID_def lit_def py_lower_def latin1_lower_def canonical_uuid_def
      upt_rec is_lower_hex_def is_digit_def)

lemma sample_target_step:
  assumes "canonical_uuid (py_lower (lit i))" "lit i \<notin> set (ids seen)" "lit nm \<notin> set (names seen)"
    and "nm \<in> {''api'', ''third''}" "i \<in> {UPPER_ID, LOWER_ID}"
    and "dget ts gateway = PDict (sample_target i nm)" "dhas ts gateway"
  shows "\<exists>n. validate_target no_checks [] (PDict ts) seen gateway
    = Inr \<lparr>ids = lit i # ids seen, names = lit nm # names seen, normalized = normalized seen @ [(gateway, n)]\<rparr>"
proof -
  have "\<not> blank (S nm)" "\<not> blank (S i)"
    using assms(4,5) by (auto simp: blank_def UPPER_ID_def LOWER_ID_def lit_def py_strip_def py_lstrip_def
        py_rstrip_def py_isspace_def)
  moreover have "keys_are (sample_target i nm) TARGET_FIELDS"
    by (auto simp: sample_target_def keys_are_def TARGET_FIELDS_def)
  moreover have "dget (sample_target i nm) ''control_plane_id'' = S i"
    "dget (sample_target i nm) ''control_plane_name'' = S nm"
    "dget (sample_target i nm) ''control_plane_endpoint'' = S ''https://cp.example''"
    "dget (sample_target i nm) ''telemetry_endpoint'' = S ''https://tp.example''"
    by (simp_all add: sample_target_def dict_simps)
  ultimately show ?thesis
    using assms by (simp add: validate_target_def ditem_dget sample_hosts name_differs_def)
qed

lemma sample_targets_accepted: "\<exists>result. validate_targets no_checks [] (PDict sample_targets) = Inr result"
proof -
  have api: "dget sample_targets ''api'' = PDict (sample_target UPPER_ID ''api'')" "dhas sample_targets ''api''"
    and third: "dget sample_targets ''third-party'' = PDict (sample_target LOWER_ID ''third'')"
      "dhas sample_targets ''third-party''"
    by (simp_all add: sample_targets_def dict_simps)
  obtain n1 where one: "validate_target no_checks [] (PDict sample_targets)
      \<lparr>ids = [], names = [], normalized = []\<rparr> ''api''
      = Inr \<lparr>ids = [lit UPPER_ID], names = [lit ''api''], normalized = [(''api'', n1)]\<rparr>"
    using sample_target_step [OF sample_ids(1), of "\<lparr>ids = [], names = [], normalized = []\<rparr>" "''api''"]
      api by auto
  obtain n2 where "validate_target no_checks [] (PDict sample_targets)
      \<lparr>ids = [lit UPPER_ID], names = [lit ''api''], normalized = [(''api'', n1)]\<rparr> ''third-party'' = Inr n2"
    using sample_target_step [OF sample_ids(2), of "\<lparr>ids = [lit UPPER_ID], names = [lit ''api''],
        normalized = [(''api'', n1)]\<rparr>" "''third''" sample_targets "''third-party''"] third
    by (auto simp: UPPER_ID_def LOWER_ID_def)
  then show ?thesis
    by (simp add: validate_targets_def one) (simp add: sample_targets_def)
qed

text \<open>
  The check that the two control planes differ compares the identifiers as texts, while the UUID
  check ignores case: a manifest that names one control plane twice, in upper and in lower case,
  passes.
\<close>

theorem validate_targets_same_control_plane:
  "\<exists>ts a t result. validate_targets no_checks [] (PDict ts) = Inr result
    \<and> dget ts ''api'' = PDict a \<and> dget ts ''third-party'' = PDict t
    \<and> py_lower (the_str (dget a ''control_plane_id'')) = py_lower (the_str (dget t ''control_plane_id''))"
proof -
  have "py_lower (the_str (dget (sample_target UPPER_ID ''api'') ''control_plane_id''))
      = py_lower (the_str (dget (sample_target LOWER_ID ''third'') ''control_plane_id''))"
    using sample_ids(3) by (simp add: sample_target_def dict_simps)
  moreover have "dget sample_targets ''api'' = PDict (sample_target UPPER_ID ''api'')"
    "dget sample_targets ''third-party'' = PDict (sample_target LOWER_ID ''third'')"
    by (simp_all add: sample_targets_def dict_simps)
  ultimately show ?thesis using sample_targets_accepted by blast
qed

theorem validate_targets_sound_witness:
  "\<exists>a t result. validate_targets no_checks [] (PDict sample_targets) = Inr result
    \<and> dget sample_targets ''api'' = PDict a \<and> dget sample_targets ''third-party'' = PDict t
    \<and> dget a ''control_plane_id'' \<noteq> dget t ''control_plane_id''"
  using sample_targets_accepted validate_targets_sound by blast

theorem endpoint_host_accepts_witness:
  "endpoint_host no_checks (PStr (lit ''HTTPS'' @ lit ''://'' @ lit ''CP.example'' @ lit '':443'' @ lit ''/''))
   = Inr (py_lower (lit ''CP.example''))"
  by (rule endpoint_host_accepts)
    (simp_all add: lit_def py_lower_def latin1_lower_def is_alpha_def host_char_def)

theorem endpoint_host_sound_witness:
  "\<exists>sch loc tail. S ''https://cp.example'' = PStr (sch @ lit ''://'' @ loc @ tail)
    \<and> py_lower sch = lit ''https'' \<and> 64 \<notin> set loc"
  using endpoint_host_sound [OF sample_hosts(1)] by blast

theorem schema_hash_line_endings_witness:
  "schema_hash (\<lambda>_. ''k'') (S ''return {}'') = schema_hash (\<lambda>_. ''k'') (PStr (lit ''return {}'' @ [10]))"
  using schema_hash_line_endings [of "lit ''return {}''" "\<lambda>_. ''k''"]
  by (simp add: ends_with_def) (simp add: lit_def)

end
