(* ===== verification/Konnect_Api.thy ===== *)
theory Konnect_Api
  imports Wp1_Targets
begin

text \<open>
  Calls of the Konnect API as \<open>src/scripts/wp1_target.py\<close> makes them (\<open>request_json\<close>). The remote
  side is a parameter that may answer each request depending on all requests before it; an action
  is a function from the requests made so far to its result and the requests made after it, so that
  theorems can speak about which requests were sent, and in which order.
\<close>

datatype http_method = GET | PUT | POST

record api_request =
  rq_method :: http_method
  rq_url :: pystr
  rq_query :: "(string \<times> pystr) list"
  rq_body :: "pyval option"

text \<open>
  An HTTP error status; the \<open>URLError\<close> of a failed connection; another exception of sending the request
  or of reading the body (\<open>OSError\<close>, \<open>TimeoutError\<close>, \<open>HTTPException\<close>, or the \<open>UnicodeEncodeError\<close> of an address
  that cannot be encoded); or a status with the bytes of the body. The history holds the attempts.
\<close>

datatype reply = HTTPError int | URLError | Failed exn | Answer int bytes

type_synonym history = "api_request list"

text \<open>
  The service as one caller sees it: every request of a command carries the same bearer token and
  the same fixed headers, so they are part of the parameter and not of the request. The other fields
  are the float conversions, the recursion limit and the non-UTF-8 decoders of the interpreter.
\<close>

record konnect =
  answer :: "history \<Rightarrow> api_request \<Rightarrow> reply"
  kn_floats :: float_codec
  kn_depth :: nat
  kn_wide :: "bytes \<Rightarrow> pystr res"

definition response_value :: "konnect \<Rightarrow> bytes \<Rightarrow> pyval res" where
  "response_value k raw =
     rbind (json_bytes_text (kn_wide k) raw) (json_loads (plain_opts (kn_floats k)) (kn_depth k))"

type_synonym 'a act = "(api_request, 'a) run"

definition request_json :: "konnect \<Rightarrow> api_request \<Rightarrow> (int \<times> pyval) act" where
  "request_json k rq h =
     ((case answer k h rq of
         HTTPError code \<Rightarrow> Inl (ValueError (lit ''Konnect request failed with HTTP '' @ show_int code))
       | URLError \<Rightarrow> raiseV ''Konnect request failed or returned invalid JSON''
       | Failed e \<Rightarrow>
           if e = TimeoutError \<or> e = JSONDecodeError
           then raiseV ''Konnect request failed or returned invalid JSON'' else Inl e
       | Answer code raw \<Rightarrow>
           if raw = [] then Inr (code, PDict [])
           else rbind (recast_if (\<lambda>e. e = JSONDecodeError)
                   (ValueError (lit ''Konnect request failed or returned invalid JSON'')) (response_value k raw))
                 (\<lambda>v. Inr (code, v))),
      h @ [rq])"

lemma response_value_body:
  assumes "json_plain v" "json_depth v \<le> kn_depth k"
  shows "response_value k (json_body fc v) = Inr v"
proof -
  have "json_bytes_text (kn_wide k) (json_body fc v) = Inr (json_dumps fc v)"
    unfolding json_body_def by (rule json_bytes_text_ascii [OF json_dumps_ascii [OF assms(1)]])
  then show ?thesis
    using json_loads_dumps [OF plain_opts_keeps_pairs assms] by (simp add: response_value_def)
qed

definition get_request :: "pystr \<Rightarrow> (string \<times> pystr) list \<Rightarrow> api_request" where
  "get_request url params = \<lparr>rq_method = GET, rq_url = url, rq_query = params, rq_body = None\<rparr>"

lemma request_json_history: "snd (request_json k rq h) = h @ [rq]"
  by (simp add: request_json_def)

lemma request_json_Inr:
  "request_json k rq h = (Inr x, h') \<Longrightarrow> h' = h @ [rq]"
  by (simp add: request_json_def)

text \<open>
  Which requests an action may send: \<open>sends P m\<close> when every request it adds satisfies \<open>P\<close>.
\<close>

definition sends :: "('e \<Rightarrow> bool) \<Rightarrow> ('e, 'a) run \<Rightarrow> bool" where
  "sends P m \<longleftrightarrow> (\<forall>h r h'. m h = (r, h') \<longrightarrow> (\<exists>new. h' = h @ new \<and> list_all P new))"

lemma sends_pure [intro]: "sends P (pure r)"
  by (auto simp: sends_def pure_def)

lemma sends_request [intro]: "P rq \<Longrightarrow> sends P (request_json k rq)"
  by (auto simp: sends_def request_json_def)

lemma sends_abind [intro]:
  assumes "sends P m" "\<And>x. sends P (f x)"
  shows "sends P (abind m f)"
  unfolding sends_def
proof (intro allI impI)
  fix h r h'
  assume run: "abind m f h = (r, h')"
  obtain r1 h1 where m: "m h = (r1, h1)" by (cases "m h")
  obtain n1 where n1: "h1 = h @ n1" "list_all P n1" using assms(1) m unfolding sends_def by blast
  show "\<exists>new. h' = h @ new \<and> list_all P new"
  proof (cases r1)
    case (Inl e)
    then show ?thesis using run m n1 by (auto simp: abind_def)
  next
    case (Inr x)
    then have "f x h1 = (r, h')" using run m by (simp add: abind_def)
    then obtain n2 where "h' = h1 @ n2" "list_all P n2" using assms(2) unfolding sends_def by blast
    then show ?thesis using n1 by auto
  qed
qed

lemma sends_each [intro]: "(\<And>x. x \<in> set xs \<Longrightarrow> sends P (f x)) \<Longrightarrow> sends P (each f xs)"
  by (induction xs) auto

lemma sends_mono: "sends P m \<Longrightarrow> (\<And>rq. P rq \<Longrightarrow> Q rq) \<Longrightarrow> sends Q m"
  unfolding sends_def by (meson list.pred_mono_strong)

lemma sends_if: "(b \<Longrightarrow> sends P m) \<Longrightarrow> (\<not> b \<Longrightarrow> sends P n) \<Longrightarrow> sends P (if b then m else n)"
  by simp

lemma sends_pure_bind: "(\<And>x. r = Inr x \<Longrightarrow> sends P (f x)) \<Longrightarrow> sends P (abind (pure r) f)"
  by (cases r) (auto simp: sends_def abind_def pure_def)

lemma sends_atry: "sends P m \<Longrightarrow> (\<And>e. sends P (f e)) \<Longrightarrow> sends P (atry m f)"
  unfolding sends_def atry_def by (fastforce split: prod.splits sum.splits)

lemma sends_run: "sends P m \<Longrightarrow> m h = (r, h') \<Longrightarrow> \<exists>new. h' = h @ new \<and> list_all P new"
  unfolding sends_def by blast

end
