(* ===== verification/Deck_Yaml.thy ===== *)
theory Deck_Yaml
  imports Wp1_Targets
begin

text \<open>
  Reading the declarative gateway state: the files of the repository, the substitution of decK's
  environment templates by markers, and the YAML loader that rejects duplicate keys
  (\<open>UniqueKeyLoader\<close> and \<open>_parse_foundation\<close> of \<open>src/scripts/wp1_target.py\<close>, \<open>_parse_state\<close> of
  \<open>src/scripts/wp3_runtime.py\<close>).

  The scanner, parser, composer and scalar resolver of PyYAML are the parameter \<open>compose\<close>: it turns
  a text into a tree of nodes, with scalars already resolved and merge keys already flattened.
  Building Python values from the nodes is modelled. Scalars that resolve to dates or binary data
  have no counterpart among the values.
\<close>

section \<open>Files and nodes\<close>

datatype ynode = YScalar pyval | YSeq "ynode list" | YMap "(ynode \<times> ynode) list"

record repo =
  is_file :: "string \<Rightarrow> bool"
  is_symlink :: "string \<Rightarrow> bool"
  file_exists :: "string \<Rightarrow> bool"
  read_text :: "string \<Rightarrow> pystr res"
  compose :: "pystr \<Rightarrow> ynode res"

section \<open>The loader\<close>

definition has_key :: "pydict \<Rightarrow> pykey \<Rightarrow> bool" where
  "has_key d k \<longleftrightarrow> list_ex (\<lambda>(l, _). key_eq l k) d"

function (sequential) construct_object :: "ynode \<Rightarrow> pyval res"
  and construct_sequence :: "ynode list \<Rightarrow> pyval list res"
  and construct_mapping :: "pydict \<Rightarrow> (ynode \<times> ynode) list \<Rightarrow> pydict res" where
  "construct_object (YScalar v) = Inr v"
| "construct_object (YSeq ns) = rbind (construct_sequence ns) (\<lambda>vs. Inr (PList vs))"
| "construct_object (YMap ps) = rbind (construct_mapping [] ps) (\<lambda>d. Inr (PDict d))"
| "construct_sequence [] = Inr []"
| "construct_sequence (n # ns) =
     rbind (construct_object n) (\<lambda>v. rbind (construct_sequence ns) (\<lambda>vs. Inr (v # vs)))"
| "construct_mapping d [] = Inr d"
| "construct_mapping d ((key_node, value_node) # ps) =
     rbind (construct_object key_node) (\<lambda>key_value.
     rbind (recast YAMLError (hash_key key_value)) (\<lambda>key.
     if has_key d key then Inl YAMLError
     else rbind (construct_object value_node) (\<lambda>v. construct_mapping (d @ [(key, v)]) ps)))"
  by pat_completeness auto
termination
  by (relation "measure (case_sum size (case_sum (size_list size) (\<lambda>(_, ps). size_list (size_prod size size) ps)))")
    auto

definition yaml_load :: "('z repo_scheme) \<Rightarrow> pystr \<Rightarrow> pyval res" where
  "yaml_load files source = rbind (compose files source) construct_object"

section \<open>Templates\<close>

definition is_template_char :: "nat \<Rightarrow> bool" where
  "is_template_char c \<longleftrightarrow> 65 \<le> c \<and> c \<le> 90 \<or> is_digit c \<or> c = 95"

text \<open>
  A match of the template pattern at the start of the text: the name and what follows. Each
  repetition of the pattern ends at the first character outside its class, since the next part of
  the pattern starts with a character outside that class.
\<close>

definition match_name :: "pystr \<Rightarrow> (pystr \<times> pystr) option" where
  "match_name s =
     (let name = takeWhile is_template_char s; after = dropWhile is_template_char s;
          closing = dropWhile py_isspace (tl after)
      in if name \<noteq> [] \<and> starts_with [34] after \<and> starts_with [125, 125] closing
         then Some (name, drop 2 closing) else None)"

definition match_template :: "pystr \<Rightarrow> (pystr \<times> pystr) option" where
  "match_template s =
     (let env = dropWhile py_isspace (drop 3 s); gap = drop 3 env; quote = dropWhile py_isspace gap
      in if starts_with [36, 123, 123] s \<and> starts_with (lit ''env'') env
            \<and> (gap \<noteq> [] \<and> py_isspace (hd gap)) \<and> starts_with [34] quote
         then match_name (tl quote) else None)"

lemma length_dropWhile_tl_le: "length (dropWhile P (tl s)) \<le> length s"
  using length_dropWhile_le [of P "tl s"] by simp

lemma match_name_shorter: "match_name s = Some (name, rest) \<Longrightarrow> length rest \<le> length s"
  using length_dropWhile_tl_le [of py_isspace "dropWhile is_template_char s"]
    length_dropWhile_le [of is_template_char s]
  by (auto simp: match_name_def Let_def split: if_splits)

lemma match_template_shorter: "match_template s = Some (name, rest) \<Longrightarrow> length rest < length s"
proof -
  assume m: "match_template s = Some (name, rest)"
  let ?env = "dropWhile py_isspace (drop 3 s)"
  have "s \<noteq> []" using m by (auto simp: match_template_def starts_with_def Let_def split: if_splits)
  moreover have "length rest \<le> length (tl (dropWhile py_isspace (drop 3 ?env)))"
    using m by (auto simp: match_template_def Let_def split: if_splits dest: match_name_shorter)
  moreover have "length (dropWhile py_isspace (drop 3 ?env)) \<le> length ?env - 3"
    using length_dropWhile_le [of py_isspace "drop 3 ?env"] by simp
  moreover have "length ?env \<le> length s - 3" using length_dropWhile_le [of py_isspace "drop 3 s"] by simp
  ultimately show ?thesis by (cases s) auto
qed

function render_templates :: "pystr \<Rightarrow> pystr \<Rightarrow> pystr" where
  "render_templates marker [] = []"
| "render_templates marker (c # s) =
     (case match_template (c # s) of
        Some (name, rest) \<Rightarrow> marker @ name @ render_templates marker rest
      | None \<Rightarrow> c # render_templates marker s)"
  by pat_completeness auto
termination
  by (relation "measure (\<lambda>(_, s). length s)") (auto dest: match_template_shorter)

section \<open>Parsing a state file\<close>

definition parse_deck_state ::
    "string \<Rightarrow> string \<Rightarrow> string \<Rightarrow> string \<Rightarrow> ('z repo_scheme) \<Rightarrow> string \<Rightarrow> pydict res" where
  "parse_deck_state marker unsupported invalid not_mapping files path =
     rbind (read_text files path) (\<lambda>source.
     let rendered = render_templates (lit marker) source in
       if contains_sub [36, 123, 123] rendered then raiseV unsupported
       else rbind (recast_if (\<lambda>e. e = YAMLError) (ValueError (lit invalid)) (yaml_load files rendered)) (\<lambda>parsed.
         if \<not> is_dict parsed then raiseV not_mapping else Inr (the_dict parsed)))"

definition parse_foundation :: "('z repo_scheme) \<Rightarrow> string \<Rightarrow> pydict res" where
  "parse_foundation =
     parse_deck_state ''foundation-template:''
       ''foundation state contains an unsupported template expression''
       ''foundation state is not valid duplicate-free YAML''
       ''foundation state must be a YAML mapping''"

definition parse_state :: "('z repo_scheme) \<Rightarrow> string \<Rightarrow> pydict res" where
  "parse_state =
     parse_deck_state ''deck-template:''
       ''API runtime state contains an unsupported template expression''
       ''API runtime state is not valid duplicate-free decK YAML''
       ''API runtime state must be a YAML mapping''"

section \<open>Loaded documents have unique keys\<close>

text \<open>No mapping of the value, at any depth, has two keys that are equal in Python.\<close>

fun distinct_keys :: "pydict \<Rightarrow> bool" where
  "distinct_keys [] = True"
| "distinct_keys ((k, v) # d) = (list_all (\<lambda>(l, _). \<not> key_eq k l) d \<and> distinct_keys d)"

fun unique_keys :: "pyval \<Rightarrow> bool" where
  "unique_keys (PList vs) = list_all unique_keys vs"
| "unique_keys (PDict d) = (distinct_keys d \<and> list_all (\<lambda>(_, v). unique_keys v) d)"
| "unique_keys v = True"

fun scalar :: "pyval \<Rightarrow> bool" where
  "scalar (PList _) = False"
| "scalar (PDict _) = False"
| "scalar _ = True"

fun scalar_leaves :: "ynode \<Rightarrow> bool" where
  "scalar_leaves (YScalar v) = scalar v"
| "scalar_leaves (YSeq ns) = list_all scalar_leaves ns"
| "scalar_leaves (YMap ps) = list_all (\<lambda>(k, v). scalar_leaves k \<and> scalar_leaves v) ps"

lemma distinct_keys_snoc:
  "distinct_keys (d @ [(k, v)]) \<longleftrightarrow> distinct_keys d \<and> \<not> has_key d k"
  by (induction d rule: distinct_keys.induct) (auto simp: has_key_def)

lemma construct_unique:
  "scalar_leaves n \<Longrightarrow> construct_object n = Inr v \<Longrightarrow> unique_keys v"
  "list_all scalar_leaves ns \<Longrightarrow> construct_sequence ns = Inr vs \<Longrightarrow> list_all unique_keys vs"
  "list_all (\<lambda>(k, v). scalar_leaves k \<and> scalar_leaves v) ps \<Longrightarrow> construct_mapping d ps = Inr r \<Longrightarrow>
     unique_keys (PDict d) \<Longrightarrow> unique_keys (PDict r)"
proof (induction n and ns and d ps arbitrary: v and vs and r
    rule: construct_object_construct_sequence_construct_mapping.induct)
  case (1 w)
  then show ?case by (cases w) auto
next
  case (7 d key_node value_node ps)
  from 7(5) obtain kv key w where
    *: "construct_object key_node = Inr kv" "recast YAMLError (hash_key kv) = Inr key" "\<not> has_key d key"
    "construct_object value_node = Inr w" "construct_mapping (d @ [(key, w)]) ps = Inr r"
    by (auto simp: rbind_eq_Inr_iff split: if_splits)
  have "unique_keys w" using 7(2) [OF *(1,2,3) _ *(4)] 7(4) by simp
  then have "unique_keys (PDict (d @ [(key, w)]))" using 7(6) *(3) by (simp add: distinct_keys_snoc)
  then show ?case using 7(3) [OF *(1,2,3,4) _ *(5)] 7(4) by simp
qed (auto simp: rbind_eq_Inr_iff)

text \<open>
  C15: The YAML loader never lets a repeated key pass: a loaded document has no mapping, at any depth,
  with two keys that Python considers equal.
\<close>

theorem yaml_load_unique_keys:
  assumes "\<And>src node. compose files src = Inr node \<Longrightarrow> scalar_leaves node"
    and "yaml_load files source = Inr v"
  shows "unique_keys v"
proof -
  obtain node where "compose files source = Inr node" "construct_object node = Inr v"
    using assms(2) by (auto simp: yaml_load_def rbind_eq_Inr_iff)
  then show ?thesis using construct_unique(1) assms(1) by blast
qed

section \<open>Rendering\<close>

definition template :: "pystr \<Rightarrow> pystr" where
  "template name = lit ''${{ env '' @ [34] @ name @ [34] @ lit '' }}''"

definition document :: "(pystr \<Rightarrow> pystr) \<Rightarrow> (pystr \<times> pystr) list \<Rightarrow> pystr \<Rightarrow> pystr" where
  "document f chunks end_text = concat (map (\<lambda>(before, name). before @ f name) chunks) @ end_text"

lemma match_template_template:
  assumes "name \<noteq> []" "list_all is_template_char name"
  shows "match_template (template name @ rest) = Some (name, rest)"
proof -
  have "takeWhile is_template_char (name @ 34 # tail) = name"
    "dropWhile is_template_char (name @ 34 # tail) = 34 # tail" for tail
    using assms(2) by (auto simp: takeWhile_append dropWhile_append list_all_iff is_template_char_def is_digit_def)
  then have "match_name (name @ 34 # 32 # 125 # 125 # rest) = Some (name, rest)"
    using assms(1) by (simp add: match_name_def starts_with_def py_isspace_def)
  moreover have "template name @ rest = [36, 123, 123, 32, 101, 110, 118, 32, 34] @ name @ 34 # 32 # 125 # 125 # rest"
    by (simp add: template_def lit_def)
  ultimately show ?thesis
    by (simp add: match_template_def starts_with_def lit_def py_isspace_def)
qed

lemma match_template_other: "c \<noteq> 36 \<Longrightarrow> match_template (c # s) = None"
  by (simp add: match_template_def starts_with_def Let_def)

lemma render_plain: "36 \<notin> set s \<Longrightarrow> render_templates marker (s @ t) = s @ render_templates marker t"
  by (induction s) (auto simp: match_template_other)

lemma render_template:
  assumes "name \<noteq> []" "list_all is_template_char name"
  shows "render_templates marker (template name @ rest) = marker @ name @ render_templates marker rest"
proof -
  obtain c s where "template name @ rest = c # s" by (simp add: template_def lit_def)
  then show ?thesis using match_template_template [OF assms, of rest] by simp
qed

text \<open>
  Rendering replaces every environment template of a state file by its marker and leaves the
  rest of the text as it is.
\<close>

theorem render_document:
  assumes "list_all (\<lambda>(before, name). 36 \<notin> set before \<and> name \<noteq> [] \<and> list_all is_template_char name) chunks"
    and "36 \<notin> set end_text"
  shows "render_templates marker (document template chunks end_text)
    = document (\<lambda>name. marker @ name) chunks end_text"
  using assms(1)
proof (induction chunks)
  case Nil
  then show ?case using render_plain [OF assms(2), of marker "[]"] by (simp add: document_def)
next
  case (Cons chunk chunks)
  obtain before name where chunk: "chunk = (before, name)" by (cases chunk)
  have "document template (chunk # chunks) end_text = before @ template name @ document template chunks end_text"
    by (simp add: document_def chunk)
  then show ?case
    using Cons chunk by (simp add: render_plain render_template) (simp add: document_def)
qed

theorem render_document_witness:
  "render_templates (lit ''deck-template:'') (lit ''cert: '' @ template (lit ''DECK_CA'') @ [10])
   = lit ''cert: '' @ lit ''deck-template:'' @ lit ''DECK_CA'' @ [10]"
  using render_document [of "[(lit ''cert: '', lit ''DECK_CA'')]" "[10]" "lit ''deck-template:''"]
  by (simp add: document_def) (simp add: lit_def is_template_char_def is_digit_def)

text \<open>
  A file that holds a marker as plain text renders to the same document as one that holds the
  template, so the validators cannot tell a template from its marker.
\<close>

theorem literal_marker_indistinguishable:
  assumes "36 \<notin> set before" "36 \<notin> set after" "36 \<notin> set marker"
    and "name \<noteq> []" "list_all is_template_char name"
  shows "render_templates marker (before @ marker @ name @ after)
    = render_templates marker (before @ template name @ after)"
proof -
  have "36 \<notin> set name" using assms(5) by (auto simp: list_all_iff is_template_char_def is_digit_def)
  then show ?thesis using assms by (simp add: render_plain render_template)
qed

definition sample_repo :: repo where
  "sample_repo =
     \<lparr>is_file = (\<lambda>_. True), is_symlink = (\<lambda>_. False), file_exists = (\<lambda>_. True),
      read_text = (\<lambda>_. Inr []),
      compose = (\<lambda>_. Inr (YMap [(YScalar (S ''a''), YSeq [YScalar (PInt 1)])]))\<rparr>"

theorem yaml_load_unique_keys_witness:
  "\<exists>v. yaml_load sample_repo [] = Inr v \<and> unique_keys v"
proof -
  have "yaml_load sample_repo [] = Inr (PDict [(K ''a'', PList [PInt 1])])"
    by (simp add: yaml_load_def sample_repo_def has_key_def)
  moreover have "scalar_leaves node" if "compose sample_repo txt_in = Inr node" for txt_in node
    using that by (auto simp: sample_repo_def)
  ultimately show ?thesis using yaml_load_unique_keys [of sample_repo "[]"] by blast
qed

end
