(* ===== verification/Foundation_State.thy ===== *)
theory Foundation_State
  imports Deck_Yaml
begin

text \<open>
  The foundation state of either gateway: \<open>_require_tags\<close> and \<open>validate_foundation_state\<close> of
  \<open>src/scripts/wp1_target.py\<close>, and the exact set of documents they accept.
\<close>

section \<open>Expected entities\<close>

definition strs :: "string list \<Rightarrow> pyval" where
  "strs xs = PList (map S xs)"

definition obj :: "(string \<times> pyval) list \<Rightarrow> pyval" where
  "obj kvs = PDict (map (\<lambda>(k, v). (K k, v)) kvs)"

definition FOUNDATION_FILES :: "(string \<times> string) list" where
  "FOUNDATION_FILES = [(''api'', ''kong/foundation/api.yaml''), (''third-party'', ''kong/foundation/third-party.yaml'')]"

definition FOUNDATION_TAGS :: pyval where
  "FOUNDATION_TAGS = strs [''fapi2-demo'', ''fapi2-foundation'']"

definition expected_ids :: "string \<Rightarrow> string \<Rightarrow> string list" where
  "expected_ids gateway collection =
     (if gateway = ''api''
      then (if collection = ''certificates''
            then [''44444444-4444-4444-8444-444444444444'', ''55555555-5555-4555-8555-555555555555''] else [])
      else (if collection = ''certificates''
            then [''11111111-1111-4111-8111-111111111111'', ''22222222-2222-4222-8222-222222222222'']
            else [''33333333-3333-4333-8333-333333333333'']))"

definition expected_cert_refs :: "string \<Rightarrow> (string \<times> string \<times> string) list" where
  "expected_cert_refs gateway =
     (if gateway = ''api''
      then [(''44444444-4444-4444-8444-444444444444'', ''DECK_API_INTROSPECTION_CERT_YAML'',
             ''{vault://env/API_INTROSPECTION_KEY}''),
            (''55555555-5555-4555-8555-555555555555'', ''DECK_API_UPSTREAM_CERT_YAML'',
             ''{vault://env/API_UPSTREAM_KEY}'')]
      else [(''11111111-1111-4111-8111-111111111111'', ''DECK_ROUTE_A_TLS_CERT_YAML'',
             ''{vault://env/ROUTE_A_TLS_KEY}''),
            (''22222222-2222-4222-8222-222222222222'', ''DECK_ROUTE_B_TLS_CERT_YAML'',
             ''{vault://env/ROUTE_B_TLS_KEY}'')])"

definition expected_ca_ref :: "string \<Rightarrow> (string \<times> string) option" where
  "expected_ca_ref gateway =
     (if gateway = ''api'' then None
      else Some (''33333333-3333-4333-8333-333333333333'', ''DECK_FAPI_CA_CERT_YAML''))"

definition transport_config :: pyval where
  "transport_config = obj
     [(''issuer'', S ''https://localhost:8444/realms/fapi-demo''),
      (''internal_origin'', S ''https://keycloak:8443''),
      (''discovery_url'', S ''https://keycloak:8443/realms/fapi-demo/.well-known/openid-configuration''),
      (''jwks_url'', S ''https://keycloak:8443/realms/fapi-demo/protocol/openid-connect/certs''),
      (''par_url'', S ''https://keycloak:8443/realms/fapi-demo/protocol/openid-connect/ext/par/request''),
      (''token_url'', S ''https://keycloak:8443/realms/fapi-demo/protocol/openid-connect/token''),
      (''revocation_url'', S ''https://keycloak:8443/realms/fapi-demo/protocol/openid-connect/revoke''),
      (''metadata_certificate_file'', S ''/etc/kong/fapi/third-party-metadata.crt''),
      (''metadata_key_file'', S ''/etc/kong/fapi/third-party-metadata.key''),
      (''routes'', PList ROUTES),
      (''evidence_correlation_enabled'', PBool False)]"

section \<open>The checks\<close>

definition foundation_template :: "string \<Rightarrow> pyval" where
  "foundation_template name = S (''foundation-template:'' @ name)"

definition require_tags :: "pyval \<Rightarrow> unit res" where
  "require_tags entity =
     raise_if (\<not> is_dict entity \<or> \<not> py_eq (dget (the_dict entity) ''tags'') FOUNDATION_TAGS)
       (ValueError (lit ''foundation entity ownership tags were changed''))"

definition entity_fields :: "string \<Rightarrow> string list" where
  "entity_fields collection =
     (if collection = ''certificates'' then [''id'', ''cert'', ''key'', ''tags''] else [''id'', ''cert'', ''tags''])"

definition check_entity :: "string \<Rightarrow> string \<Rightarrow> unit \<Rightarrow> pyval \<Rightarrow> unit res" where
  "check_entity gateway collection u entity =
     (let d = the_dict entity in
      if \<not> is_dict entity \<or> \<not> keys_are d (entity_fields collection)
      then raiseV ''foundation certificate entity fields were changed''
      else rbind (require_tags entity) (\<lambda>_.
        if collection = ''certificates''
        then (case map_of (map (\<lambda>(i, refs). (S i, refs)) (expected_cert_refs gateway)) (dget d ''id'') of
                None \<Rightarrow> Inl KeyError
              | Some (cert_env, key_ref) \<Rightarrow>
                  raise_if (\<not> py_eq (dget d ''cert'') (foundation_template cert_env)
                            \<or> \<not> py_eq (dget d ''key'') (S key_ref))
                    (ValueError (lit ''foundation certificate identity or secret reference was changed'')))
        else (case expected_ca_ref gateway of
                None \<Rightarrow> raiseV ''foundation CA certificate identity or reference was changed''
              | Some (ca_id, ca_env) \<Rightarrow>
                  raise_if (\<not> (py_eq (dget d ''id'') (S ca_id) \<and> py_eq (dget d ''cert'') (foundation_template ca_env)))
                    (ValueError (lit ''foundation CA certificate identity or reference was changed'')))))"

definition check_collection :: "string \<Rightarrow> string \<Rightarrow> pyval \<Rightarrow> unit res" where
  "check_collection gateway collection rows =
     (if \<not> is_list rows
         \<or> \<not> list_all (\<lambda>row. is_dict row \<and> is_str (dget (the_dict row) ''id'')) (the_list rows)
      then raiseV ''foundation certificate entity set or fixed IDs were changed''
      else let actual_ids = map (\<lambda>row. dget (the_dict row) ''id'') (the_list rows);
               expected = map S (expected_ids gateway collection) in
        if set actual_ids \<noteq> set expected \<or> length actual_ids \<noteq> length expected
        then raiseV ''foundation certificate entity set or fixed IDs were changed''
        else foldr_res (check_entity gateway collection) () (the_list rows))"

definition plugin_is_transport :: "pydict \<Rightarrow> bool" where
  "plugin_is_transport p \<longleftrightarrow>
     py_eq (dget p ''id'') (S ''88888888-8888-4888-8888-888888888888'')
     \<and> py_eq (dget p ''name'') (S ''fapi-as-mtls-transport'')
     \<and> dget p ''enabled'' = PBool True
     \<and> py_eq (dget p ''protocols'') (strs [''http'', ''https''])
     \<and> py_eq (dget p ''config'') transport_config"

text \<open>
  The fields of the plugin are compared before its type is: \<open>set(plugin)\<close> raises \<open>TypeError\<close> on a
  value that is not iterable, and \<open>plugin.get\<close> raises \<open>AttributeError\<close> on a list or string with
  the expected elements.
\<close>

definition TRANSPORT_FIELDS :: "string list" where
  "TRANSPORT_FIELDS = [''id'', ''name'', ''enabled'', ''protocols'', ''tags'', ''config'']"

definition check_transport :: "pyval \<Rightarrow> unit res" where
  "check_transport plugin =
     rbind (set_of plugin) (\<lambda>fields.
     if set fields \<noteq> set (map K TRANSPORT_FIELDS)
     then raiseV ''third-party global transport entity identity or config was changed''
     else if \<not> is_dict plugin then Inl AttributeError
     else if \<not> plugin_is_transport (the_dict plugin)
     then raiseV ''third-party global transport entity identity or config was changed''
     else require_tags plugin)"

definition FOUNDATION_KEYS :: "string list" where
  "FOUNDATION_KEYS = [''_format_version'', ''_info'', ''certificates'', ''ca_certificates'', ''plugins'']"

definition check_foundation :: "string \<Rightarrow> pydict \<Rightarrow> unit res" where
  "check_foundation gateway parsed =
     (if \<not> keys_within parsed FOUNDATION_KEYS
      then raiseV ''foundation state contains an unexpected top-level entity or key''
      else if \<not> py_eq (dget parsed ''_format_version'') (S ''3.0'')
              \<or> \<not> py_eq (dget parsed ''_info'') (obj [(''select_tags'', FOUNDATION_TAGS)])
      then raiseV ''foundation state select_tags were changed''
      else if gateway = ''api'' \<and> dhas parsed ''ca_certificates''
      then raiseV ''API foundation must not manage the shared API CA''
      else
        rbind (check_collection gateway ''certificates'' (dget parsed ''certificates'')) (\<lambda>_.
        rbind (check_collection gateway ''ca_certificates''
                 (if gateway = ''api'' then PList [] else dget parsed ''ca_certificates'')) (\<lambda>_.
        if dget parsed ''services'' \<noteq> PNone \<or> dget parsed ''routes'' \<noteq> PNone
        then raiseV ''foundation state must not contain services or routes''
        else if gateway = ''api''
        then raise_if (dhas parsed ''plugins'')
               (ValueError (lit ''API foundation must not contain any plugin entities''))
        else (case dget parsed ''plugins'' of
                PList [plugin] \<Rightarrow> check_transport plugin
              | _ \<Rightarrow> raiseV ''third-party foundation must contain exactly one global transport entity''))))"

definition validate_foundation_state :: "('z repo_scheme) \<Rightarrow> string \<Rightarrow> unit res" where
  "validate_foundation_state files gateway =
     (case map_of FOUNDATION_FILES gateway of
        None \<Rightarrow> Inl KeyError
      | Some path \<Rightarrow>
          if \<not> is_file files path then Inl (ValueError (lit ''foundation state is missing: '' @ lit path))
          else rbind (parse_foundation files path) (check_foundation gateway))"

section \<open>What is accepted\<close>

text \<open>
  The abstract contract: an entity with exactly the expected fields, the fixed identifier, a
  certificate taken from the named environment variable, a private key given by a vault reference,
  and the ownership tags.
\<close>

definition certificate_entity :: "string \<Rightarrow> string \<Rightarrow> string \<Rightarrow> pyval \<Rightarrow> bool" where
  "certificate_entity i cert_env key_ref v \<longleftrightarrow>
     (\<exists>d. v = PDict d \<and> keys_are d [''id'', ''cert'', ''key'', ''tags''] \<and> dget d ''id'' = S i
        \<and> dget d ''cert'' = foundation_template cert_env \<and> dget d ''key'' = S key_ref
        \<and> dget d ''tags'' = FOUNDATION_TAGS)"

definition ca_entity :: "string \<Rightarrow> string \<Rightarrow> pyval \<Rightarrow> bool" where
  "ca_entity i cert_env v \<longleftrightarrow>
     (\<exists>d. v = PDict d \<and> keys_are d [''id'', ''cert'', ''tags''] \<and> dget d ''id'' = S i
        \<and> dget d ''cert'' = foundation_template cert_env \<and> dget d ''tags'' = FOUNDATION_TAGS)"

definition in_some_order :: "('a \<Rightarrow> bool) \<Rightarrow> ('a \<Rightarrow> bool) \<Rightarrow> 'a list \<Rightarrow> bool" where
  "in_some_order P Q xs \<longleftrightarrow> (\<exists>a b. (xs = [a, b] \<or> xs = [b, a]) \<and> P a \<and> Q b)"

definition foundation_header :: "pydict \<Rightarrow> bool" where
  "foundation_header d \<longleftrightarrow>
     dget d ''_format_version'' = S ''3.0''
     \<and> py_eq (dget d ''_info'') (obj [(''select_tags'', FOUNDATION_TAGS)])"

definition api_foundation :: "pydict \<Rightarrow> bool" where
  "api_foundation d \<longleftrightarrow>
     keys_within d [''_format_version'', ''_info'', ''certificates''] \<and> foundation_header d
     \<and> (\<exists>rows. dget d ''certificates'' = PList rows
         \<and> in_some_order
             (certificate_entity ''44444444-4444-4444-8444-444444444444'' ''DECK_API_INTROSPECTION_CERT_YAML''
                ''{vault://env/API_INTROSPECTION_KEY}'')
             (certificate_entity ''55555555-5555-4555-8555-555555555555'' ''DECK_API_UPSTREAM_CERT_YAML''
                ''{vault://env/API_UPSTREAM_KEY}'') rows)"

definition third_party_foundation :: "pydict \<Rightarrow> bool" where
  "third_party_foundation d \<longleftrightarrow>
     keys_within d FOUNDATION_KEYS \<and> foundation_header d
     \<and> (\<exists>rows. dget d ''certificates'' = PList rows
         \<and> in_some_order
             (certificate_entity ''11111111-1111-4111-8111-111111111111'' ''DECK_ROUTE_A_TLS_CERT_YAML''
                ''{vault://env/ROUTE_A_TLS_KEY}'')
             (certificate_entity ''22222222-2222-4222-8222-222222222222'' ''DECK_ROUTE_B_TLS_CERT_YAML''
                ''{vault://env/ROUTE_B_TLS_KEY}'') rows)
     \<and> (\<exists>ca. dget d ''ca_certificates'' = PList [ca]
         \<and> ca_entity ''33333333-3333-4333-8333-333333333333'' ''DECK_FAPI_CA_CERT_YAML'' ca)
     \<and> (\<exists>p. dget d ''plugins'' = PList [PDict p] \<and> keys_are p TRANSPORT_FIELDS
         \<and> plugin_is_transport p \<and> dget p ''tags'' = FOUNDATION_TAGS)"

lemma textual_strs [simp]: "textual (strs xs)"
  by (simp add: strs_def list_all_iff)

lemma py_eq_strs [simp]: "py_eq v (strs xs) \<longleftrightarrow> v = strs xs"
  by (rule py_eq_textual) simp

lemma py_eq_foundation_tags [simp]: "py_eq v FOUNDATION_TAGS \<longleftrightarrow> v = FOUNDATION_TAGS"
  by (simp add: FOUNDATION_TAGS_def)

lemma require_tags_iff [simp]:
  "require_tags v = Inr u \<longleftrightarrow> (\<exists>d. v = PDict d \<and> dget d ''tags'' = FOUNDATION_TAGS)"
  by (cases v) (auto simp: require_tags_def raise_if_eq_Inr_iff)

lemma foldr_unit_iff: "foldr_res f () xs = Inr u \<longleftrightarrow> list_all (\<lambda>x. f () x = Inr ()) xs"
  by (induction xs) (auto simp: rbind_eq_Inr_iff)

lemma py_eq_template [simp]: "py_eq v (foundation_template n) \<longleftrightarrow> v = foundation_template n"
  by (simp add: foundation_template_def)

text \<open>A certificate row that passes is the entity of its identifier.\<close>

lemma check_entity_certificate:
  assumes "expected_cert_refs gateway = [(i, ei, ki), (j, ej, kj)]" "i \<noteq> j"
  shows "check_entity gateway ''certificates'' () v = Inr () \<and> dget (the_dict v) ''id'' \<in> {S i, S j} \<longleftrightarrow>
    certificate_entity i ei ki v \<or> certificate_entity j ej kj v"
  using assms
  by (cases v) (auto simp: check_entity_def certificate_entity_def entity_fields_def rbind_eq_Inr_iff
      raise_if_eq_Inr_iff split: option.splits if_splits)

lemma two_in_some_order:
  assumes "set xs = {a, b}" "length xs = 2"
  shows "xs = [a, b] \<or> xs = [b, a]"
proof -
  obtain x y where "xs = [x, y]" using assms(2) by (auto simp: numeral_2_eq_2 length_Suc_conv)
  then show ?thesis using assms(1) by (auto simp: doubleton_eq_iff)
qed

lemma certificate_entity_id: "certificate_entity i e k v \<Longrightarrow> is_dict v \<and> dget (the_dict v) ''id'' = S i"
  by (auto simp: certificate_entity_def)

lemma check_certificates_iff:
  assumes "expected_cert_refs gateway = [(i, ei, ki), (j, ej, kj)]" "i \<noteq> j"
    and "expected_ids gateway ''certificates'' = [i, j]"
  shows "check_collection gateway ''certificates'' v = Inr u \<longleftrightarrow>
    (\<exists>rows. v = PList rows \<and> in_some_order (certificate_entity i ei ki) (certificate_entity j ej kj) rows)"
    (is "?check \<longleftrightarrow> ?spec")
proof
  assume c: ?check
  then obtain rows where v: "v = PList rows" by (cases v) (auto simp: check_collection_def)
  let ?ids = "map (\<lambda>row. dget (the_dict row) ''id'') rows"
  have ids: "set ?ids = {S i, S j}" "length ?ids = 2"
    and entities: "foldr_res (check_entity gateway ''certificates'') () rows = Inr u"
    using c v assms(3) by (auto simp: check_collection_def Let_def split: if_splits)
  from two_in_some_order [OF ids] obtain a b where ab: "rows = [a, b] \<or> rows = [b, a]"
    "dget (the_dict a) ''id'' = S i" "dget (the_dict b) ''id'' = S j"
    by (auto simp: map_eq_Cons_conv)
  have ok: "check_entity gateway ''certificates'' () x = Inr ()" if "x \<in> set rows" for x
    using entities that by (auto simp: foldr_unit_iff list_all_iff)
  have "check_entity gateway ''certificates'' () a = Inr ()" "check_entity gateway ''certificates'' () b = Inr ()"
    using ok ab(1) by auto
  then have "certificate_entity i ei ki a" "certificate_entity j ej kj b"
    using check_entity_certificate [OF assms(1,2), of a] check_entity_certificate [OF assms(1,2), of b] ab(2,3)
      assms(2) certificate_entity_id [of j ej kj a] certificate_entity_id [of i ei ki b] by auto
  then show ?spec using v ab(1) by (auto simp: in_some_order_def)
next
  assume ?spec
  then obtain a b where v: "v = PList [a, b] \<or> v = PList [b, a]"
    and ab: "certificate_entity i ei ki a" "certificate_entity j ej kj b"
    by (auto simp: in_some_order_def)
  have "check_entity gateway ''certificates'' () a = Inr ()" "check_entity gateway ''certificates'' () b = Inr ()"
    using check_entity_certificate [OF assms(1,2), of a] check_entity_certificate [OF assms(1,2), of b] ab by auto
  then show ?check
    using v certificate_entity_id [OF ab(1)] certificate_entity_id [OF ab(2)] assms(3)
    by (auto simp: check_collection_def Let_def insert_commute)
qed

lemma keys_within_dget: "keys_within d ks \<Longrightarrow> k \<notin> set ks \<Longrightarrow> dget d k = PNone"
  by (auto simp: keys_within_def dget_def split: option.splits dest!: map_of_SomeD)

lemma keys_within_drop:
  assumes "keys_within d ks" "\<not> dhas d k"
  shows "keys_within d (removeAll k ks)"
  unfolding keys_within_def
proof
  fix x
  assume x: "x \<in> set (map fst d)"
  then obtain j where j: "x = K j" "j \<in> set ks" using assms(1) by (auto simp: keys_within_def)
  have "dhas d j" using x j(1) by (auto simp: dhas_def map_of_eq_None_iff)
  then have "j \<noteq> k" using assms(2) by blast
  then show "x \<in> set (map K (removeAll k ks))" using j by simp
qed

lemma keys_within_not_has: "keys_within d ks \<Longrightarrow> k \<notin> set ks \<Longrightarrow> \<not> dhas d k"
  by (auto simp: keys_within_def dhas_def map_of_eq_None_iff)

lemma keys_within_mono: "keys_within d ks \<Longrightarrow> set ks \<subseteq> set ls \<Longrightarrow> keys_within d ls"
  by (auto simp: keys_within_def)

lemma check_ca_api: "check_collection ''api'' ''ca_certificates'' (PList []) = Inr ()"
  by (simp add: check_collection_def expected_ids_def)

lemma check_ca_iff:
  "check_collection ''third-party'' ''ca_certificates'' v = Inr u \<longleftrightarrow>
   (\<exists>ca. v = PList [ca] \<and> ca_entity ''33333333-3333-4333-8333-333333333333'' ''DECK_FAPI_CA_CERT_YAML'' ca)"
proof (cases v)
  case (PList rows)
  have ids: "expected_ids ''third-party'' ''ca_certificates'' = [''33333333-3333-4333-8333-333333333333'']"
    by (simp add: expected_ids_def)
  show ?thesis
  proof (cases rows)
    case Nil
    then show ?thesis using PList by (simp add: check_collection_def ids)
  next
    case (Cons ca rest)
    show ?thesis
    proof (cases "rest = []")
      case True
      then show ?thesis
        using PList Cons
        by (cases ca) (auto simp: check_collection_def ids check_entity_def entity_fields_def ca_entity_def
            expected_ca_ref_def rbind_eq_Inr_iff raise_if_eq_Inr_iff Let_def)
    next
      case False
      then show ?thesis using PList Cons by (simp add: check_collection_def ids Let_def)
    qed
  qed
qed (auto simp: check_collection_def)

lemma check_transport_iff:
  "check_transport v = Inr u \<longleftrightarrow>
   (\<exists>p. v = PDict p \<and> keys_are p TRANSPORT_FIELDS \<and> plugin_is_transport p \<and> dget p ''tags'' = FOUNDATION_TAGS)"
  by (cases v) (auto simp: check_transport_def keys_are_def rbind_eq_Inr_iff)

lemma header_iff:
  "foundation_header d \<longleftrightarrow> py_eq (dget d ''_format_version'') (S ''3.0'')
     \<and> py_eq (dget d ''_info'') (obj [(''select_tags'', FOUNDATION_TAGS)])"
  by (simp add: foundation_header_def)

lemma check_api_iff: "check_foundation ''api'' d = Inr u \<longleftrightarrow> api_foundation d"
proof -
  have certs: "check_collection ''api'' ''certificates'' v = Inr u \<longleftrightarrow> (\<exists>rows. v = PList rows
      \<and> in_some_order
          (certificate_entity ''44444444-4444-4444-8444-444444444444'' ''DECK_API_INTROSPECTION_CERT_YAML''
             ''{vault://env/API_INTROSPECTION_KEY}'')
          (certificate_entity ''55555555-5555-4555-8555-555555555555'' ''DECK_API_UPSTREAM_CERT_YAML''
             ''{vault://env/API_UPSTREAM_KEY}'') rows)" for v u
    by (rule check_certificates_iff) (simp_all add: expected_cert_refs_def expected_ids_def)
  have keys: "keys_within d FOUNDATION_KEYS \<and> \<not> dhas d ''ca_certificates'' \<and> \<not> dhas d ''plugins''
      \<longleftrightarrow> keys_within d [''_format_version'', ''_info'', ''certificates'']" (is "?l \<longleftrightarrow> ?r")
  proof
    assume ?l
    then have "keys_within d (removeAll ''plugins'' (removeAll ''ca_certificates'' FOUNDATION_KEYS))"
      by (intro keys_within_drop) simp_all
    then show ?r by (simp add: FOUNDATION_KEYS_def)
  next
    assume r: ?r
    show ?l
      using keys_within_mono [OF r, of FOUNDATION_KEYS] keys_within_not_has [OF r, of "''plugins''"]
        keys_within_not_has [OF r, of "''ca_certificates''"]
      by (simp add: FOUNDATION_KEYS_def)
  qed
  have none: "dget d ''services'' = PNone \<and> dget d ''routes'' = PNone" if "keys_within d FOUNDATION_KEYS"
    using keys_within_dget [OF that] by (simp add: FOUNDATION_KEYS_def)
  have "check_foundation ''api'' d = Inr u \<longleftrightarrow>
      (keys_within d FOUNDATION_KEYS \<and> \<not> dhas d ''ca_certificates'' \<and> \<not> dhas d ''plugins'')
      \<and> foundation_header d \<and> check_collection ''api'' ''certificates'' (dget d ''certificates'') = Inr ()"
    using none
    by (auto simp: check_foundation_def header_iff rbind_eq_Inr_iff raise_if_eq_Inr_iff check_ca_api)
  then show ?thesis unfolding keys api_foundation_def certs by blast
qed

lemma check_third_party_iff: "check_foundation ''third-party'' d = Inr u \<longleftrightarrow> third_party_foundation d"
proof -
  have certs: "check_collection ''third-party'' ''certificates'' v = Inr u \<longleftrightarrow> (\<exists>rows. v = PList rows
      \<and> in_some_order
          (certificate_entity ''11111111-1111-4111-8111-111111111111'' ''DECK_ROUTE_A_TLS_CERT_YAML''
             ''{vault://env/ROUTE_A_TLS_KEY}'')
          (certificate_entity ''22222222-2222-4222-8222-222222222222'' ''DECK_ROUTE_B_TLS_CERT_YAML''
             ''{vault://env/ROUTE_B_TLS_KEY}'') rows)" for v u
    by (rule check_certificates_iff) (simp_all add: expected_cert_refs_def expected_ids_def)
  have none: "dget d ''services'' = PNone \<and> dget d ''routes'' = PNone" if "keys_within d FOUNDATION_KEYS"
    using keys_within_dget [OF that] by (simp add: FOUNDATION_KEYS_def)
  have plugin: "(case dget d ''plugins'' of PList [plugin] \<Rightarrow> check_transport plugin
      | _ \<Rightarrow> raiseV ''third-party foundation must contain exactly one global transport entity'') = Inr u
      \<longleftrightarrow> (\<exists>p. dget d ''plugins'' = PList [PDict p] \<and> keys_are p TRANSPORT_FIELDS
             \<and> plugin_is_transport p \<and> dget p ''tags'' = FOUNDATION_TAGS)"
    by (cases "dget d ''plugins''") (auto simp: check_transport_iff split: list.splits)
  have "check_foundation ''third-party'' d = Inr u \<longleftrightarrow>
      keys_within d FOUNDATION_KEYS \<and> foundation_header d
      \<and> check_collection ''third-party'' ''certificates'' (dget d ''certificates'') = Inr ()
      \<and> check_collection ''third-party'' ''ca_certificates'' (dget d ''ca_certificates'') = Inr ()
      \<and> (\<exists>p. dget d ''plugins'' = PList [PDict p] \<and> keys_are p TRANSPORT_FIELDS
             \<and> plugin_is_transport p \<and> dget p ''tags'' = FOUNDATION_TAGS)"
    unfolding plugin [symmetric] using none
    by (auto simp add: check_foundation_def header_iff rbind_eq_Inr_iff)
  then show ?thesis unfolding third_party_foundation_def certs check_ca_iff by blast
qed

text \<open>
  The foundation state of the API gateway is accepted exactly when the file exists, parses, and
  holds the format header and the two fixed certificate entities in either order: certificates
  from the environment, private keys by vault reference only, ownership tags unchanged, and neither
  a CA certificate nor a plugin, service or route.
\<close>

theorem api_foundation_accepted_iff:
  "validate_foundation_state files ''api'' = Inr () \<longleftrightarrow>
   is_file files ''kong/foundation/api.yaml''
   \<and> (\<exists>d. parse_foundation files ''kong/foundation/api.yaml'' = Inr d \<and> api_foundation d)"
  by (simp add: validate_foundation_state_def FOUNDATION_FILES_def rbind_eq_Inr_iff check_api_iff)

text \<open>
  C16: The foundation state of the third-party gateway is accepted exactly when the file exists,
  parses, and holds the format header, the two fixed route certificates in either order, the one
  CA certificate and the one global transport plugin with its fixed configuration.
\<close>

theorem third_party_foundation_accepted_iff:
  "validate_foundation_state files ''third-party'' = Inr () \<longleftrightarrow>
   is_file files ''kong/foundation/third-party.yaml''
   \<and> (\<exists>d. parse_foundation files ''kong/foundation/third-party.yaml'' = Inr d \<and> third_party_foundation d)"
  by (simp add: validate_foundation_state_def FOUNDATION_FILES_def rbind_eq_Inr_iff check_third_party_iff)

end
