(* ===== verification/Keycloak_Plan.thy ===== *)
theory Keycloak_Plan
  imports Konnect_Api Foundation_State
begin

text \<open>
  The planning half of \<open>src/scripts/sync-keycloak-demo-data.py\<close>: from the desired realm document and
  what the Keycloak admin API returned, which clients, protocol mappers, realm settings and signing
  key provider to create or update. The functions are pure; sending the plan is in
  \<open>Keycloak_Sync\<close>.
\<close>

section \<open>Managed fields\<close>

definition CLIENT_IDS :: "string list" where
  "CLIENT_IDS = [''third-party-fapi-mtls'', ''third-party-fapi-pkj-mtls'', ''api-gateway-introspection'']"

definition CLIENT_ADMIN_FIELDS :: "string list" where
  "CLIENT_ADMIN_FIELDS =
     [''clientId'', ''name'', ''enabled'', ''protocol'', ''publicClient'', ''consentRequired'', ''fullScopeAllowed'',
      ''clientAuthenticatorType'', ''standardFlowEnabled'', ''implicitFlowEnabled'', ''directAccessGrantsEnabled'',
      ''serviceAccountsEnabled'', ''redirectUris'', ''webOrigins'', ''attributes'']"

definition MAPPER_ADMIN_FIELDS :: "string list" where
  "MAPPER_ADMIN_FIELDS = [''name'', ''protocol'', ''protocolMapper'', ''config'']"

definition REALM_ADMIN_FIELDS :: "string list" where
  "REALM_ADMIN_FIELDS =
     [''realm'', ''enabled'', ''sslRequired'', ''defaultSignatureAlgorithm'', ''accessCodeLifespan'',
      ''revokeRefreshToken'', ''refreshTokenMaxReuse'', ''clientPolicies'', ''clientProfiles'']"

definition KEY_PROVIDER_TYPE :: string where "KEY_PROVIDER_TYPE = ''org.keycloak.keys.KeyProvider''"
definition MANAGED_KEY_PROVIDER_NAME :: string where "MANAGED_KEY_PROVIDER_NAME = ''fapi-demo-ps256-rsa-generated''"
definition MANAGED_KEY_PROVIDER_ID :: string where "MANAGED_KEY_PROVIDER_ID = ''rsa-generated''"

definition MANAGED_KEY_PROVIDER_CONFIG :: pyval where
  "MANAGED_KEY_PROVIDER_CONFIG = obj
     [(''priority'', strs [''101'']), (''enabled'', strs [''true'']), (''active'', strs [''true'']),
      (''keySize'', strs [''3072'']), (''algorithm'', strs [''PS256''])]"

text \<open>\<open>d.get(k)\<close> on any key.\<close>

definition lookup_or_none :: "pydict \<Rightarrow> pykey \<Rightarrow> pyval" where
  "lookup_or_none d k = (case map_of d k of None \<Rightarrow> PNone | Some w \<Rightarrow> w)"

text \<open>\<open>{field: d[field] for field in fields}\<close>, where every field is present or \<open>get\<close> is used.\<close>

definition project :: "pydict \<Rightarrow> string list \<Rightarrow> pydict" where
  "project d fs = map (\<lambda>f. (K f, dget d f)) fs"

text \<open>\<open>d.get(k, default)\<close>.\<close>

definition dget_or :: "pydict \<Rightarrow> string \<Rightarrow> pyval \<Rightarrow> pyval" where
  "dget_or d k v = (case map_of d (K k) of None \<Rightarrow> v | Some w \<Rightarrow> w)"

abbreviation raiseRF :: "string \<Rightarrow> pystr \<Rightarrow> 'a res" where
  "raiseRF msg name \<equiv> Inl (RuntimeError (lit msg @ name))"

section \<open>Clients and protocol mappers\<close>

definition mapper_names :: "pyval list \<Rightarrow> pyval list" where
  "mapper_names mappers = map (\<lambda>m. dget (the_dict m) ''name'') (filter is_dict mappers)"

definition client_admin_payload :: "pyval \<Rightarrow> pydict res" where
  "client_admin_payload desired =
     (if \<not> is_dict desired then raiseR ''desired Keycloak client is malformed''
      else let d = the_dict desired in
        if \<not> keys_within d (CLIENT_ADMIN_FIELDS @ [''protocolMappers'']) \<or> \<not> list_all (dhas d) CLIENT_ADMIN_FIELDS
        then raiseR ''desired Keycloak client fields are incomplete or unexpected''
        else if \<not> nonempty_str (dget d ''clientId'') then raiseR ''desired Keycloak client ID is empty''
        else if \<not> is_dict (dget d ''attributes'') then raiseR ''desired Keycloak client attributes are malformed''
        else if list_ex (\<lambda>f. \<not> is_list (dget d f)) [''redirectUris'', ''webOrigins'']
        then raiseR ''desired Keycloak client URI lists are malformed''
        else rbind (ditem d ''protocolMappers'') (\<lambda>mappers.
          if \<not> is_list mappers then raiseR ''desired Keycloak protocol mappers are malformed''
          else let ns = mapper_names (the_list mappers) in
            if length ns \<noteq> length (the_list mappers) \<or> list_ex (\<lambda>n. \<not> nonempty_str n) ns \<or> \<not> distinct ns
            then raiseR ''desired Keycloak protocol mapper names are duplicated or malformed''
            else Inr (project d CLIENT_ADMIN_FIELDS)))"

definition str_items :: "pydict \<Rightarrow> bool" where
  "str_items d \<longleftrightarrow> list_all (\<lambda>(k, v). (case k of KStr _ \<Rightarrow> is_str v | _ \<Rightarrow> False)) d"

definition mapper_admin_payload :: "pyval \<Rightarrow> pydict res" where
  "mapper_admin_payload desired =
     (if \<not> (is_dict desired \<and> keys_are (the_dict desired) MAPPER_ADMIN_FIELDS)
      then raiseR ''desired Keycloak protocol mapper fields are incomplete or unexpected''
      else let d = the_dict desired in
        if \<not> list_all (\<lambda>f. nonempty_str (dget d f)) [''name'', ''protocol'', ''protocolMapper'']
        then raiseR ''desired Keycloak protocol mapper identity is malformed''
        else if \<not> (is_dict (dget d ''config'') \<and> str_items (the_dict (dget d ''config'')))
        then raiseR ''desired Keycloak protocol mapper config is malformed''
        else Inr (project d MAPPER_ADMIN_FIELDS))"

datatype mapper_action = Mapper_Create pydict | Mapper_Update pystr pydict

definition index_mapper :: "(pystr \<times> pydict) list \<Rightarrow> pyval \<Rightarrow> (pystr \<times> pydict) list res" where
  "index_mapper by_name m =
     (if \<not> is_dict m \<or> \<not> is_str (dget (the_dict m) ''name'')
      then raiseR ''Keycloak protocol mapper list is malformed''
      else let name = the_str (dget (the_dict m) ''name'') in
        if map_of by_name name \<noteq> None then raiseR ''duplicate Keycloak protocol mapper names found''
        else Inr (by_name @ [(name, the_dict m)]))"

definition plan_mapper :: "(pystr \<times> pydict) list \<Rightarrow> pydict \<Rightarrow> mapper_action list res" where
  "plan_mapper by_name desired =
     (let name = the_str (dget desired ''name'') in
      case map_of by_name name of
        None \<Rightarrow> Inr [Mapper_Create desired]
      | Some current \<Rightarrow>
          if \<not> nonempty_str (dget current ''id'') then raiseRF ''Keycloak protocol mapper ID is missing for '' name
          else if py_eq (PDict (project current MAPPER_ADMIN_FIELDS)) (PDict desired) then Inr []
          else Inr [Mapper_Update (the_str (dget current ''id'')) desired])"

definition plan_mapper_sync :: "pyval list \<Rightarrow> pyval \<Rightarrow> mapper_action list res" where
  "plan_mapper_sync desired_mappers live_mappers =
     rbind (mapr mapper_admin_payload desired_mappers) (\<lambda>payloads.
     if \<not> distinct (map (\<lambda>p. dget p ''name'') payloads)
     then raiseR ''desired Keycloak protocol mapper names are duplicated''
     else if \<not> is_list live_mappers then raiseR ''Keycloak protocol mapper list is malformed''
     else rbind (foldr_res index_mapper [] (the_list live_mappers)) (\<lambda>by_name.
       rbind (mapr (plan_mapper by_name) payloads) (\<lambda>actions. Inr (concat actions))))"

datatype operation = Create | Update | Noop

record client_action =
  ca_operation :: operation
  ca_client_id :: pystr
  ca_client_uuid :: pystr
  ca_payload :: pydict
  ca_current :: pydict
  ca_mapper_plan :: "mapper_action list"

definition attributes_covered :: "pyval \<Rightarrow> pydict \<Rightarrow> bool" where
  "attributes_covered current desired \<longleftrightarrow>
     is_dict current \<and> list_all (\<lambda>(k, v). py_eq (lookup_or_none (the_dict current) k) v) desired"

text \<open>The fields of the live client that are compared; covered attributes count as the desired ones.\<close>

definition comparable :: "pydict \<Rightarrow> pydict \<Rightarrow> pydict" where
  "comparable current payload =
     (let live = project current CLIENT_ADMIN_FIELDS; attributes = dget payload ''attributes'' in
      if attributes_covered (dget live ''attributes'') (the_dict attributes)
      then dset (K ''attributes'') attributes live else live)"

definition plan_client :: "(pystr \<Rightarrow> pyval) \<Rightarrow> pyval \<Rightarrow> client_action res" where
  "plan_client matches_by_client_id desired =
     rbind (client_admin_payload desired) (\<lambda>payload.
     let client_id = the_str (dget payload ''clientId''); matches = matches_by_client_id client_id in
     if \<not> is_list matches then raiseRF ''Keycloak client lookup is malformed for '' client_id
     else if length (the_list matches) > 1 then raiseRF ''duplicate Keycloak clients found for '' client_id
     else if the_list matches = []
     then Inr \<lparr>ca_operation = Create, ca_client_id = client_id, ca_client_uuid = [], ca_payload = payload,
               ca_current = [], ca_mapper_plan = []\<rparr>
     else let current = hd (the_list matches) in
       if \<not> is_dict current \<or> \<not> py_eq (dget (the_dict current) ''clientId'') (PStr client_id)
       then raiseRF ''Keycloak client lookup is inconsistent for '' client_id
       else if \<not> nonempty_str (dget (the_dict current) ''id'')
       then raiseRF ''Keycloak client ID is missing for '' client_id
       else Inr \<lparr>ca_operation = (if py_eq (PDict (comparable (the_dict current) payload)) (PDict payload) then Noop else Update),
                 ca_client_id = client_id, ca_client_uuid = the_str (dget (the_dict current) ''id''),
                 ca_payload = payload, ca_current = the_dict current, ca_mapper_plan = []\<rparr>)"

definition plan_client_sync :: "pyval \<Rightarrow> (pystr \<Rightarrow> pyval) \<Rightarrow> client_action list res" where
  "plan_client_sync desired_clients matches_by_client_id =
     (if \<not> is_list desired_clients then raiseR ''desired Keycloak client list is malformed''
      else let clients = the_list desired_clients;
               ids = map (\<lambda>c. dget (the_dict c) ''clientId'') (filter is_dict clients) in
        if length ids \<noteq> length clients \<or> list_ex (\<lambda>i. \<not> is_str i) ids
           \<or> set ids \<noteq> set (map S CLIENT_IDS) \<or> length ids \<noteq> length CLIENT_IDS
        then raiseR ''desired Keycloak client inventory does not match WP2''
        else mapr (plan_client matches_by_client_id) clients)"

text \<open>The body of a client update: the managed fields, with the live attributes of other names kept.\<close>

definition update_body :: "client_action \<Rightarrow> pydict" where
  "update_body a =
     (let body = dmerge [(K ''id'', PStr (ca_client_uuid a))] (ca_payload a) in
      case dget (ca_current a) ''attributes'' of
        PDict attributes \<Rightarrow>
          dset (K ''attributes'') (PDict (dmerge attributes (the_dict (dget (ca_payload a) ''attributes'')))) body
      | _ \<Rightarrow> body)"

section \<open>Realm settings\<close>

definition index_entry :: "string \<Rightarrow> (pystr \<times> nat) list \<Rightarrow> nat \<times> pyval \<Rightarrow> (pystr \<times> nat) list res" where
  "index_entry label positions item =
     (case item of (index, entry) \<Rightarrow>
      if \<not> is_dict entry \<or> \<not> is_str (dget (the_dict entry) ''name'')
      then raiseR (''Keycloak '' @ label @ '' entry is malformed'')
      else let name = the_str (dget (the_dict entry) ''name'') in
        if map_of positions name \<noteq> None then raiseR (''duplicate Keycloak '' @ label @ '' names found'')
        else Inr (positions @ [(name, index)]))"

record merge_state =
  mg_merged :: "pyval list"
  mg_positions :: "(pystr \<times> nat) list"
  mg_desired :: "pystr list"

definition merge_entry :: "string \<Rightarrow> merge_state \<Rightarrow> pyval \<Rightarrow> merge_state res" where
  "merge_entry label st entry =
     (if \<not> is_dict entry \<or> \<not> is_str (dget (the_dict entry) ''name'')
      then raiseR (''desired Keycloak '' @ label @ '' entry is malformed'')
      else let name = the_str (dget (the_dict entry) ''name'') in
        if name \<in> set (mg_desired st) then raiseR (''duplicate desired Keycloak '' @ label @ '' names found'')
        else let st' = st\<lparr>mg_desired := name # mg_desired st\<rparr> in
          case map_of (mg_positions st) name of
            None \<Rightarrow> Inr (st'\<lparr>mg_positions := mg_positions st @ [(name, length (mg_merged st))],
                            mg_merged := mg_merged st @ [entry]\<rparr>)
          | Some i \<Rightarrow> Inr (st'\<lparr>mg_merged :=
                (mg_merged st)[i := PDict (dmerge (the_dict (mg_merged st ! i)) (the_dict entry))]\<rparr>))"

definition merge_named_entries :: "pyval \<Rightarrow> pyval \<Rightarrow> string \<Rightarrow> pyval list res" where
  "merge_named_entries current desired label =
     (if \<not> is_list current \<or> \<not> is_list desired then raiseR (''Keycloak '' @ label @ '' list is malformed'')
      else rbind (foldr_res (index_entry label) [] (zip [0..<length (the_list current)] (the_list current))) (\<lambda>positions.
        rbind (foldr_res (merge_entry label)
                \<lparr>mg_merged = the_list current, mg_positions = positions, mg_desired = []\<rparr> (the_list desired)) (\<lambda>st.
        Inr (mg_merged st))))"

definition merge_group :: "pydict \<Rightarrow> pydict \<Rightarrow> string \<times> string \<times> string \<Rightarrow> pyval res" where
  "merge_group current desired g =
     (case g of (field, collection, label) \<Rightarrow>
      let live_group = dget_or current field (PDict []); desired_group = dget desired field in
      if \<not> is_dict live_group \<or> \<not> is_dict desired_group
      then raiseR (''Keycloak '' @ label @ '' configuration is malformed'')
      else rbind (merge_named_entries (dget_or (the_dict live_group) collection (PList []))
                    (dget_or (the_dict desired_group) collection (PList [])) label) (\<lambda>merged.
        Inr (PDict (dset (K collection) (PList merged) (the_dict live_group)))))"

definition realm_group :: "pydict \<Rightarrow> pydict \<Rightarrow> pydict \<Rightarrow> string \<times> string \<times> string \<Rightarrow> pydict res" where
  "realm_group current desired payload g =
     rbind (merge_group current desired g) (\<lambda>group. Inr (dset (K (fst g)) group payload))"

definition REALM_GROUPS :: "(string \<times> string \<times> string) list" where
  "REALM_GROUPS =
     [(''clientPolicies'', ''policies'', ''client policy''), (''clientProfiles'', ''profiles'', ''client profile'')]"

definition BASE_FIELDS :: "string list" where
  "BASE_FIELDS = filter (\<lambda>f. f \<notin> {''clientPolicies'', ''clientProfiles''}) REALM_ADMIN_FIELDS"

text \<open>The entries of the payload that differ from the live realm.\<close>

definition differing :: "pydict \<Rightarrow> pydict \<Rightarrow> pydict" where
  "differing c payload = filter (\<lambda>(k, v). \<not> py_eq (lookup_or_none c k) v) payload"

definition realm_admin_payload :: "pyval \<Rightarrow> pyval \<Rightarrow> pydict res" where
  "realm_admin_payload current desired =
     (if \<not> is_dict current \<or> \<not> is_dict desired then raiseR ''Keycloak realm representation is malformed''
      else if \<not> list_all (dhas (the_dict desired)) REALM_ADMIN_FIELDS
      then raiseR ''desired Keycloak realm fields are incomplete''
      else rbind (foldr_res (realm_group (the_dict current) (the_dict desired)) (project (the_dict desired) BASE_FIELDS) REALM_GROUPS)
        (\<lambda>payload. Inr (differing (the_dict current) payload)))"

section \<open>The managed signing key provider\<close>

definition key_provider_payload :: pydict where
  "key_provider_payload =
     [(K ''name'', S MANAGED_KEY_PROVIDER_NAME), (K ''providerId'', S MANAGED_KEY_PROVIDER_ID),
      (K ''providerType'', S KEY_PROVIDER_TYPE), (K ''config'', MANAGED_KEY_PROVIDER_CONFIG)]"

text \<open>Entries with the managed name; the first malformed entry raises.\<close>

definition named_matches :: "exn \<Rightarrow> pyval list \<Rightarrow> pydict list res" where
  "named_matches e vs =
     (if list_ex (\<lambda>v. \<not> is_dict v \<or> \<not> is_str (dget (the_dict v) ''name'')) vs then Inl e
      else Inr (map the_dict (filter (\<lambda>v. dget (the_dict v) ''name'' = S MANAGED_KEY_PROVIDER_NAME) vs)))"

definition key_provider_admin_payload :: "pyval \<Rightarrow> pydict res" where
  "key_provider_admin_payload desired_realm =
     (if \<not> (is_dict desired_realm \<and> is_dict (dget (the_dict desired_realm) ''components''))
      then raiseR ''desired Keycloak key provider configuration is malformed''
      else let providers = dget (the_dict (dget (the_dict desired_realm) ''components'')) KEY_PROVIDER_TYPE in
        if \<not> is_list providers then raiseR ''desired Keycloak key provider configuration is malformed''
        else rbind (named_matches (RuntimeError (lit ''desired Keycloak key provider entry is malformed'')) (the_list providers))
          (\<lambda>matching.
          case matching of
            [provider] \<Rightarrow>
              if \<not> keys_are provider [''name'', ''providerId'', ''config'']
              then raiseR ''desired Keycloak managed key provider fields are unexpected''
              else if \<not> py_eq (dget provider ''providerId'') (S MANAGED_KEY_PROVIDER_ID)
                      \<or> \<not> py_eq (dget provider ''config'') MANAGED_KEY_PROVIDER_CONFIG
              then raiseR ''desired Keycloak managed key provider config is invalid''
              else Inr key_provider_payload
          | _ \<Rightarrow> raiseR ''desired Keycloak managed key provider is missing or duplicated''))"

datatype provider_action = Provider_Create pydict | Provider_Noop pystr | Provider_Update pystr pydict

definition is_managed_payload :: "pydict \<Rightarrow> bool" where
  "is_managed_payload p \<longleftrightarrow>
     keys_are p [''name'', ''providerId'', ''providerType'', ''config'']
     \<and> py_eq (dget p ''name'') (S MANAGED_KEY_PROVIDER_NAME) \<and> py_eq (dget p ''providerId'') (S MANAGED_KEY_PROVIDER_ID)
     \<and> py_eq (dget p ''providerType'') (S KEY_PROVIDER_TYPE) \<and> py_eq (dget p ''config'') MANAGED_KEY_PROVIDER_CONFIG"

definition config_well_formed :: "pyval \<Rightarrow> bool" where
  "config_well_formed v \<longleftrightarrow>
     is_dict v
     \<and> list_all (\<lambda>(k, vs). (case k of KStr _ \<Rightarrow> is_list vs \<and> list_all is_str (the_list vs) | _ \<Rightarrow> False)) (the_dict v)"

definition plan_key_provider_sync :: "pydict \<Rightarrow> pyval \<Rightarrow> provider_action res" where
  "plan_key_provider_sync desired_payload live_components =
     (if \<not> is_managed_payload desired_payload then raiseR ''desired Keycloak managed key provider config is invalid''
      else if \<not> is_list live_components then raiseR ''Keycloak managed key provider lookup is malformed''
      else rbind (named_matches (RuntimeError (lit ''Keycloak managed key provider lookup is malformed'')) (the_list live_components))
        (\<lambda>matches.
        if length matches > 1 then raiseR ''duplicate Keycloak managed key provider names found''
        else if matches = [] then Inr (Provider_Create desired_payload)
        else let current = hd matches; config = dget current ''config'' in
          if \<not> nonempty_str (dget current ''id'') then raiseR ''Keycloak managed key provider ID is missing''
          else if \<not> py_eq (dget current ''providerId'') (S MANAGED_KEY_PROVIDER_ID)
                  \<or> \<not> py_eq (dget current ''providerType'') (S KEY_PROVIDER_TYPE)
          then raiseR ''Keycloak managed key provider name is occupied by another component''
          else if \<not> config_well_formed config then raiseR ''Keycloak managed key provider config is malformed''
          else if attributes_covered config (the_dict MANAGED_KEY_PROVIDER_CONFIG)
          then Inr (Provider_Noop (the_str (dget current ''id'')))
          else Inr (Provider_Update (the_str (dget current ''id'')) desired_payload)))"

section \<open>Merging dictionaries\<close>

lemma dset_same: "map_of d k = Some v \<Longrightarrow> dset k v d = d"
  unfolding dset_def by (induction d) (auto split: if_splits)

lemma dset_last: "k \<notin> fst ` set d \<Longrightarrow> dset k v (d @ [(k, w)]) = d @ [(k, v)]"
  unfolding dset_def by (induction d) auto

lemma dmerge_absorb: "(\<And>k v. (k, v) \<in> set b \<Longrightarrow> map_of a k = Some v) \<Longrightarrow> dmerge a b = a"
  unfolding dmerge_def by (induction b arbitrary: a) (auto simp: dset_same)

lemma dmerge_has: "distinct (map fst b) \<Longrightarrow> (k, v) \<in> set b \<Longrightarrow> map_of (dmerge a b) k = Some v"
  by (simp add: map_of_dmerge)

lemma dmerge_again: "distinct (map fst b) \<Longrightarrow> dmerge (dmerge a b) b = dmerge a b"
  by (rule dmerge_absorb) (rule dmerge_has)

lemma dmerge_self: "distinct (map fst b) \<Longrightarrow> dmerge b b = b"
  by (rule dmerge_absorb) simp

section \<open>Merging named entries\<close>

text \<open>
  The contract of the index-based loop: an entry with the name of a present one is merged into it in
  place, any other is appended.
\<close>

definition entry_name_of :: "pyval \<Rightarrow> pystr" where
  "entry_name_of v = the_str (dget (the_dict v) ''name'')"

definition named :: "pyval \<Rightarrow> bool" where
  "named v \<longleftrightarrow> is_dict v \<and> is_str (dget (the_dict v) ''name'') \<and> distinct (map fst (the_dict v))"

definition upsert :: "pyval \<Rightarrow> pyval list \<Rightarrow> pyval list" where
  "upsert e xs =
     (if entry_name_of e \<in> set (map entry_name_of xs)
      then map (\<lambda>v. if entry_name_of v = entry_name_of e then PDict (dmerge (the_dict v) (the_dict e)) else v) xs
      else xs @ [e])"

lemma dget_merge: "named e \<Longrightarrow> dget (dmerge d (the_dict e)) ''name'' = dget (the_dict e) ''name''"
  by (cases "map_of (the_dict e) (K ''name'')") (auto simp: named_def dget_def map_of_dmerge)

lemma entry_name_merge:
  assumes "named e" "entry_name_of v = entry_name_of e"
  shows "entry_name_of (PDict (dmerge (the_dict v) (the_dict e))) = entry_name_of e"
  using dget_merge [OF assms(1)] by (simp add: entry_name_of_def)

lemma named_merge:
  assumes "named v" "named e"
  shows "named (PDict (dmerge (the_dict v) (the_dict e)))"
  using assms dget_merge [OF assms(2)] by (simp add: named_def distinct_dmerge)

lemma upsert_names:
  assumes "named e"
  shows "map entry_name_of (upsert e xs) = map entry_name_of xs @ (if entry_name_of e \<in> set (map entry_name_of xs) then [] else [entry_name_of e])"
  using entry_name_merge [OF assms] by (auto simp: upsert_def)

lemma upsert_named: "named e \<Longrightarrow> list_all named xs \<Longrightarrow> list_all named (upsert e xs)"
  by (auto simp: upsert_def list_all_iff intro: named_merge)

lemma list_update_by_key:
  assumes "distinct (map f xs)" "i < length xs"
  shows "xs[i := y] = map (\<lambda>v. if f v = f (xs ! i) then y else v) xs"
proof (rule nth_equalityI)
  fix j assume "j < length (xs[i := y])"
  then show "xs[i := y] ! j = map (\<lambda>v. if f v = f (xs ! i) then y else v) xs ! j"
    using assms by (auto simp: nth_list_update distinct_conv_nth)
qed simp

definition positions_of :: "pyval list \<Rightarrow> (pystr \<times> nat) list" where
  "positions_of xs = zip (map entry_name_of xs) [0..<length xs]"

lemma positions_None: "map_of (positions_of xs) n = None \<longleftrightarrow> n \<notin> set (map entry_name_of xs)"
proof -
  have "map fst (positions_of xs) = map entry_name_of xs" by (simp add: positions_of_def)
  then show ?thesis by (metis map_of_eq_None_iff set_map)
qed

lemma positions_Some: "map_of (positions_of xs) n = Some i \<Longrightarrow> i < length xs \<and> entry_name_of (xs ! i) = n"
  by (auto dest!: map_of_SomeD simp: positions_of_def in_set_zip)

lemma positions_snoc: "positions_of xs @ [(entry_name_of e, length xs)] = positions_of (xs @ [e])"
  by (simp add: positions_of_def)

lemma positions_cong: "map entry_name_of xs = map entry_name_of ys \<Longrightarrow> positions_of xs = positions_of ys"
  by (metis length_map positions_of_def)

definition merging :: "merge_state \<Rightarrow> bool" where
  "merging st \<longleftrightarrow>
     list_all named (mg_merged st) \<and> distinct (map entry_name_of (mg_merged st))
     \<and> mg_positions st = positions_of (mg_merged st)"

lemma merge_entry_upsert:
  assumes "merging st" "named e" "entry_name_of e \<notin> set (mg_desired st)"
  shows "\<exists>st'. merge_entry label st e = Inr st' \<and> merging st'
    \<and> mg_merged st' = upsert e (mg_merged st) \<and> mg_desired st' = entry_name_of e # mg_desired st"
proof (cases "map_of (mg_positions st) (entry_name_of e)")
  case None
  then have new: "entry_name_of e \<notin> set (map entry_name_of (mg_merged st))"
    using assms(1) by (simp add: merging_def positions_None)
  then show ?thesis
    using assms None
    by (auto simp: merge_entry_def named_def Let_def merging_def upsert_def positions_snoc simp flip: entry_name_of_def)
next
  case (Some i)
  then have i: "i < length (mg_merged st)" "entry_name_of (mg_merged st ! i) = entry_name_of e"
    using assms(1) positions_Some by (auto simp: merging_def)
  then have mem: "entry_name_of e \<in> set (map entry_name_of (mg_merged st))" by (metis length_map nth_map nth_mem)
  let ?m = "PDict (dmerge (the_dict (mg_merged st ! i)) (the_dict e))"
  have same: "v = mg_merged st ! i" if "v \<in> set (mg_merged st)" "entry_name_of v = entry_name_of e" for v
    using that i assms(1) by (metis distinct_map inj_onD merging_def nth_mem)
  have upd: "(mg_merged st)[i := ?m] = upsert e (mg_merged st)"
    using assms(1) mem same by (auto simp: list_update_by_key [of entry_name_of] merging_def i upsert_def)
  have names: "map entry_name_of (upsert e (mg_merged st)) = map entry_name_of (mg_merged st)"
    using upsert_names [OF assms(2)] mem by simp
  have "merging (st\<lparr>mg_desired := entry_name_of e # mg_desired st, mg_merged := upsert e (mg_merged st)\<rparr>)"
    using assms(1,2) names upsert_named positions_cong [OF names] by (simp add: merging_def)
  then show ?thesis
    using assms Some upd by (auto simp: merge_entry_def named_def Let_def simp flip: entry_name_of_def)
qed

lemma merge_entries_fold:
  assumes "merging st" "list_all named es" "distinct (map entry_name_of es)"
    "set (map entry_name_of es) \<inter> set (mg_desired st) = {}"
  shows "\<exists>st'. foldr_res (merge_entry label) st es = Inr st' \<and> mg_merged st' = fold upsert es (mg_merged st)"
  using assms
proof (induction es arbitrary: st)
  case (Cons e es)
  obtain st1 where st1: "merge_entry label st e = Inr st1" "merging st1" "mg_merged st1 = upsert e (mg_merged st)"
    "mg_desired st1 = entry_name_of e # mg_desired st"
    using merge_entry_upsert [of st e label] Cons.prems by auto
  then show ?case using Cons.IH [of st1] Cons.prems by auto
qed simp

lemma index_entries:
  assumes "list_all named xs" "distinct (map entry_name_of (ps @ xs))"
  shows "foldr_res (index_entry label) (positions_of ps) (zip [length ps..<length ps + length xs] xs) = Inr (positions_of (ps @ xs))"
  using assms
proof (induction xs arbitrary: ps)
  case (Cons x xs)
  have range: "[length ps..<length ps + length (x # xs)] = length ps # [length (ps @ [x])..<length (ps @ [x]) + length xs]"
    by (subst upt_conv_Cons) simp_all
  have "map_of (positions_of ps) (entry_name_of x) = None" using Cons.prems by (simp add: positions_None)
  then have "index_entry label (positions_of ps) (length ps, x) = Inr (positions_of (ps @ [x]))"
    using Cons.prems by (simp add: index_entry_def named_def Let_def positions_snoc flip: entry_name_of_def)
  then show ?case unfolding range using Cons.IH [of "ps @ [x]"] Cons.prems by simp
qed simp

lemma merge_named_entries_eq:
  assumes "list_all named cur" "distinct (map entry_name_of cur)" "list_all named des" "distinct (map entry_name_of des)"
  shows "merge_named_entries (PList cur) (PList des) label = Inr (fold upsert des cur)"
proof -
  have index: "foldr_res (index_entry label) [] (zip [0..<length cur] cur) = Inr (positions_of cur)"
    using index_entries [of cur "[]" label] assms(1,2) by (simp add: positions_of_def)
  let ?st = "\<lparr>mg_merged = cur, mg_positions = positions_of cur, mg_desired = []\<rparr>"
  have "merging ?st" using assms(1,2) by (simp add: merging_def)
  then obtain st' where "foldr_res (merge_entry label) ?st des = Inr st'" "mg_merged st' = fold upsert des cur"
    using merge_entries_fold [of ?st des label] assms(3,4) by auto
  then show ?thesis using index by (simp add: merge_named_entries_def)
qed

text \<open>What the merge keeps, what it brings in, and that merging again changes nothing.\<close>

lemma upsert_keeps:
  assumes "named e" "entry_name_of e \<in> N"
  shows "filter (\<lambda>v. entry_name_of v \<notin> N) (upsert e xs) = filter (\<lambda>v. entry_name_of v \<notin> N) xs"
proof -
  let ?m = "\<lambda>v. if entry_name_of v = entry_name_of e then PDict (dmerge (the_dict v) (the_dict e)) else v"
  have "filter (\<lambda>v. entry_name_of v \<notin> N) (map ?m ys) = filter (\<lambda>v. entry_name_of v \<notin> N) ys" for ys
    using assms entry_name_merge [OF assms(1)] by (induction ys) auto
  then show ?thesis using assms(2) by (simp add: upsert_def)
qed

lemma merge_keeps:
  "list_all named es \<Longrightarrow> set (map entry_name_of es) \<subseteq> N \<Longrightarrow>
   filter (\<lambda>v. entry_name_of v \<notin> N) (fold upsert es xs) = filter (\<lambda>v. entry_name_of v \<notin> N) xs"
  by (induction es arbitrary: xs) (simp_all add: upsert_keeps)

definition settled :: "pyval \<Rightarrow> pyval list \<Rightarrow> bool" where
  "settled e xs \<longleftrightarrow> entry_name_of e \<in> set (map entry_name_of xs)
     \<and> list_all (\<lambda>v. entry_name_of v = entry_name_of e \<longrightarrow>
          is_dict v \<and> list_all (\<lambda>(k, w). map_of (the_dict v) k = Some w) (the_dict e)) xs"

lemma upsert_settles:
  assumes "named e"
  shows "settled e (upsert e xs)"
proof (cases "entry_name_of e \<in> set (map entry_name_of xs)")
  case True
  then have "entry_name_of e \<in> set (map entry_name_of (upsert e xs))" unfolding upsert_names [OF assms] by simp
  moreover have "is_dict v \<and> list_all (\<lambda>(k, w). map_of (the_dict v) k = Some w) (the_dict e)"
    if v: "v \<in> set (upsert e xs)" "entry_name_of v = entry_name_of e" for v
  proof -
    obtain u where "v = PDict (dmerge (the_dict u) (the_dict e))" using v True by (auto simp: upsert_def split: if_splits)
    moreover have "distinct (map fst (the_dict e))" using assms by (simp add: named_def)
    ultimately show ?thesis by (auto simp: list_all_iff dmerge_has)
  qed
  ultimately show ?thesis unfolding settled_def list_all_iff by blast
next
  case False
  then have "entry_name_of v \<noteq> entry_name_of e" if "v \<in> set xs" for v using that by (metis image_eqI list.set_map)
  then show ?thesis using assms False by (auto simp: settled_def upsert_def list_all_iff named_def)
qed

lemma upsert_other:
  assumes "named e'" "settled e xs" "entry_name_of e' \<noteq> entry_name_of e"
  shows "settled e (upsert e' xs)"
proof -
  have "set (map entry_name_of xs) \<subseteq> set (map entry_name_of (upsert e' xs))"
    unfolding upsert_names [OF assms(1)] by auto
  moreover have "v \<in> set xs" if "v \<in> set (upsert e' xs)" "entry_name_of v = entry_name_of e" for v
    using that assms(1,3) entry_name_merge [OF assms(1)] by (auto simp: upsert_def split: if_splits)
  ultimately show ?thesis using assms(2) unfolding settled_def list_all_iff by blast
qed

lemma merge_keeps_settled:
  "list_all named es \<Longrightarrow> settled e xs \<Longrightarrow> entry_name_of e \<notin> set (map entry_name_of es) \<Longrightarrow> settled e (fold upsert es xs)"
proof (induction es arbitrary: xs)
  case (Cons a es)
  then show ?case using Cons.IH [of "upsert a xs"] upsert_other [of a e xs] by auto
qed simp

lemma merge_settles:
  "list_all named es \<Longrightarrow> distinct (map entry_name_of es) \<Longrightarrow> e \<in> set es \<Longrightarrow> settled e (fold upsert es xs)"
proof (induction es arbitrary: xs)
  case (Cons a es)
  show ?case
  proof (cases "e = a")
    case True
    then show ?thesis using Cons.prems by (simp add: merge_keeps_settled upsert_settles)
  next
    case False
    then show ?thesis using Cons by simp
  qed
qed simp

lemma upsert_settled: "settled e xs \<Longrightarrow> upsert e xs = xs"
proof -
  assume settled: "settled e xs"
  have "PDict (dmerge (the_dict v) (the_dict e)) = v" if "v \<in> set xs" "entry_name_of v = entry_name_of e" for v
  proof -
    have "dmerge (the_dict v) (the_dict e) = the_dict v"
      by (rule dmerge_absorb) (use settled that in \<open>auto simp: settled_def list_all_iff\<close>)
    moreover have "PDict (the_dict v) = v" using settled that by (cases v) (auto simp: settled_def list_all_iff)
    ultimately show ?thesis by simp
  qed
  then show ?thesis using settled by (auto simp: upsert_def settled_def intro!: map_idI)
qed

lemma merge_idempotent:
  assumes "list_all named es" "distinct (map entry_name_of es)"
  shows "fold upsert es (fold upsert es xs) = fold upsert es xs"
proof -
  have "fold upsert fs m = m" if "\<And>e. e \<in> set fs \<Longrightarrow> settled e m" for fs m
    using that by (induction fs) (simp_all add: upsert_settled)
  then show ?thesis using merge_settles [OF assms] by blast
qed

lemma merge_names_distinct:
  "list_all named es \<Longrightarrow> distinct (map entry_name_of xs) \<Longrightarrow> distinct (map entry_name_of (fold upsert es xs))"
  by (induction es arbitrary: xs) (auto simp: upsert_names)

lemma merge_named: "list_all named es \<Longrightarrow> list_all named xs \<Longrightarrow> list_all named (fold upsert es xs)"
  by (induction es arbitrary: xs) (auto intro: upsert_named)

text \<open>A merge that succeeds had well-formed, uniquely named entries on both sides.\<close>

lemma index_entries_ok:
  "foldr_res (index_entry label) ps (zip ns xs) = Inr qs \<Longrightarrow> length ns = length xs \<Longrightarrow>
   list_all (\<lambda>v. is_dict v \<and> is_str (dget (the_dict v) ''name'')) xs \<and> distinct (map entry_name_of xs)
   \<and> set (map entry_name_of xs) \<inter> fst ` set ps = {}"
proof (induction xs arbitrary: ns ps)
  case (Cons x xs)
  then obtain n ns' where ns: "ns = n # ns'" by (cases ns) auto
  from Cons.prems ns obtain ps' where ps': "index_entry label ps (n, x) = Inr ps'"
    "foldr_res (index_entry label) ps' (zip ns' xs) = Inr qs" by (auto simp: rbind_eq_Inr_iff)
  then have x: "is_dict x" "is_str (dget (the_dict x) ''name'')" "entry_name_of x \<notin> fst ` set ps"
    "ps' = ps @ [(entry_name_of x, n)]"
    by (auto simp: index_entry_def Let_def entry_name_of_def map_of_eq_None_iff split: if_splits)
  then show ?case using Cons.IH [OF ps'(2)] Cons.prems ns by auto
qed simp

lemma merge_entries_ok:
  "foldr_res (merge_entry label) st es = Inr st' \<Longrightarrow>
   list_all (\<lambda>v. is_dict v \<and> is_str (dget (the_dict v) ''name'')) es \<and> distinct (map entry_name_of es)
   \<and> set (map entry_name_of es) \<inter> set (mg_desired st) = {}"
proof (induction es arbitrary: st)
  case (Cons e es)
  from Cons.prems obtain st1 where st1: "merge_entry label st e = Inr st1" "foldr_res (merge_entry label) st1 es = Inr st'"
    by (auto simp: rbind_eq_Inr_iff)
  then have "is_dict e" "is_str (dget (the_dict e) ''name'')" "entry_name_of e \<notin> set (mg_desired st)"
    "mg_desired st1 = entry_name_of e # mg_desired st"
    by (auto simp: merge_entry_def Let_def entry_name_of_def split: if_splits option.splits)
  then show ?case using Cons.IH [OF st1(2)] by auto
qed simp

lemma sane_named: "sane v \<Longrightarrow> is_dict v \<Longrightarrow> is_str (dget (the_dict v) ''name'') \<Longrightarrow> named v"
  by (cases v) (auto simp: named_def)

lemma merge_named_entries_iff:
  assumes "sane (PList cur)" "sane (PList des)"
  shows "merge_named_entries (PList cur) (PList des) label = Inr m \<longleftrightarrow>
    list_all named cur \<and> distinct (map entry_name_of cur) \<and> list_all named des \<and> distinct (map entry_name_of des)
    \<and> m = fold upsert des cur"
proof
  assume run: "merge_named_entries (PList cur) (PList des) label = Inr m"
  then obtain ps st where ps: "foldr_res (index_entry label) [] (zip [0..<length cur] cur) = Inr ps"
    "foldr_res (merge_entry label) \<lparr>mg_merged = cur, mg_positions = ps, mg_desired = []\<rparr> des = Inr st"
    by (auto simp: merge_named_entries_def rbind_eq_Inr_iff)
  have wf: "list_all named cur \<and> distinct (map entry_name_of cur)" "list_all named des \<and> distinct (map entry_name_of des)"
    using index_entries_ok [OF ps(1)] merge_entries_ok [OF ps(2)] assms by (auto simp: list_all_iff intro!: sane_named)
  then have "m = fold upsert des cur" using run merge_named_entries_eq [of cur des label] by simp
  then show "list_all named cur \<and> distinct (map entry_name_of cur) \<and> list_all named des \<and> distinct (map entry_name_of des)
    \<and> m = fold upsert des cur" using wf by blast
qed (use merge_named_entries_eq in blast)

text \<open>
  C24: The index-based merge of named client policies and profiles keeps every live entry whose name
  is not desired, in order and unchanged, brings in every desired entry with all of its fields, and
  merging the result again gives it back.
\<close>

theorem merge_named_entries_spec:
  assumes "sane (PList cur)" "sane (PList des)" "merge_named_entries (PList cur) (PList des) label = Inr m"
  shows "filter (\<lambda>v. entry_name_of v \<notin> set (map entry_name_of des)) m
       = filter (\<lambda>v. entry_name_of v \<notin> set (map entry_name_of des)) cur
    \<and> (\<forall>e \<in> set des. settled e m) \<and> merge_named_entries (PList m) (PList des) label = Inr m"
proof -
  have wf: "list_all named cur" "distinct (map entry_name_of cur)" "list_all named des" "distinct (map entry_name_of des)"
    and m: "m = fold upsert des cur"
    using assms merge_named_entries_iff [OF assms(1,2)] by auto
  have "merge_named_entries (PList m) (PList des) label = Inr (fold upsert des m)"
    unfolding m using wf by (intro merge_named_entries_eq merge_named merge_names_distinct)
  then show ?thesis
    using merge_keeps [OF wf(3) subset_refl] merge_settles [OF wf(3,4)] merge_idempotent [OF wf(3,4)] by (simp add: m)
qed

theorem merge_named_entries_spec_witness:
  "\<exists>cur des m. merge_named_entries (PList cur) (PList des) ''client policy'' = Inr m
    \<and> des = [obj [(''name'', S ''a''), (''on'', PBool True)]]
    \<and> cur = [obj [(''name'', S ''b'')], obj [(''name'', S ''a''), (''on'', PBool False)]]
    \<and> filter (\<lambda>v. entry_name_of v \<notin> set (map entry_name_of des)) m
       = filter (\<lambda>v. entry_name_of v \<notin> set (map entry_name_of des)) cur
    \<and> settled (hd des) m \<and> merge_named_entries (PList m) (PList des) ''client policy'' = Inr m"
proof -
  let ?des = "[obj [(''name'', S ''a''), (''on'', PBool True)]]"
  let ?cur = "[obj [(''name'', S ''b'')], obj [(''name'', S ''a''), (''on'', PBool False)]]"
  let ?m = "[obj [(''name'', S ''b'')], obj [(''name'', S ''a''), (''on'', PBool True)]]"
  have run: "merge_named_entries (PList ?cur) (PList ?des) ''client policy'' = Inr ?m"
    by (simp add: merge_named_entries_def index_entry_def merge_entry_def obj_def dict_simps Let_def dset_def dlookup_KStr
        dmerge_def)
  have sane: "sane (PList ?cur)" "sane (PList ?des)" by (simp_all add: obj_def)
  note spec = merge_named_entries_spec [OF sane run]
  have "settled (hd ?des) ?m" using spec by (simp only: list.set_intros list.sel)
  then show ?thesis
    by (intro exI [of _ ?cur] exI [of _ ?des] exI [of _ ?m] conjI run refl)
       (use spec in \<open>simp_all only:\<close>)
qed

section \<open>Convergence of the realm settings\<close>

lemma sane_dset: "sane (PDict d) \<Longrightarrow> sane v \<Longrightarrow> sane (PDict (dset (KStr k) v d))"
  using distinct_dset [of d "KStr k" v] set_dset [of "KStr k" v d] by (auto simp: list_all_iff)

lemma sane_dmerge: "sane (PDict a) \<Longrightarrow> sane (PDict b) \<Longrightarrow> sane (PDict (dmerge a b))"
proof (induction b arbitrary: a)
  case (Cons kv b)
  obtain s v where kv: "kv = (KStr s, v)" "sane v"
    using Cons.prems by (cases kv; cases "fst kv") auto
  then show ?case using Cons sane_dset [of a v s] by (simp add: dmerge_def)
qed (simp add: dmerge_def)

lemma sane_lookup: "sane (PDict d) \<Longrightarrow> map_of d k = Some v \<Longrightarrow> sane v"
  by (auto dest!: map_of_SomeD simp: list_all_iff)

lemma sane_dget: "sane (PDict d) \<Longrightarrow> sane (dget d k)"
  by (auto simp: dget_def intro: sane_lookup split: option.splits)

lemma sane_dget_or: "sane (PDict d) \<Longrightarrow> sane v \<Longrightarrow> sane (dget_or d k v)"
  by (auto simp: dget_or_def intro: sane_lookup split: option.splits)

lemma sane_the_dict: "sane v \<Longrightarrow> is_dict v \<Longrightarrow> sane (PDict (the_dict v))"
  by (cases v) auto

lemma sane_merge: "list_all sane es \<Longrightarrow> list_all named es \<Longrightarrow> list_all sane xs \<Longrightarrow> list_all named xs \<Longrightarrow> list_all sane (fold upsert es xs)"
proof (induction es arbitrary: xs)
  case (Cons e es)
  have "sane (PDict (dmerge (the_dict v) (the_dict e)))" if "v \<in> set xs" for v
    using that Cons.prems by (intro sane_dmerge sane_the_dict) (auto simp: list_all_iff named_def)
  then have "list_all sane (upsert e xs)" using Cons.prems by (auto simp: upsert_def list_all_iff)
  then show ?case using Cons upsert_named [of e xs] by simp
qed simp

lemma merge_group_Inr:
  assumes "sane (PDict c)" "sane (PDict d)" "merge_group c d (field, collection, label) = Inr v"
  shows "\<exists>live cur des. dget_or c field (PDict []) = PDict live \<and> is_dict (dget d field)
    \<and> dget_or live collection (PList []) = PList cur
    \<and> dget_or (the_dict (dget d field)) collection (PList []) = PList des
    \<and> sane (PDict live) \<and> sane (PList cur) \<and> sane (PList des)
    \<and> merge_named_entries (PList cur) (PList des) label = Inr (fold upsert des cur)
    \<and> list_all named cur \<and> distinct (map entry_name_of cur) \<and> list_all named des \<and> distinct (map entry_name_of des)
    \<and> v = PDict (dset (K collection) (PList (fold upsert des cur)) live)"
proof -
  obtain live where live: "dget_or c field (PDict []) = PDict live" "is_dict (dget d field)"
    using assms(3) by (cases "dget_or c field (PDict [])") (auto simp: merge_group_def Let_def split: if_splits)
  let ?cur = "dget_or live collection (PList [])" and ?des = "dget_or (the_dict (dget d field)) collection (PList [])"
  obtain m where m: "merge_named_entries ?cur ?des label = Inr m" "v = PDict (dset (K collection) (PList m) live)"
    using assms(3) live by (auto simp: merge_group_def Let_def rbind_eq_Inr_iff)
  then obtain cur des where lists: "?cur = PList cur" "?des = PList des"
    by (cases ?cur; cases ?des) (auto simp: merge_named_entries_def)
  have "sane (PDict live)" using sane_dget_or [OF assms(1), of "PDict []" field] live(1) by simp
  moreover have "sane (PDict (the_dict (dget d field)))" using sane_the_dict [OF sane_dget [OF assms(2)] live(2)] .
  ultimately have sane: "sane (PDict live)" "sane (PList cur)" "sane (PList des)"
    using sane_dget_or [of live "PList []" collection] sane_dget_or [of "the_dict (dget d field)" "PList []" collection] lists
    by auto
  show ?thesis
    using live lists sane m merge_named_entries_iff [OF sane(2,3), of label m] by auto
qed

lemma merge_group_sane:
  assumes "sane (PDict c)" "sane (PDict d)" "merge_group c d (field, collection, label) = Inr v"
  shows "sane v"
proof -
  obtain live cur des where "sane (PDict live)" "sane (PList cur)" "sane (PList des)" "list_all named cur" "list_all named des"
    "v = PDict (dset (K collection) (PList (fold upsert des cur)) live)"
    using merge_group_Inr [OF assms] by blast
  then show ?thesis using sane_merge [of des cur] by (simp add: sane_dset del: sane.simps(3))
qed

text \<open>Once the merged group is what the realm holds, merging it again gives it back.\<close>

lemma merge_group_again:
  assumes "sane (PDict c)" "sane (PDict d)" "merge_group c d (field, collection, label) = Inr v"
    and "dget_or c' field (PDict []) = v"
  shows "merge_group c' d (field, collection, label) = Inr v"
proof -
  obtain live cur des where g: "is_dict (dget d field)" "dget_or (the_dict (dget d field)) collection (PList []) = PList des"
    "sane (PList des)" "sane (PList cur)" "list_all named cur" "distinct (map entry_name_of cur)" "list_all named des"
    "distinct (map entry_name_of des)" "v = PDict (dset (K collection) (PList (fold upsert des cur)) live)"
    using merge_group_Inr [OF assms(1-3)] by blast
  let ?m = "fold upsert des cur" and ?live = "dset (K collection) (PList (fold upsert des cur)) live"
  have "merge_named_entries (PList ?m) (PList des) label = Inr (fold upsert des ?m)"
    using g by (intro merge_named_entries_eq merge_named merge_names_distinct)
  then have "merge_named_entries (PList ?m) (PList des) label = Inr ?m" using merge_idempotent [OF g(7,8)] by simp
  moreover have "dget_or ?live collection (PList []) = PList ?m" by (simp add: dget_or_def map_of_dset)
  moreover have "dset (K collection) (PList ?m) ?live = ?live" by (rule dset_same) (simp add: map_of_dset)
  ultimately show ?thesis using g assms(4) by (simp add: merge_group_def Let_def)
qed

text \<open>Writing back the entries that differ makes every entry of the payload compare equal.\<close>

lemma written_lookup:
  assumes "distinct (map fst payload)" "(k, v) \<in> set payload"
  shows "map_of (dmerge c (differing c payload)) k = (if py_eq (lookup_or_none c k) v then map_of c k else Some v)"
proof -
  have dist: "distinct (map fst (differing c payload))"
    unfolding differing_def using assms(1) by (rule distinct_map_filter)
  show ?thesis
  proof (cases "py_eq (lookup_or_none c k) v")
    case True
    have "map_of (differing c payload) k = None"
    proof (rule ccontr)
      assume "map_of (differing c payload) k \<noteq> None"
      then obtain w where "(k, w) \<in> set (differing c payload)" by (auto dest: map_of_SomeD)
      then have "(k, w) \<in> set payload" "\<not> py_eq (lookup_or_none c k) w" by (auto simp: differing_def)
      then show False using assms True by (metis eq_key_imp_eq_value)
    qed
    then show ?thesis using True by (simp add: map_of_dmerge dist)
  next
    case False
    then have "(k, v) \<in> set (differing c payload)" using assms(2) by (simp add: differing_def)
    then show ?thesis using False dmerge_has [OF dist] by simp
  qed
qed

lemma differing_again:
  assumes "distinct (map fst payload)" "\<And>k v. (k, v) \<in> set payload \<Longrightarrow> sane v"
  shows "differing (dmerge c (differing c payload)) payload = []"
proof -
  have "py_eq (lookup_or_none (dmerge c (differing c payload)) k) v" if kv: "(k, v) \<in> set payload" for k v
    using written_lookup [OF assms(1) kv, of c] py_eq_refl [OF assms(2) [OF kv]]
    by (simp add: lookup_or_none_def split: if_splits)
  then show ?thesis by (auto simp: differing_def filter_empty_conv)
qed

lemma realm_admin_payload_Inr:
  "realm_admin_payload (PDict c) (PDict d) = Inr payload \<longleftrightarrow>
   list_all (dhas d) REALM_ADMIN_FIELDS
   \<and> (\<exists>policies profiles. merge_group c d (''clientPolicies'', ''policies'', ''client policy'') = Inr policies
        \<and> merge_group c d (''clientProfiles'', ''profiles'', ''client profile'') = Inr profiles
        \<and> payload = differing c (project d BASE_FIELDS @ [(K ''clientPolicies'', policies), (K ''clientProfiles'', profiles)]))"
proof -
  have new: "K f \<notin> fst ` set (project d BASE_FIELDS)" if "f \<in> {''clientPolicies'', ''clientProfiles''}" for f
    using that by (auto simp: project_def BASE_FIELDS_def)
  have "dset (K ''clientProfiles'') w (dset (K ''clientPolicies'') v (project d BASE_FIELDS))
      = project d BASE_FIELDS @ [(K ''clientPolicies'', v), (K ''clientProfiles'', w)]" for v w
    using new [of "''clientPolicies''"] new [of "''clientProfiles''"] by (simp add: dset_new)
  then show ?thesis
    by (auto simp: realm_admin_payload_def REALM_GROUPS_def realm_group_def rbind_eq_Inr_iff)
qed

text \<open>
  C25: The realm settings converge in one write. When Keycloak stores the computed payload, so that
  every field in it replaces the live one and every other field stays, the next computation finds
  nothing left to write; client policies and profiles of other names are part of the stored lists.
\<close>

theorem realm_sync_converges:
  assumes "sane (PDict c)" "sane (PDict d)" "realm_admin_payload (PDict c) (PDict d) = Inr payload"
  shows "realm_admin_payload (PDict (dmerge c payload)) (PDict d) = Inr []"
proof -
  obtain policies profiles where
    policies: "merge_group c d (''clientPolicies'', ''policies'', ''client policy'') = Inr policies"
    and profiles: "merge_group c d (''clientProfiles'', ''profiles'', ''client profile'') = Inr profiles"
    and dhas: "list_all (dhas d) REALM_ADMIN_FIELDS"
    and payload: "payload = differing c (project d BASE_FIELDS @ [(K ''clientPolicies'', policies), (K ''clientProfiles'', profiles)])"
    using assms(3) by (auto simp: realm_admin_payload_Inr)
  let ?all = "project d BASE_FIELDS @ [(K ''clientPolicies'', policies), (K ''clientProfiles'', profiles)]"
  let ?c = "dmerge c payload"
  have dist: "distinct (map fst ?all)" by (simp add: project_def BASE_FIELDS_def REALM_ADMIN_FIELDS_def)
  have sane: "sane v" if "(k, v) \<in> set ?all" for k v
    using that merge_group_sane [OF assms(1,2) policies] merge_group_sane [OF assms(1,2) profiles] sane_dget [OF assms(2)]
    by (auto simp: project_def)
  have again: "merge_group ?c d (field, collection, label) = Inr v"
    if "merge_group c d (field, collection, label) = Inr v" "(K field, v) \<in> set ?all" for field collection label v
  proof (cases "py_eq (lookup_or_none c (K field)) v")
    case True
    then have "dget_or ?c field (PDict []) = dget_or c field (PDict [])"
      using written_lookup [OF dist that(2), of c] by (simp add: dget_or_def payload)
    then show ?thesis using that(1) by (simp add: merge_group_def)
  next
    case False
    then have "dget_or ?c field (PDict []) = v"
      using written_lookup [OF dist that(2), of c] by (simp add: dget_or_def payload)
    then show ?thesis by (rule merge_group_again [OF assms(1,2) that(1)])
  qed
  show ?thesis
    using again [OF policies] again [OF profiles] dhas differing_again [where c = c, OF dist sane]
    by (auto simp: realm_admin_payload_Inr payload)
qed

section \<open>Convergence of a client\<close>

lemma dget_project [simp]: "f \<in> set fs \<Longrightarrow> dget (project d fs) f = dget d f"
  by (induction fs) (auto simp: project_def dget_def)

lemma map_of_project: "map_of (project d fs) (K k) = (if k \<in> set fs then Some (dget d k) else None)"
  by (induction fs) (auto simp: project_def)

lemma keys_project [simp]: "map fst (project d fs) = map K fs"
  by (simp add: project_def)

lemma distinct_K: "distinct (map K fs) \<longleftrightarrow> distinct fs"
  by (simp add: distinct_map inj_on_def)

lemma project_cong: "(\<And>f. f \<in> set fs \<Longrightarrow> dget d f = dget e f) \<Longrightarrow> project d fs = project e fs"
  by (simp add: project_def)

lemma client_payload:
  assumes "client_admin_payload desired = Inr payload"
  shows "payload = project (the_dict desired) CLIENT_ADMIN_FIELDS \<and> is_dict desired
    \<and> nonempty_str (dget payload ''clientId'') \<and> is_dict (dget payload ''attributes'')"
proof -
  have "''clientId'' \<in> set CLIENT_ADMIN_FIELDS" "''attributes'' \<in> set CLIENT_ADMIN_FIELDS"
    by (simp_all add: CLIENT_ADMIN_FIELDS_def)
  then show ?thesis
    using assms by (auto simp: client_admin_payload_def Let_def rbind_eq_Inr_iff split: if_splits)
qed

lemma sane_payload:
  assumes "client_admin_payload desired = Inr payload" "sane desired"
  shows "sane (PDict payload)"
proof -
  have "sane (PDict (the_dict desired))" using sane_the_dict assms client_payload by blast
  then have "sane (dget (the_dict desired) f)" for f by (rule sane_dget)
  moreover have "distinct (map K CLIENT_ADMIN_FIELDS)" by (simp add: distinct_K CLIENT_ADMIN_FIELDS_def)
  ultimately show ?thesis using client_payload [OF assms(1)] by (auto simp: project_def list_all_iff comp_def)
qed

text \<open>A live client with the managed fields and covered attributes needs no write.\<close>

lemma plan_client_noop:
  assumes payload: "client_admin_payload desired = Inr payload" and "sane desired"
    and found: "f (the_str (dget payload ''clientId'')) = PList [PDict c]" and "nonempty_str (dget c ''id'')"
    and same: "\<And>k. k \<in> set CLIENT_ADMIN_FIELDS \<Longrightarrow> k \<noteq> ''attributes'' \<Longrightarrow> dget c k = dget payload k"
    and covered: "attributes_covered (dget c ''attributes'') (the_dict (dget payload ''attributes''))"
  shows "\<exists>b. plan_client f desired = Inr b \<and> ca_operation b = Noop"
proof -
  let ?init = "butlast CLIENT_ADMIN_FIELDS"
  have fs: "CLIENT_ADMIN_FIELDS = ?init @ [''attributes'']" "''attributes'' \<notin> set ?init" "''clientId'' \<in> set ?init"
    by (simp_all add: CLIENT_ADMIN_FIELDS_def)
  have init: "project c ?init = project payload ?init"
    by (rule project_cong) (use same fs in \<open>metis UnCI set_append\<close>)
  have self: "project payload CLIENT_ADMIN_FIELDS = payload"
    using client_payload [OF payload] by (metis dget_project project_cong)
  have "project c CLIENT_ADMIN_FIELDS = project c ?init @ [(K ''attributes'', dget c ''attributes'')]"
    unfolding project_def by (subst fs(1)) simp
  moreover have "K ''attributes'' \<notin> fst ` set (project c ?init)" using fs(2) by (auto simp: project_def)
  ultimately have "dset (K ''attributes'') v (project c CLIENT_ADMIN_FIELDS) = project c ?init @ [(K ''attributes'', v)]" for v
    by (simp add: dset_last)
  then have "dset (K ''attributes'') (dget payload ''attributes'') (project c CLIENT_ADMIN_FIELDS)
      = project payload ?init @ [(K ''attributes'', dget payload ''attributes'')]"
    unfolding init by simp
  also have "\<dots> = payload" by (subst (2) self [symmetric], subst fs(1)) (simp add: project_def)
  finally have eq: "dset (K ''attributes'') (dget payload ''attributes'') (project c CLIENT_ADMIN_FIELDS) = payload" .
  have "''attributes'' \<in> set CLIENT_ADMIN_FIELDS" by (simp add: CLIENT_ADMIN_FIELDS_def)
  then have "comparable c payload = payload" using covered eq by (simp add: comparable_def Let_def)
  moreover have "dget c ''clientId'' = PStr (the_str (dget payload ''clientId''))"
    using same [of "''clientId''"] client_payload [OF payload] by (auto simp: CLIENT_ADMIN_FIELDS_def elim!: nonempty_str.elims)
  ultimately show ?thesis
    using payload found assms(4) py_eq_refl [OF sane_payload [OF payload assms(2)]]
    by (simp add: plan_client_def Let_def)
qed

text \<open>What Keycloak holds after the action: a created client, or the update body over the live client.\<close>

definition stored_client :: "client_action \<Rightarrow> pystr \<Rightarrow> pydict" where
  "stored_client a new_id =
     (case ca_operation a of
        Create \<Rightarrow> dset (K ''id'') (PStr new_id) (ca_payload a)
      | Update \<Rightarrow> dmerge (ca_current a) (update_body a)
      | Noop \<Rightarrow> ca_current a)"

lemma covered_merge:
  assumes "sane (PDict desired)"
  shows "attributes_covered (PDict (dmerge attributes desired)) desired"
proof -
  have "py_eq (lookup_or_none (dmerge attributes desired) k) v" if "(k, v) \<in> set desired" for k v
    using that assms dmerge_has [OF _ that] by (auto simp: lookup_or_none_def list_all_iff intro!: py_eq_refl)
  then show ?thesis by (auto simp: attributes_covered_def list_all_iff)
qed

lemma covered_self: "sane (PDict desired) \<Longrightarrow> attributes_covered (PDict desired) desired"
  using covered_merge [of desired desired] by (simp add: dmerge_self)

lemma update_body_fields:
  assumes "ca_payload a = project d CLIENT_ADMIN_FIELDS"
  shows "distinct (map fst (update_body a))"
    and "dget (dmerge c (update_body a)) ''id'' = PStr (ca_client_uuid a)"
    and "k \<in> set CLIENT_ADMIN_FIELDS \<Longrightarrow> k \<noteq> ''attributes'' \<Longrightarrow> dget (dmerge c (update_body a)) k = dget d k"
    and "dget (dmerge c (update_body a)) ''attributes'' =
      (case dget (ca_current a) ''attributes'' of
         PDict attributes \<Rightarrow> PDict (dmerge attributes (the_dict (dget d ''attributes''))) | _ \<Rightarrow> dget d ''attributes'')"
proof -
  let ?body = "dmerge [(K ''id'', PStr (ca_client_uuid a))] (ca_payload a)"
  have dp: "distinct (map fst (ca_payload a))" by (simp add: assms distinct_K CLIENT_ADMIN_FIELDS_def)
  have att: "''attributes'' \<in> set CLIENT_ADMIN_FIELDS" by (simp add: CLIENT_ADMIN_FIELDS_def)
  have "distinct (map fst ?body)" by (rule distinct_dmerge) simp
  then show db: "distinct (map fst (update_body a))"
    by (auto simp: update_body_def Let_def split: pyval.split intro: distinct_dset)
  have payload: "map_of (ca_payload a) (K k) = (if k \<in> set CLIENT_ADMIN_FIELDS then Some (dget d k) else None)" for k
    unfolding assms by (rule map_of_project)
  have body: "map_of ?body (K k) = (if k \<in> set CLIENT_ADMIN_FIELDS then Some (dget d k)
      else if k = ''id'' then Some (PStr (ca_client_uuid a)) else None)" for k
    using dp by (simp add: map_of_dmerge payload)
  let ?att = "case dget (ca_current a) ''attributes'' of
    PDict attributes \<Rightarrow> PDict (dmerge attributes (the_dict (dget d ''attributes''))) | _ \<Rightarrow> dget d ''attributes''"
  have lookup: "map_of (update_body a) (K k) = (if k = ''attributes'' then Some ?att else map_of ?body (K k))" for k
  proof -
    have "dget (ca_payload a) ''attributes'' = dget d ''attributes''" using assms att by simp
    then show ?thesis using att by (auto simp: update_body_def Let_def map_of_dset body split: pyval.split)
  qed
  have get: "dget (dmerge c (update_body a)) k = (case map_of (update_body a) (K k) of None \<Rightarrow> dget c k | Some v \<Rightarrow> v)" for k
    using db by (auto simp: dget_def map_of_dmerge split: option.split)
  show "dget (dmerge c (update_body a)) ''id'' = PStr (ca_client_uuid a)"
    by (simp add: get lookup body) (simp add: CLIENT_ADMIN_FIELDS_def)
  show "dget (dmerge c (update_body a)) k = dget d k" if "k \<in> set CLIENT_ADMIN_FIELDS" "k \<noteq> ''attributes''"
    using that by (simp add: get lookup body)
  show "dget (dmerge c (update_body a)) ''attributes'' = ?att" by (simp add: get lookup)
qed

text \<open>
  C26: A client converges in one write. When Keycloak stores what the planned action sends, a created
  client under a new identifier or the update body over the live client, the next plan for the same
  desired client finds nothing to do.
\<close>

theorem client_sync_converges:
  assumes "plan_client matches desired = Inr a" "sane desired" "new_id \<noteq> []"
    and "matches' (ca_client_id a) = PList [PDict (stored_client a new_id)]"
  shows "\<exists>b. plan_client matches' desired = Inr b \<and> ca_operation b = Noop"
proof -
  obtain payload where payload: "client_admin_payload desired = Inr payload" "ca_payload a = payload"
    "ca_client_id a = the_str (dget payload ''clientId'')"
    using assms(1) by (auto simp: plan_client_def Let_def rbind_eq_Inr_iff split: if_splits)
  note p = client_payload [OF payload(1)]
  have fields: "k \<in> set CLIENT_ADMIN_FIELDS \<Longrightarrow> dget payload k = dget (the_dict desired) k" for k using p by simp
  have att: "''attributes'' \<in> set CLIENT_ADMIN_FIELDS" "''id'' \<notin> set CLIENT_ADMIN_FIELDS"
    by (simp_all add: CLIENT_ADMIN_FIELDS_def)
  have "sane (dget payload ''attributes'')" by (rule sane_dget [OF sane_payload [OF payload(1) assms(2)]])
  then obtain attributes where attributes: "dget payload ''attributes'' = PDict attributes" "sane (PDict attributes)"
    using p by (cases "dget payload ''attributes''") auto
  have found: "matches' (the_str (dget payload ''clientId'')) = PList [PDict (stored_client a new_id)]"
    using assms(4) payload(3) by simp
  show ?thesis
  proof (cases "ca_operation a")
    case Create
    then have st: "stored_client a new_id = dset (K ''id'') (PStr new_id) payload" using payload by (simp add: stored_client_def)
    show ?thesis
    proof (rule plan_client_noop [where f = matches' and c = "stored_client a new_id", OF payload(1) assms(2) found])
      show "nonempty_str (dget (stored_client a new_id) ''id'')" using assms(3) by (simp add: st dict_simps)
      show "dget (stored_client a new_id) k = dget payload k" if "k \<in> set CLIENT_ADMIN_FIELDS" for k
        using that att by (auto simp: st dict_simps)
      show "attributes_covered (dget (stored_client a new_id) ''attributes'') (the_dict (dget payload ''attributes''))"
        using attributes covered_self by (simp add: st dict_simps)
    qed
  next
    case Update
    then have st: "stored_client a new_id = dmerge (ca_current a) (update_body a)" by (simp add: stored_client_def)
    have uuid: "nonempty_str (PStr (ca_client_uuid a))"
      using assms(1) Update
      by (auto simp: plan_client_def Let_def rbind_eq_Inr_iff split: if_splits elim!: nonempty_str.elims)
    have ap: "ca_payload a = project (the_dict desired) CLIENT_ADMIN_FIELDS" using payload p by simp
    note body = update_body_fields [OF ap]
    show ?thesis
    proof (rule plan_client_noop [where f = matches' and c = "stored_client a new_id", OF payload(1) assms(2) found])
      show "nonempty_str (dget (stored_client a new_id) ''id'')" using uuid by (simp only: st body(2))
      show "dget (stored_client a new_id) k = dget payload k" if "k \<in> set CLIENT_ADMIN_FIELDS" "k \<noteq> ''attributes''" for k
        using that fields by (simp add: st body(3))
      show "attributes_covered (dget (stored_client a new_id) ''attributes'') (the_dict (dget payload ''attributes''))"
        using attributes covered_self covered_merge fields [OF att(1)]
        by (auto simp: st body(4) split: pyval.split)
    qed
  next
    case Noop
    then have st: "stored_client a new_id = ca_current a" by (simp add: stored_client_def)
    have "matches (ca_client_id a) = PList [PDict (ca_current a)]"
      using assms(1) Noop by (cases "matches (ca_client_id a)"; cases "the_list (matches (ca_client_id a))")
        (auto simp: plan_client_def Let_def rbind_eq_Inr_iff split: if_splits elim!: is_dict.elims)
    then have "plan_client matches' desired = plan_client matches desired"
      using assms(4) st payload by (simp add: plan_client_def)
    then show ?thesis using assms(1) Noop by auto
  qed
qed

end
