(* ===== verification/Keycloak_Sync.thy ===== *)
theory Keycloak_Sync
  imports Keycloak_Plan "HOL-Library.Sublist"
begin

text \<open>
  The request half of \<open>src/scripts/sync-keycloak-demo-data.py\<close>: calls of the Keycloak admin API, the
  preparation, application and verification of the plans of \<open>Keycloak_Plan\<close>, the user profile and
  the demo users, and \<open>main\<close>.

  The remote side is the parameter of \<open>Konnect_Api\<close>: an arbitrary service that may answer each
  request depending on all requests before it. A request's address is the path after \<open>BASE_URL\<close>, with
  its query string; the form of the token request takes the place of the query. Exceptions of
  the transport pass through, also the one of an address that cannot be sent (a user id of the answer is
  put into the path as it is); redirects are not followed, so they are HTTP errors.
\<close>

section \<open>Requests\<close>

definition admin :: "pystr \<Rightarrow> pystr" where
  "admin path = lit ''/admin/realms/fapi-demo'' @ path"

definition token_path :: pystr where
  "token_path = lit ''/realms/master/protocol/openid-connect/token''"

definition method_name :: "http_method \<Rightarrow> string" where
  "method_name m = (case m of GET \<Rightarrow> ''GET'' | PUT \<Rightarrow> ''PUT'' | POST \<Rightarrow> ''POST'')"

definition kc_request :: "konnect \<Rightarrow> api_request \<Rightarrow> pyval act" where
  "kc_request k rq h =
     ((case answer k h rq of
         HTTPError code \<Rightarrow>
           Inl (RuntimeError (lit (method_name (rq_method rq) @ '' '') @ rq_url rq @ lit '' returned HTTP '' @ show_int code))
       | URLError \<Rightarrow> Inl UrlError
       | Failed e \<Rightarrow> Inl e
       | Answer code payload \<Rightarrow> if payload = [] then Inr PNone else response_value k payload),
      h @ [rq])"

definition kc_get :: "pystr \<Rightarrow> api_request" where
  "kc_get path = \<lparr>rq_method = GET, rq_url = path, rq_query = [], rq_body = None\<rparr>"

definition kc_send :: "http_method \<Rightarrow> pystr \<Rightarrow> pydict \<Rightarrow> api_request" where
  "kc_send m path body = \<lparr>rq_method = m, rq_url = path, rq_query = [], rq_body = Some (PDict body)\<rparr>"

text \<open>\<open>v[k]\<close> on a value that may not be a dictionary.\<close>

definition index_str :: "pyval \<Rightarrow> string \<Rightarrow> pyval res" where
  "index_str v key = (case v of PDict d \<Rightarrow> ditem d key | _ \<Rightarrow> Inl TypeError)"

fun amap :: "('a \<Rightarrow> 'b act) \<Rightarrow> 'a list \<Rightarrow> 'b list act" where
  "amap f [] = pure (Inr [])"
| "amap f (x # xs) = abind (f x) (\<lambda>y. abind (amap f xs) (\<lambda>ys. pure (Inr (y # ys))))"

section \<open>The admin token\<close>

definition admin_token :: "konnect \<Rightarrow> (pystr \<times> pystr) list \<Rightarrow> pyval act" where
  "admin_token k secrets =
     (case map_of secrets (lit ''KEYCLOAK_ADMIN_USERNAME'') of
        None \<Rightarrow> pure (Inl KeyError)
      | Some user \<Rightarrow>
          (case map_of secrets (lit ''KEYCLOAK_ADMIN_PASSWORD'') of
             None \<Rightarrow> pure (Inl KeyError)
           | Some secret \<Rightarrow>
               abind (kc_request k \<lparr>rq_method = POST, rq_url = token_path,
                   rq_query = [(''grant_type'', lit ''password''), (''client_id'', lit ''admin-cli''),
                               (''username'', user), (''password'', secret)], rq_body = None\<rparr>)
                 (\<lambda>v. pure (index_str v ''access_token''))))"

text \<open>\<open>except (URLError, RuntimeError)\<close>; \<open>RecursionError\<close> is a \<open>RuntimeError\<close>, a plain \<open>OSError\<close> is not caught.\<close>

fun retried :: "exn \<Rightarrow> bool" where
  "retried UrlError = True"
| "retried (RuntimeError _) = True"
| "retried RecursionError = True"
| "retried _ = False"

text \<open>The loop over \<open>range(n)\<close>; the source runs it with \<open>n = 30\<close>.\<close>

fun wait_loop :: "konnect \<Rightarrow> (pystr \<times> pystr) list \<Rightarrow> nat \<Rightarrow> pyval act" where
  "wait_loop k secrets 0 = pure (raiseR ''Keycloak did not become ready within 60 seconds'')"
| "wait_loop k secrets (Suc n) =
     atry (admin_token k secrets) (\<lambda>e. if retried e then wait_loop k secrets n else pure (Inl e))"

definition wait_for_keycloak :: "konnect \<Rightarrow> (pystr \<times> pystr) list \<Rightarrow> pyval act" where
  "wait_for_keycloak k secrets = wait_loop k secrets 30"

section \<open>Key provider\<close>

definition prepare_key_provider_sync :: "konnect \<Rightarrow> pyval \<Rightarrow> provider_action act" where
  "prepare_key_provider_sync k desired_realm =
     abind (pure (key_provider_admin_payload desired_realm)) (\<lambda>payload.
     abind (kc_request k (kc_get (admin (lit (''/components?name='' @ MANAGED_KEY_PROVIDER_NAME))))) (\<lambda>live.
     pure (plan_key_provider_sync payload live)))"

definition apply_key_provider_sync :: "konnect \<Rightarrow> provider_action \<Rightarrow> bool act" where
  "apply_key_provider_sync k action =
     (case action of
        Provider_Noop _ \<Rightarrow> pure (Inr False)
      | Provider_Create payload \<Rightarrow>
          if \<not> is_managed_payload payload then pure (raiseR ''Keycloak managed key provider create plan is malformed'')
          else abind (kc_request k (kc_send POST (admin (lit ''/components'')) payload)) (\<lambda>_. pure (Inr True))
      | Provider_Update component_id payload \<Rightarrow>
          if component_id = [] \<or> \<not> is_managed_payload payload
          then pure (raiseR ''Keycloak managed key provider update plan is malformed'')
          else abind (pure (py_quote component_id)) (\<lambda>quoted.
            abind (kc_request k (kc_send PUT (admin (lit ''/components/'' @ quoted))
                     (dmerge [(K ''id'', PStr component_id)] payload)))
              (\<lambda>_. pure (Inr True))))"

definition verify_key_provider_sync :: "konnect \<Rightarrow> pyval \<Rightarrow> unit act" where
  "verify_key_provider_sync k desired_realm =
     abind (prepare_key_provider_sync k desired_realm) (\<lambda>plan.
     pure (raise_if (case plan of Provider_Noop _ \<Rightarrow> False | _ \<Rightarrow> True)
       (RuntimeError (lit ''Keycloak managed key provider configuration did not converge''))))"

section \<open>Clients\<close>

definition clients_query :: "pystr \<Rightarrow> pystr res" where
  "clients_query client_id =
     rbind (quote_plus client_id) (\<lambda>q. Inr (admin (lit ''/clients?clientId='' @ q)))"

definition mappers_path :: "pystr \<Rightarrow> pystr res" where
  "mappers_path client_uuid =
     rbind (py_quote client_uuid) (\<lambda>q. Inr (admin (lit ''/clients/'' @ q @ lit ''/protocol-mappers/models'')))"

definition lookup_client :: "konnect \<Rightarrow> pystr \<Rightarrow> (pystr \<times> pyval) act" where
  "lookup_client k client_id =
     abind (pure (clients_query client_id)) (\<lambda>path.
     abind (kc_request k (kc_get path)) (\<lambda>matches.
     pure (if \<not> is_list matches then raiseRF ''Keycloak client lookup is malformed for '' client_id
           else Inr (client_id, matches))))"

text \<open>\<open>sorted(CLIENT_IDS)\<close>.\<close>

definition SORTED_CLIENT_IDS :: "string list" where
  "SORTED_CLIENT_IDS = [''api-gateway-introspection'', ''third-party-fapi-mtls'', ''third-party-fapi-pkj-mtls'']"

definition prepare_mappers :: "konnect \<Rightarrow> client_action \<times> pyval \<Rightarrow> client_action act" where
  "prepare_mappers k ad =
     (case ad of (action, desired) \<Rightarrow>
      abind (if ca_operation action = Create then pure (Inr (PList []))
             else abind (pure (mappers_path (ca_client_uuid action))) (\<lambda>path. kc_request k (kc_get path))) (\<lambda>live_mappers.
      pure (rbind (plan_mapper_sync (the_list (dget (the_dict desired) ''protocolMappers'')) live_mappers)
        (\<lambda>plan. Inr (action\<lparr>ca_mapper_plan := plan\<rparr>)))))"

definition prepare_client_sync :: "konnect \<Rightarrow> pyval \<Rightarrow> client_action list act" where
  "prepare_client_sync k desired_clients =
     abind (amap (lookup_client k) (map lit SORTED_CLIENT_IDS)) (\<lambda>found.
     abind (pure (plan_client_sync desired_clients
              (\<lambda>client_id. case map_of found client_id of None \<Rightarrow> PNone | Some v \<Rightarrow> v))) (\<lambda>plan.
     amap (prepare_mappers k) (zip plan (the_list desired_clients))))"

definition apply_client :: "konnect \<Rightarrow> client_action \<Rightarrow> (pystr \<times> pystr) act" where
  "apply_client k action =
     (case ca_operation action of
        Update \<Rightarrow>
          abind (pure (py_quote (ca_client_uuid action))) (\<lambda>quoted.
          abind (kc_request k (kc_send PUT (admin (lit ''/clients/'' @ quoted)) (update_body action))) (\<lambda>_.
          pure (Inr (ca_client_id action, ca_client_uuid action))))
      | Create \<Rightarrow>
          abind (kc_request k (kc_send POST (admin (lit ''/clients'')) (ca_payload action))) (\<lambda>_.
          abind (pure (clients_query (ca_client_id action))) (\<lambda>path.
          abind (kc_request k (kc_get path)) (\<lambda>created.
          pure (if \<not> is_list created \<or> length (the_list created) \<noteq> 1
                then raiseRF ''Keycloak did not create exactly one client for '' (ca_client_id action)
                else case hd (the_list created) of
                  PDict d \<Rightarrow>
                    if \<not> nonempty_str (dget d ''id'') then raiseRF ''Keycloak client ID is missing for '' (ca_client_id action)
                    else Inr (ca_client_id action, the_str (dget d ''id''))
                | _ \<Rightarrow> Inl AttributeError))))
      | Noop \<Rightarrow> pure (Inr (ca_client_id action, ca_client_uuid action)))"

definition apply_mapper :: "konnect \<Rightarrow> pystr \<Rightarrow> mapper_action \<Rightarrow> unit act" where
  "apply_mapper k collection_path mapper_action =
     (case mapper_action of
        Mapper_Create payload \<Rightarrow>
          abind (kc_request k (kc_send POST collection_path payload)) (\<lambda>_. pure (Inr ()))
      | Mapper_Update mapper_id payload \<Rightarrow>
          abind (pure (py_quote mapper_id)) (\<lambda>quoted.
          abind (kc_request k (kc_send PUT (collection_path @ lit ''/'' @ quoted)
                   (dmerge [(K ''id'', PStr mapper_id)] payload))) (\<lambda>_. pure (Inr ()))))"

definition apply_mappers :: "konnect \<Rightarrow> (pystr \<times> pystr) list \<Rightarrow> client_action \<Rightarrow> unit act" where
  "apply_mappers k uuids action =
     (case map_of uuids (ca_client_id action) of
        None \<Rightarrow> pure (Inl KeyError)
      | Some client_uuid \<Rightarrow>
          abind (pure (mappers_path client_uuid)) (\<lambda>path. each (apply_mapper k path) (ca_mapper_plan action)))"

definition apply_client_sync :: "konnect \<Rightarrow> client_action list \<Rightarrow> (nat \<times> nat) act" where
  "apply_client_sync k plan =
     abind (amap (apply_client k) plan) (\<lambda>uuids.
     abind (each (apply_mappers k (rev uuids)) plan) (\<lambda>_.
     pure (Inr (length (filter (\<lambda>a. ca_operation a \<noteq> Noop) plan), length (concat (map ca_mapper_plan plan))))))"

definition verify_client_sync :: "konnect \<Rightarrow> pyval \<Rightarrow> unit act" where
  "verify_client_sync k desired_clients =
     abind (prepare_client_sync k desired_clients) (\<lambda>plan.
     pure (raise_if (list_ex (\<lambda>a. ca_operation a \<noteq> Noop \<or> ca_mapper_plan a \<noteq> []) plan)
       (RuntimeError (lit ''Keycloak client configuration did not converge''))))"

section \<open>Realm\<close>

definition prepare_realm_sync :: "konnect \<Rightarrow> pyval \<Rightarrow> pydict act" where
  "prepare_realm_sync k desired_realm =
     abind (kc_request k (kc_get (admin []))) (\<lambda>current.
     pure (if \<not> is_dict current then raiseR ''Keycloak realm representation is malformed''
           else realm_admin_payload current desired_realm))"

definition apply_realm_sync :: "konnect \<Rightarrow> pydict \<Rightarrow> bool act" where
  "apply_realm_sync k payload =
     (if payload \<noteq> [] then abind (kc_request k (kc_send PUT (admin []) payload)) (\<lambda>_. pure (Inr True))
      else pure (Inr False))"

definition verify_realm_sync :: "konnect \<Rightarrow> pyval \<Rightarrow> unit act" where
  "verify_realm_sync k desired_realm =
     abind (prepare_realm_sync k desired_realm) (\<lambda>remaining.
     pure (raise_if (remaining \<noteq> []) (RuntimeError (lit ''Keycloak realm configuration did not converge''))))"

section \<open>User profile and demo users\<close>

text \<open>\<open>item["name"]\<close>, used as a member of a set.\<close>

definition item_named :: "pyval \<Rightarrow> pyval res" where
  "item_named v = rbind (index_str v ''name'') (\<lambda>n. if hashable n then Inr n else Inl TypeError)"

definition list_of :: "pyval \<Rightarrow> pyval list res" where
  "list_of v = (case v of PList xs \<Rightarrow> Inr xs | _ \<Rightarrow> Inl TypeError)"

text \<open>
  A loop over a value whose body subscripts every element by a string: the characters of a string and
  the keys of a dictionary cannot be subscripted so, but an empty one is an empty loop.
\<close>

definition loop_over :: "pyval \<Rightarrow> pyval list res" where
  "loop_over v = (case v of PList xs \<Rightarrow> Inr xs | PDict [] \<Rightarrow> Inr [] | PStr [] \<Rightarrow> Inr [] | _ \<Rightarrow> Inl TypeError)"

definition merged_profile :: "pyval \<Rightarrow> pyval list \<Rightarrow> pyval list \<Rightarrow> pydict res" where
  "merged_profile live_profile desired desired_names =
     rbind (index_str live_profile ''attributes'') (\<lambda>v.
     rbind (loop_over v) (\<lambda>live.
     rbind (mapr item_named live) (\<lambda>live_names.
     Inr (dset (K ''attributes'')
       (PList (map fst (filter (\<lambda>(_, n). \<not> list_ex (\<lambda>d. py_eq n d) desired_names) (zip live live_names)) @ desired))
       (the_dict live_profile)))))"

definition sync_profile :: "konnect \<Rightarrow> pyval \<Rightarrow> pyval list act" where
  "sync_profile k desired_profile =
     abind (kc_request k (kc_get (admin (lit ''/users/profile'')))) (\<lambda>live_profile.
     abind (pure (rbind (index_str desired_profile ''attributes'') list_of)) (\<lambda>desired.
     abind (pure (mapr item_named desired)) (\<lambda>desired_names.
     abind (pure (merged_profile live_profile desired desired_names)) (\<lambda>body.
     abind (kc_request k (kc_send PUT (admin (lit ''/users/profile'')) body)) (\<lambda>_.
     pure (Inr desired_names))))))"

text \<open>
  The attributes of a desired user are a dictionary in the realm document; any other value is
  modelled as the \<open>TypeError\<close> of \<open>dict.update\<close>.
\<close>

text \<open>\<open>str(v)\<close> in a format string: the text itself for a string; other values need a parameter.\<close>

definition py_str :: "(pyval \<Rightarrow> pystr) \<Rightarrow> pyval \<Rightarrow> pystr" where
  "py_str other v = (case v of PStr s \<Rightarrow> s | _ \<Rightarrow> other v)"

definition copy_name :: "pydict \<Rightarrow> string \<Rightarrow> pydict \<Rightarrow> pydict" where
  "copy_name desired_user field live_user =
     (if py_true (dget desired_user field) then dset (K field) (dget desired_user field) live_user else live_user)"

definition updated_user :: "pydict \<Rightarrow> pydict \<Rightarrow> pydict res" where
  "updated_user desired_user live_user =
     (let named = fold (copy_name desired_user) [''firstName'', ''lastName''] live_user in
      case dget_or named ''attributes'' (PDict []) of
        PDict attributes \<Rightarrow>
          rbind (ditem desired_user ''attributes'') (\<lambda>wanted.
          case wanted of
            PDict w \<Rightarrow> Inr (dset (K ''attributes'') (PDict (dmerge attributes w)) named)
          | _ \<Rightarrow> Inl TypeError)
      | _ \<Rightarrow> Inl AttributeError)"

definition user_retained :: "pyval \<Rightarrow> pydict \<Rightarrow> bool res" where
  "user_retained verified wanted =
     (case verified of
        PDict v \<Rightarrow>
          (case dget_or v ''attributes'' (PDict []) of
             PDict a \<Rightarrow> Inr (list_all (\<lambda>(n, w). py_eq (lookup_or_none a n) w) wanted)
           | _ \<Rightarrow> if wanted = [] then Inr True else Inl AttributeError)
      | _ \<Rightarrow> if wanted = [] then Inr True else Inl AttributeError)"

text \<open>\<open>len(matches) != 1\<close>, then \<open>matches[0]\<close>.\<close>

definition only_match :: "pystr \<Rightarrow> pyval \<Rightarrow> pyval res" where
  "only_match user matches =
     (case matches of
        PList [v] \<Rightarrow> Inr v
      | PDict [_] \<Rightarrow> Inl KeyError
      | PStr [c] \<Rightarrow> Inr (PStr [c])
      | PList _ \<Rightarrow> raiseRF ''expected exactly one Keycloak user for '' user
      | PDict _ \<Rightarrow> raiseRF ''expected exactly one Keycloak user for '' user
      | PStr _ \<Rightarrow> raiseRF ''expected exactly one Keycloak user for '' user
      | _ \<Rightarrow> Inl TypeError)"

definition sync_user :: "(pyval \<Rightarrow> pystr) \<Rightarrow> konnect \<Rightarrow> pyval \<Rightarrow> pystr act" where
  "sync_user str_of k desired =
     abind (pure (index_str desired ''username'')) (\<lambda>name.
     let desired_user = the_dict desired; user = py_str str_of name in
     abind (pure (quote_plus user)) (\<lambda>q.
     abind (kc_request k (kc_get (admin (lit ''/users?username='' @ q @ lit ''&exact=true'')))) (\<lambda>matches.
     abind (pure (only_match user matches)) (\<lambda>found.
     abind (pure (index_str found ''id'')) (\<lambda>user_id.
       let path = admin (lit ''/users/'' @ py_str str_of user_id) in
       abind (kc_request k (kc_get path)) (\<lambda>live.
       abind (pure (case live of PDict l \<Rightarrow> updated_user desired_user l
             | _ \<Rightarrow> Inl (if list_ex (\<lambda>f. py_true (dget desired_user f)) [''firstName'', ''lastName'']
                       then TypeError else AttributeError))) (\<lambda>body.
       abind (kc_request k (kc_send PUT path body)) (\<lambda>_.
       abind (kc_request k (kc_get path)) (\<lambda>verified.
       abind (pure (user_retained verified (the_dict (dget desired_user ''attributes'')))) (\<lambda>retained.
       pure (if retained then Inr user
             else raiseRF ''Keycloak did not retain routing attributes for '' user)))))))))))"

section \<open>Main\<close>

definition read_env_line :: "(pystr \<times> pystr) list \<Rightarrow> pystr \<Rightarrow> (pystr \<times> pystr) list res" where
  "read_env_line acc line =
     (if line = [] \<or> starts_with [35] line then Inr acc
      else case py_partition 61 line of (key, found, v) \<Rightarrow>
        if found then Inr (AList.update key v acc) else raiseV ''not enough values to unpack (expected 2, got 1)'')"

definition read_env_text :: "pystr \<Rightarrow> (pystr \<times> pystr) list res" where
  "read_env_text source = foldr_res read_env_line [] (splitlines source)"

text \<open>The texts of the input files and the outcome of loading the CA, as the run finds them.\<close>

record sync_inputs =
  in_secrets :: "pystr res"
  in_realm :: "pystr res"
  in_profile :: "pystr res"
  in_context :: "unit res"
  in_str :: "pyval \<Rightarrow> pystr"

record sync_plan =
  sp_realm :: pydict
  sp_clients :: "client_action list"
  sp_provider :: provider_action

definition load_inputs :: "konnect \<Rightarrow> sync_inputs \<Rightarrow> ((pystr \<times> pystr) list \<times> pyval \<times> pyval) res" where
  "load_inputs k inp =
     (let load = json_loads (plain_opts (kn_floats k)) (kn_depth k) in
      rbind (rbind (in_secrets inp) read_env_text) (\<lambda>secrets.
      rbind (rbind (in_realm inp) load) (\<lambda>desired_realm.
      rbind (rbind (in_profile inp) load) (\<lambda>desired_profile.
      rbind (key_provider_admin_payload desired_realm) (\<lambda>_.
      rbind (in_context inp) (\<lambda>_. Inr (secrets, desired_realm, desired_profile)))))))"

text \<open>Everything that is planned before the first write.\<close>

definition prepare_all :: "konnect \<Rightarrow> (pystr \<times> pystr) list \<Rightarrow> pyval \<Rightarrow> (pyval \<times> sync_plan) act" where
  "prepare_all k secrets desired_realm =
     abind (wait_for_keycloak k secrets) (\<lambda>_.
     abind (prepare_realm_sync k desired_realm) (\<lambda>realm_plan.
     abind (pure (index_str desired_realm ''clients'')) (\<lambda>clients.
     abind (prepare_client_sync k clients) (\<lambda>client_plan.
     abind (prepare_key_provider_sync k desired_realm) (\<lambda>key_provider_plan.
     pure (Inr (clients, \<lparr>sp_realm = realm_plan, sp_clients = client_plan, sp_provider = key_provider_plan\<rparr>)))))))"

definition apply_all :: "konnect \<Rightarrow> sync_plan \<Rightarrow> (bool \<times> (nat \<times> nat) \<times> bool) act" where
  "apply_all k plan =
     abind (apply_key_provider_sync k (sp_provider plan)) (\<lambda>key_provider_changed.
     abind (apply_client_sync k (sp_clients plan)) (\<lambda>synced.
     abind (apply_realm_sync k (sp_realm plan)) (\<lambda>realm_changed.
     pure (Inr (key_provider_changed, synced, realm_changed)))))"

definition verify_all :: "konnect \<Rightarrow> pyval \<Rightarrow> pyval \<Rightarrow> unit act" where
  "verify_all k clients desired_realm =
     abind (verify_client_sync k clients) (\<lambda>_.
     abind (verify_realm_sync k desired_realm) (\<lambda>_.
     verify_key_provider_sync k desired_realm))"

text \<open>The number of elements of a set of names, under Python equality.\<close>

fun count_names :: "pyval list \<Rightarrow> nat" where
  "count_names [] = 0"
| "count_names (n # ns) = (if list_ex (py_eq n) ns then 0 else 1) + count_names ns"

definition keycloak_main :: "konnect \<Rightarrow> sync_inputs \<Rightarrow> (nat \<times> nat \<times> bool \<times> (nat \<times> nat) \<times> bool) act" where
  "keycloak_main k inp =
     abind (pure (load_inputs k inp)) (\<lambda>(secrets, desired_realm, desired_profile).
     abind (prepare_all k secrets desired_realm) (\<lambda>(clients, plan).
     abind (apply_all k plan) (\<lambda>changes.
     abind (verify_all k clients desired_realm) (\<lambda>_.
     abind (sync_profile k desired_profile) (\<lambda>desired_names.
     abind (pure (rbind (index_str desired_realm ''users'') loop_over)) (\<lambda>users.
     abind (amap (sync_user (in_str inp) k) users) (\<lambda>synced.
     pure (Inr (count_names desired_names, length synced, changes)))))))))"

section \<open>Which requests a run sends\<close>

definition in_realm_path :: "api_request \<Rightarrow> bool" where
  "in_realm_path rq \<longleftrightarrow> starts_with (lit ''/admin/realms/fapi-demo'') (rq_url rq)"

definition reading :: "api_request \<Rightarrow> bool" where
  "reading rq \<longleftrightarrow> rq_method rq = GET \<and> in_realm_path rq"

definition token_request :: "api_request \<Rightarrow> bool" where
  "token_request rq \<longleftrightarrow> rq_method rq = POST \<and> rq_url rq = token_path"

lemma admin_path [simp]: "starts_with (lit ''/admin/realms/fapi-demo'') (admin path)"
  by (simp add: admin_def starts_with_def)

lemma admin_path_append [simp]: "starts_with (lit ''/admin/realms/fapi-demo'') (admin path @ rest)"
  by (simp add: admin_def starts_with_def)

lemma reading_get [simp]: "reading (kc_get (admin path))"
  by (simp add: reading_def in_realm_path_def kc_get_def)

lemma sends_kc_request: "P rq \<Longrightarrow> sends P (kc_request k rq)"
  by (auto simp: sends_def kc_request_def)

lemma sends_amap: "(\<And>x. x \<in> set xs \<Longrightarrow> sends P (f x)) \<Longrightarrow> sends P (amap f xs)"
  by (induction xs) (auto intro!: sends_abind sends_pure)

lemma clients_query_path: "clients_query i = Inr path \<Longrightarrow> reading (kc_get path)"
  by (auto simp: clients_query_def rbind_eq_Inr_iff)

lemma mappers_path_path: "mappers_path i = Inr path \<Longrightarrow> starts_with (lit ''/admin/realms/fapi-demo'') (path @ rest)"
  by (auto simp: mappers_path_def rbind_eq_Inr_iff)

lemmas sends_rules = sends_if sends_pure_bind sends_pure sends_kc_request sends_abind sends_amap sends_each

lemma reading_prepare_key: "sends reading (prepare_key_provider_sync k d)"
  unfolding prepare_key_provider_sync_def by (intro sends_rules) simp

lemma reading_prepare_realm: "sends reading (prepare_realm_sync k d)"
  unfolding prepare_realm_sync_def by (intro sends_rules) simp

lemma reading_lookup: "sends reading (lookup_client k i)"
  unfolding lookup_client_def by (intro sends_rules) (rule clients_query_path)

lemma reading_mappers: "sends reading (prepare_mappers k ad)"
proof -
  have "reading (kc_get path)" if "mappers_path i = Inr path" for path i
    using mappers_path_path [OF that, of "[]"] by (simp add: reading_def in_realm_path_def kc_get_def)
  then show ?thesis
    by (cases ad) (auto simp: prepare_mappers_def intro!: sends_rules)
qed

lemma reading_prepare_clients: "sends reading (prepare_client_sync k d)"
  unfolding prepare_client_sync_def by (intro sends_rules reading_lookup reading_mappers)

lemma reading_verify: "sends reading (verify_all k clients d)"
  unfolding verify_all_def verify_client_sync_def verify_realm_sync_def verify_key_provider_sync_def
  by (intro sends_rules reading_prepare_clients reading_prepare_realm reading_prepare_key)

lemma token_requests: "sends token_request (wait_loop k secrets n)"
proof (induction n)
  case (Suc n)
  have "sends token_request (admin_token k secrets)"
    by (auto simp: admin_token_def token_request_def intro!: sends_rules split: option.split)
  then show ?case using Suc by (auto intro!: sends_atry sends_rules)
qed (simp add: sends_pure)

text \<open>The preparation asks for tokens and reads; nothing is written.\<close>

lemma prepare_all_reads: "sends (\<lambda>rq. token_request rq \<or> reading rq) (prepare_all k secrets d)"
  unfolding prepare_all_def wait_for_keycloak_def
  by (intro sends_rules sends_mono [OF token_requests] sends_mono [OF reading_prepare_realm]
      sends_mono [OF reading_prepare_clients] sends_mono [OF reading_prepare_key]) auto

lemma writes_in_realm:
  "in_realm_path (kc_send m (admin path) body)" "reading rq \<Longrightarrow> in_realm_path rq"
  by (simp_all add: in_realm_path_def reading_def kc_send_def)

lemma apply_client_realm: "sends in_realm_path (apply_client k a)"
  unfolding apply_client_def
  by (cases "ca_operation a") (auto intro!: sends_rules writes_in_realm dest: clients_query_path)

lemma apply_mappers_realm: "sends in_realm_path (apply_mappers k uuids a)"
proof -
  have "sends in_realm_path (apply_mapper k path ma)" if "mappers_path i = Inr path" for path ma i
    using mappers_path_path [OF that, of "[]"] mappers_path_path [OF that]
    by (cases ma) (auto simp: apply_mapper_def in_realm_path_def kc_send_def intro!: sends_rules)
  then show ?thesis by (auto simp: apply_mappers_def split: option.split intro!: sends_rules)
qed

lemma apply_all_realm: "sends in_realm_path (apply_all k plan)"
proof -
  have "sends in_realm_path (apply_key_provider_sync k p)" for p
    by (cases p) (auto simp: apply_key_provider_sync_def intro!: sends_rules writes_in_realm)
  moreover have "sends in_realm_path (apply_realm_sync k p)" for p
    by (auto simp: apply_realm_sync_def intro!: sends_rules writes_in_realm)
  ultimately show ?thesis
    unfolding apply_all_def apply_client_sync_def by (intro sends_rules apply_client_realm apply_mappers_realm)
qed

lemma sync_user_realm: "sends in_realm_path (sync_user str_of k u)"
  unfolding sync_user_def Let_def by (intro sends_rules writes_in_realm reading_get)

lemma sync_profile_realm: "sends in_realm_path (sync_profile k d)"
  unfolding sync_profile_def by (intro sends_rules writes_in_realm reading_get)

definition after_plan :: "konnect \<Rightarrow> sync_inputs \<Rightarrow> pyval \<Rightarrow> pyval \<Rightarrow> pyval \<Rightarrow> sync_plan
    \<Rightarrow> (nat \<times> nat \<times> bool \<times> (nat \<times> nat) \<times> bool) act" where
  "after_plan k inp desired_realm desired_profile clients plan =
     abind (apply_all k plan) (\<lambda>changes.
     abind (verify_all k clients desired_realm) (\<lambda>_.
     abind (sync_profile k desired_profile) (\<lambda>desired_names.
     abind (pure (rbind (index_str desired_realm ''users'') loop_over)) (\<lambda>users.
     abind (amap (sync_user (in_str inp) k) users) (\<lambda>synced.
     pure (Inr (count_names desired_names, length synced, changes)))))))"

lemma keycloak_main_eq:
  "keycloak_main k inp =
     abind (pure (load_inputs k inp)) (\<lambda>(secrets, desired_realm, desired_profile).
     abind (prepare_all k secrets desired_realm) (\<lambda>(clients, plan).
     after_plan k inp desired_realm desired_profile clients plan))"
  by (simp add: keycloak_main_def after_plan_def)

lemma after_plan_realm: "sends in_realm_path (after_plan k inp r p c plan)"
  unfolding after_plan_def
  by (intro sends_rules apply_all_realm sends_mono [OF reading_verify] writes_in_realm sync_profile_realm sync_user_realm)

text \<open>
  C27: A run of the synchronisation sends nothing but token requests and requests under the
  administration path of the demo realm, and it does not send a single write unless the inputs were
  loaded and the realm, client and key provider plans were all computed first: a run whose
  preparation fails has only read.
\<close>

theorem keycloak_sync_requests:
  assumes "keycloak_main k inp h = (r, h')"
  shows "\<exists>new. h' = h @ new \<and> list_all (\<lambda>rq. token_request rq \<or> in_realm_path rq) new
    \<and> (list_all (\<lambda>rq. token_request rq \<or> reading rq) new
       \<or> (\<exists>secrets realm profile plans h1. load_inputs k inp = Inr (secrets, realm, profile)
            \<and> prepare_all k secrets realm h = (Inr plans, h1) \<and> prefix h1 h'))"
proof (cases "load_inputs k inp")
  case (Inl e)
  then have "h' = h" using assms by (simp add: keycloak_main_eq abind_def pure_def)
  then show ?thesis by (intro exI [of _ "[]"]) simp
next
  case (Inr x)
  obtain secrets realm profile where x: "x = (secrets, realm, profile)" by (cases x)
  let ?rest = "\<lambda>(clients, plan). after_plan k inp realm profile clients plan"
  have run: "abind (prepare_all k secrets realm) ?rest h = (r, h')"
    using assms Inr by (simp add: keycloak_main_eq x abind_def pure_def)
  obtain r1 h1 where one: "prepare_all k secrets realm h = (r1, h1)" by (cases "prepare_all k secrets realm h")
  obtain n1 where n1: "h1 = h @ n1" "list_all (\<lambda>rq. token_request rq \<or> reading rq) n1"
    using sends_run [OF prepare_all_reads one] by blast
  then have w1: "list_all (\<lambda>rq. token_request rq \<or> in_realm_path rq) n1" using writes_in_realm(2) by (auto simp: list_all_iff)
  show ?thesis
  proof (cases r1)
    case (Inl e)
    then have "h' = h1" using run one by (simp add: abind_def)
    then show ?thesis using n1 w1 by blast
  next
    case (Inr plans)
    then have "?rest plans h1 = (r, h')" using run one by (simp add: abind_def)
    then obtain n2 where n2: "h' = h1 @ n2" "list_all in_realm_path n2"
      using sends_run [OF after_plan_realm] by (cases plans) fastforce
    have "prefix h1 h'" using n2(1) by simp
    then show ?thesis
      using n1 w1 n2 Inr one x \<open>load_inputs k inp = Inr x\<close>
      by (intro exI [of _ "n1 @ n2"]) (auto simp: list_all_iff)
  qed
qed

text \<open>
  What follows the read-back concerns the user profile and the demo users: it reads below the
  administration path of the realm, and it writes below the path of the users alone.
\<close>

definition user_request :: "api_request \<Rightarrow> bool" where
  "user_request rq \<longleftrightarrow> reading rq \<or> starts_with (admin (lit ''/users/'')) (rq_url rq)"

lemma users_path: "starts_with (admin (lit ''/users/'')) (admin (lit ''/users/'' @ rest))"
  by (simp add: admin_def starts_with_def)

lemma user_requests_write [simp]:
  "user_request (kc_send m (admin (lit ''/users/'' @ rest)) body)" "user_request (kc_get (admin path))"
  by (simp_all add: user_request_def users_path) (simp add: kc_send_def users_path)

lemma user_request_profile: "user_request (kc_send m (admin (lit ''/users/profile'')) body)"
  using user_requests_write(1) [of m "lit ''profile''"] by (simp add: lit_def)

lemma sync_user_users: "sends user_request (sync_user str_of k u)"
  unfolding sync_user_def Let_def by (intro sends_rules user_requests_write)

lemma sync_profile_users: "sends user_request (sync_profile k d)"
  unfolding sync_profile_def by (intro sends_rules user_requests_write user_request_profile)

lemma verify_all_plans:
  assumes "verify_all k clients realm h = (Inr (), h')"
  obtains plan h1 h2 id where "prepare_client_sync k clients h = (Inr plan, h1)"
    "list_all (\<lambda>a. ca_operation a = Noop \<and> ca_mapper_plan a = []) plan"
    "prepare_realm_sync k realm h1 = (Inr [], h2)"
    "prepare_key_provider_sync k realm h2 = (Inr (Provider_Noop id), h')"
proof -
  from assms obtain plan h1 h2 rem kp where steps: "prepare_client_sync k clients h = (Inr plan, h1)"
    "\<not> list_ex (\<lambda>a. ca_operation a \<noteq> Noop \<or> ca_mapper_plan a \<noteq> []) plan"
    "prepare_realm_sync k realm h1 = (Inr rem, h2)" "rem = []"
    "prepare_key_provider_sync k realm h2 = (Inr kp, h')" "\<not> (case kp of Provider_Noop _ \<Rightarrow> False | _ \<Rightarrow> True)"
    by (auto simp: verify_all_def verify_client_sync_def verify_realm_sync_def verify_key_provider_sync_def abind_Inr_iff
        raise_if_eq_Inr_iff)
  obtain i where "kp = Provider_Noop i" using steps(6) by (cases kp) auto
  moreover have "list_all (\<lambda>a. ca_operation a = Noop \<and> ca_mapper_plan a = []) plan"
    using steps(2) by (auto simp: list_all_iff list_ex_iff)
  ultimately show thesis using steps that by blast
qed

text \<open>
  C28: A run that reports success has verified its work on clients, realm settings and key provider,
  after the last write to them. Its requests are, in this order: those of the preparation, which only
  reads and asks for tokens; those that apply the plans the preparation computed; those of the
  read-back, all of them reads, from whose answers the client, realm and key provider plans are
  computed again and have nothing left to do; and those for the user profile and the demo users, whose
  writes stay below the path of the users. The profile is written without being read back.
\<close>

theorem keycloak_sync_verified:
  assumes "keycloak_main k inp h = (Inr x, h')"
  shows "\<exists>secrets realm profile clients plans changes remaining id planned writes readback later h1 h2.
    load_inputs k inp = Inr (secrets, realm, profile) \<and> index_str realm ''clients'' = Inr clients
    \<and> h' = h @ planned @ writes @ readback @ later
    \<and> list_all (\<lambda>rq. token_request rq \<or> reading rq) planned \<and> list_all reading readback
    \<and> list_all user_request later
    \<and> prepare_all k secrets realm h = (Inr (clients, plans), h @ planned)
    \<and> apply_all k plans (h @ planned) = (Inr changes, h @ planned @ writes)
    \<and> prepare_client_sync k clients (h @ planned @ writes) = (Inr remaining, h1)
    \<and> list_all (\<lambda>a. ca_operation a = Noop \<and> ca_mapper_plan a = []) remaining
    \<and> prepare_realm_sync k realm h1 = (Inr [], h2)
    \<and> prepare_key_provider_sync k realm h2 = (Inr (Provider_Noop id), h @ planned @ writes @ readback)"
proof -
  obtain secrets realm profile where inputs: "load_inputs k inp = Inr (secrets, realm, profile)"
    using assms by (auto simp: keycloak_main_eq abind_Inr_iff)
  obtain clients plans h0 where prepared: "prepare_all k secrets realm h = (Inr (clients, plans), h0)"
    and after: "after_plan k inp realm profile clients plans h0 = (Inr x, h')"
    using assms inputs by (auto simp: keycloak_main_eq abind_Inr_iff)
  have clients: "index_str realm ''clients'' = Inr clients"
    using prepared by (auto simp: prepare_all_def abind_Inr_iff)
  let ?tail = "\<lambda>c1. abind (sync_profile k profile) (\<lambda>desired_names.
     abind (pure (rbind (index_str realm ''users'') loop_over)) (\<lambda>users.
     abind (amap (sync_user (in_str inp) k) users) (\<lambda>synced.
     pure (Inr (count_names desired_names, length synced, c1)))))"
  from after obtain changes h1 h5 where run: "apply_all k plans h0 = (Inr changes, h1)" "verify_all k clients realm h1 = (Inr (), h5)"
    and rest: "?tail changes h5 = (Inr x, h')"
    unfolding after_plan_def abind_Inr_iff [of "apply_all k plans"] abind_Inr_iff [of "verify_all k clients realm"] by auto
  have "sends user_request (?tail changes)" by (intro sends_rules sync_profile_users sync_user_users)
  then obtain later where later: "h' = h5 @ later" "list_all user_request later"
    using sends_run [where m = "?tail changes" and h = h5] rest by blast
  obtain readback where readback: "h5 = h1 @ readback" "list_all reading readback"
    using sends_run [OF reading_verify run(2)] by blast
  obtain writes where writes: "h1 = h0 @ writes" using sends_run [OF apply_all_realm run(1)] by blast
  obtain planned where planned: "h0 = h @ planned" "list_all (\<lambda>rq. token_request rq \<or> reading rq) planned"
    using sends_run [OF prepare_all_reads prepared] by blast
  obtain remaining h2 h3 id where again: "prepare_client_sync k clients h1 = (Inr remaining, h2)"
    "list_all (\<lambda>a. ca_operation a = Noop \<and> ca_mapper_plan a = []) remaining"
    "prepare_realm_sync k realm h2 = (Inr [], h3)" "prepare_key_provider_sync k realm h3 = (Inr (Provider_Noop id), h5)"
    by (rule verify_all_plans [OF run(2)])
  have "h' = h @ planned @ writes @ readback @ later" using planned writes readback later by simp
  then show ?thesis
    using inputs clients prepared run(1) again readback(2) later(2) planned(2)
    unfolding readback(1) writes planned(1) append.assoc by blast
qed

lemma wait_loop_bounded: "wait_loop k secrets n h = (r, h') \<Longrightarrow> length h' \<le> length h + n"
proof (induction n arbitrary: h)
  case (Suc n)
  obtain r1 h1 where one: "admin_token k secrets h = (r1, h1)" by (cases "admin_token k secrets h")
  have len: "length h1 \<le> Suc (length h)"
    using one by (auto simp: admin_token_def abind_def pure_def kc_request_def split: option.splits sum.splits)
  show ?case
  proof (cases r1)
    case (Inl e)
    then show ?thesis using Suc.prems Suc.IH [of h1] one len by (auto simp: atry_def pure_def split: if_splits)
  next
    case (Inr x)
    then show ?thesis using Suc.prems one len by (auto simp: atry_def)
  qed
qed (simp add: pure_def)

text \<open>
  C40: Waiting for Keycloak ends: whatever the service answers, at most thirty requests are sent, all of
  them token requests, and the wait returns or raises after them.
\<close>

theorem wait_for_keycloak_ends:
  "\<exists>r new. wait_for_keycloak k secrets h = (r, h @ new) \<and> length new \<le> 30 \<and> list_all token_request new"
proof -
  obtain r h' where run: "wait_loop k secrets 30 h = (r, h')" by (cases "wait_loop k secrets 30 h")
  obtain new where "h' = h @ new" "list_all token_request new" using sends_run [OF token_requests run] by blast
  then show ?thesis using run wait_loop_bounded [OF run] by (auto simp: wait_for_keycloak_def)
qed

section \<open>A run\<close>

text \<open>
  A Keycloak whose realm is disabled until it is written, with the three clients and the key provider
  in place and no users.
\<close>

definition demo_client :: "pystr \<Rightarrow> pydict" where
  "demo_client i =
     map (\<lambda>f. (K f, if f = ''clientId'' then PStr i else if f = ''attributes'' then PDict []
                    else if f \<in> {''redirectUris'', ''webOrigins''} then PList [] else PBool True)) CLIENT_ADMIN_FIELDS"

definition demo_provider :: "(string \<times> pyval) list" where
  "demo_provider = [(''name'', S MANAGED_KEY_PROVIDER_NAME), (''providerId'', S MANAGED_KEY_PROVIDER_ID),
     (''config'', MANAGED_KEY_PROVIDER_CONFIG)]"

definition demo_realm :: pyval where
  "demo_realm = obj (map (\<lambda>f. (f, PBool True)) BASE_FIELDS
     @ [(''clientPolicies'', PDict []), (''clientProfiles'', PDict []),
        (''clients'', PList (map (\<lambda>i. PDict (demo_client (lit i) @ [(K ''protocolMappers'', PList [])])) SORTED_CLIENT_IDS)),
        (''components'', obj [(KEY_PROVIDER_TYPE, PList [obj demo_provider])]), (''users'', PList [])])"

definition live_realm :: "bool \<Rightarrow> pyval" where
  "live_realm enabled = obj (map (\<lambda>f. (f, PBool (enabled \<or> f \<noteq> ''enabled''))) BASE_FIELDS
     @ [(''clientPolicies'', obj [(''policies'', PList [])]), (''clientProfiles'', obj [(''profiles'', PList [])])])"

definition demo_answer :: "history \<Rightarrow> api_request \<Rightarrow> pyval" where
  "demo_answer h rq =
     (if rq_url rq = token_path then obj [(''access_token'', S ''t'')]
      else if rq_url rq = admin [] then live_realm (list_ex (\<lambda>r. rq_method r = PUT \<and> rq_url r = admin []) h)
      else if rq_url rq = admin (lit (''/components?name='' @ MANAGED_KEY_PROVIDER_NAME))
      then PList [obj ([(''id'', S ''c''), (''providerType'', S KEY_PROVIDER_TYPE)] @ demo_provider)]
      else if rq_url rq = admin (lit ''/users/profile'') then obj [(''attributes'', PList [])]
      else case find (\<lambda>i. rq_url rq = admin (lit (''/clients?clientId='' @ i))) SORTED_CLIENT_IDS of
        Some i \<Rightarrow> PList [PDict ((K ''id'', S ''u'') # demo_client (lit i))]
      | None \<Rightarrow> PList [])"

definition demo_codec :: float_codec where
  "demo_codec = \<lparr>of_text = (\<lambda>_. FNan), to_text = (\<lambda>_. [])\<rparr>"

definition demo_keycloak :: konnect where
  "demo_keycloak = \<lparr>answer = (\<lambda>h rq. Answer 200 (json_body demo_codec (demo_answer h rq))), kn_floats = demo_codec,
     kn_depth = 20, kn_wide = (\<lambda>_. Inl UnicodeDecodeError)\<rparr>"

definition demo_inputs :: sync_inputs where
  "demo_inputs = \<lparr>in_secrets = Inr (lit ''KEYCLOAK_ADMIN_USERNAME=a'' @ [10] @ lit ''KEYCLOAK_ADMIN_PASSWORD=b''),
     in_realm = Inr (json_dumps demo_codec demo_realm), in_profile = Inr (json_dumps demo_codec (obj [(''attributes'', PList [])])),
     in_context = Inr (), in_str = (\<lambda>_. [])\<rparr>"

lemma kc_demo_request:
  assumes "json_plain (demo_answer h rq)" "json_depth (demo_answer h rq) \<le> 20"
  shows "kc_request demo_keycloak rq h = (Inr (demo_answer h rq), h @ [rq])"
proof -
  have "response_value demo_keycloak (json_body demo_codec (demo_answer h rq)) = Inr (demo_answer h rq)"
    by (rule response_value_body) (use assms in \<open>simp_all add: demo_keycloak_def\<close>)
  moreover have "json_body demo_codec (demo_answer h rq) \<noteq> []"
    using dumps_head [OF assms(1), of demo_codec] by (auto simp: json_body_def)
  ultimately show ?thesis by (simp add: kc_request_def) (simp add: demo_keycloak_def)
qed

lemmas demo_defs = obj_def strs_def lit_scalar demo_client_def demo_provider_def demo_realm_def live_realm_def
  CLIENT_ADMIN_FIELDS_def BASE_FIELDS_def REALM_ADMIN_FIELDS_def MANAGED_KEY_PROVIDER_CONFIG_def SORTED_CLIENT_IDS_def

lemma demo_plain:
  "json_plain (live_realm b)" "json_depth (live_realm b) \<le> 20"
  "json_plain demo_realm" "json_depth demo_realm \<le> 20"
  "json_plain (PList [PDict ((K ''id'', S ''u'') # demo_client (lit i))])"
  "json_depth (PList [PDict ((K ''id'', S ''u'') # demo_client (lit i))]) \<le> 20"
  "json_plain (PList [obj ([(''id'', S ''c''), (''providerType'', S KEY_PROVIDER_TYPE)] @ demo_provider)])"
  "json_depth (PList [obj ([(''id'', S ''c''), (''providerType'', S KEY_PROVIDER_TYPE)] @ demo_provider)]) \<le> 20"
  by (simp_all add: demo_defs)

lemma admin_inject [simp]: "admin p = admin q \<longleftrightarrow> p = q" "admin p \<noteq> token_path" "token_path \<noteq> admin p"
  by (simp_all add: admin_def token_path_def lit_def)

lemma demo_token: "wait_for_keycloak demo_keycloak [(lit ''KEYCLOAK_ADMIN_USERNAME'', a), (lit ''KEYCLOAK_ADMIN_PASSWORD'', b)] h
  = (Inr (S ''t''), h @ [\<lparr>rq_method = POST, rq_url = token_path, rq_query = [(''grant_type'', lit ''password''), (''client_id'', lit ''admin-cli''),
                               (''username'', a), (''password'', b)], rq_body = None\<rparr>])"
proof -
  have thirty: "(30 :: nat) = Suc 29" by simp
  show ?thesis
    unfolding wait_for_keycloak_def thirty wait_loop.simps(2)
    by (simp add: atry_def admin_token_def abind_def pure_def kc_demo_request demo_answer_def obj_def index_str_def ditem_def lit_scalar)
qed

lemma demo_realm_read:
  "kc_request demo_keycloak (kc_get (admin [])) h
   = (Inr (live_realm (list_ex (\<lambda>r. rq_method r = PUT \<and> rq_url r = admin []) h)), h @ [kc_get (admin [])])"
  by (subst kc_demo_request) (simp_all add: demo_answer_def kc_get_def demo_plain)

lemma demo_key_payload: "key_provider_admin_payload demo_realm = Inr key_provider_payload"
  by (simp add: key_provider_admin_payload_def named_matches_def demo_defs dict_simps Let_def keys_are_def
      MANAGED_KEY_PROVIDER_NAME_def MANAGED_KEY_PROVIDER_ID_def KEY_PROVIDER_TYPE_def dlookup_KStr)

lemma demo_load:
  "load_inputs demo_keycloak demo_inputs
   = Inr ([(lit ''KEYCLOAK_ADMIN_USERNAME'', lit ''a''), (lit ''KEYCLOAK_ADMIN_PASSWORD'', lit ''b'')], demo_realm,
          obj [(''attributes'', PList [])])"
proof -
  have "read_env_text (lit ''KEYCLOAK_ADMIN_USERNAME=a'' @ [10] @ lit ''KEYCLOAK_ADMIN_PASSWORD=b'')
      = Inr [(lit ''KEYCLOAK_ADMIN_USERNAME'', lit ''a''), (lit ''KEYCLOAK_ADMIN_PASSWORD'', lit ''b'')]"
    by (simp add: read_env_text_def read_env_line_def splitlines_def is_line_end_def lit_def py_partition_def starts_with_def)
  moreover have "json_loads (plain_opts demo_codec) 20 (json_dumps demo_codec demo_realm) = Inr demo_realm"
    by (rule json_loads_dumps [OF plain_opts_keeps_pairs demo_plain(3,4)])
  moreover have "json_loads (plain_opts demo_codec) 20 (json_dumps demo_codec (obj [(''attributes'', PList [])]))
      = Inr (obj [(''attributes'', PList [])])"
    by (rule json_loads_dumps [OF plain_opts_keeps_pairs]) (simp_all add: obj_def lit_scalar)
  ultimately show ?thesis
    using demo_key_payload by (simp add: load_inputs_def demo_inputs_def demo_keycloak_def)
qed

lemma demo_realm_payload:
  "realm_admin_payload (live_realm b) demo_realm = Inr (if b then [] else [(K ''enabled'', PBool True)])"
  by (simp add: realm_admin_payload_def realm_group_def merge_group_def merge_named_entries_def REALM_GROUPS_def
      demo_defs dict_simps dget_or_def Let_def project_def differing_def lookup_or_none_def dset_def dlookup_KStr fin_eq_def)

lemma demo_prepare_realm:
  "prepare_realm_sync demo_keycloak demo_realm h
   = (Inr (if list_ex (\<lambda>r. rq_method r = PUT \<and> rq_url r = admin []) h then [] else [(K ''enabled'', PBool True)]),
      h @ [kc_get (admin [])])"
  by (simp add: prepare_realm_sync_def abind_def demo_realm_read demo_realm_payload pure_def)
     (simp add: live_realm_def obj_def)

lemma demo_prepare_key:
  "\<exists>new. prepare_key_provider_sync demo_keycloak demo_realm h = (Inr (Provider_Noop (lit ''c'')), h @ new)
    \<and> \<not> list_ex (\<lambda>r. rq_method r = PUT \<and> rq_url r = admin []) new"
proof -
  let ?rq = "kc_get (admin (lit (''/components?name='' @ MANAGED_KEY_PROVIDER_NAME)))"
  let ?live = "PList [obj ([(''id'', S ''c''), (''providerType'', S KEY_PROVIDER_TYPE)] @ demo_provider)]"
  have "demo_answer h ?rq = ?live" by (simp add: demo_answer_def kc_get_def)
  then have "kc_request demo_keycloak ?rq h = (Inr ?live, h @ [?rq])"
    using kc_demo_request [of h ?rq] demo_plain(7,8) by simp
  moreover have "plan_key_provider_sync key_provider_payload ?live = Inr (Provider_Noop (lit ''c''))"
    by (simp add: plan_key_provider_sync_def is_managed_payload_def key_provider_payload_def named_matches_def demo_defs
        dict_simps Let_def keys_are_def MANAGED_KEY_PROVIDER_NAME_def MANAGED_KEY_PROVIDER_ID_def KEY_PROVIDER_TYPE_def
        dlookup_KStr config_well_formed_def attributes_covered_def lookup_or_none_def)
  ultimately have "prepare_key_provider_sync demo_keycloak demo_realm h = (Inr (Provider_Noop (lit ''c'')), h @ [?rq])"
    by (simp add: prepare_key_provider_sync_def demo_key_payload abind_def pure_def)
  then show ?thesis by (intro exI [of _ "[?rq]"]) (simp add: kc_get_def)
qed

text \<open>Unreserved characters are not escaped.\<close>

lemma unreserved_ascii: "unreserved c \<Longrightarrow> c < 128 \<and> c \<noteq> 32"
  by (auto simp: unreserved_def is_digit_def)

lemma quote_unreserved:
  assumes "list_all unreserved s"
  shows "quote_plus s = Inr s" "py_quote s = Inr s"
proof -
  have "list_all (\<lambda>c. c < 128) s" using assms unreserved_ascii by (auto simp: list_all_iff)
  then have enc: "utf8_encode s = Inr (map char_of s)" by (rule utf8_encode_ascii)
  have one: "unreserved c \<Longrightarrow> c mod 256 = c" "unreserved c \<Longrightarrow> c \<noteq> 32" "unreserved c \<Longrightarrow> quote_byte c = [c]" for c
    using unreserved_ascii [of c] by (auto simp: quote_byte_def)
  have "concat (map (\<lambda>b. if b = char_of (32 :: nat) then [43] else quote_byte (of_char b)) (map char_of s)) = s"
    and "concat (map (\<lambda>b. quote_byte (of_char b)) (map char_of s)) = s"
    using assms by (induction s) (simp_all add: one)
  then show "quote_plus s = Inr s" "py_quote s = Inr s" by (simp_all only: quote_plus_def py_quote_def enc rbind_Inr)
qed

lemma demo_lookup:
  assumes "i \<in> set SORTED_CLIENT_IDS"
  shows "lookup_client demo_keycloak (lit i) h
    = (Inr (lit i, PList [PDict ((K ''id'', S ''u'') # demo_client (lit i))]), h @ [kc_get (admin (lit (''/clients?clientId='' @ i)))])"
proof -
  let ?rq = "kc_get (admin (lit (''/clients?clientId='' @ i)))"
  have "list_all unreserved (lit i)"
    using assms by (auto simp: SORTED_CLIENT_IDS_def lit_def unreserved_def is_digit_def)
  then have path: "clients_query (lit i) = Inr (admin (lit (''/clients?clientId='' @ i)))"
    by (simp only: clients_query_def quote_unreserved(1) rbind_Inr lit_append)
  have "demo_answer h ?rq = PList [PDict ((K ''id'', S ''u'') # demo_client (lit i))]"
    using assms by (auto simp: demo_answer_def kc_get_def SORTED_CLIENT_IDS_def MANAGED_KEY_PROVIDER_NAME_def)
  then have "kc_request demo_keycloak ?rq h = (Inr (PList [PDict ((K ''id'', S ''u'') # demo_client (lit i))]), h @ [?rq])"
    using kc_demo_request [of h ?rq] demo_plain(5,6) by simp
  then show ?thesis by (simp add: lookup_client_def path abind_def pure_def)
qed

definition demo_action :: "string \<Rightarrow> client_action" where
  "demo_action i = \<lparr>ca_operation = Noop, ca_client_id = lit i, ca_client_uuid = lit ''u'', ca_payload = demo_client (lit i),
     ca_current = (K ''id'', S ''u'') # demo_client (lit i), ca_mapper_plan = []\<rparr>"

definition demo_desired :: "string \<Rightarrow> pyval" where
  "demo_desired i = PDict (demo_client (lit i) @ [(K ''protocolMappers'', PList [])])"

lemma demo_plan_client:
  assumes "i \<noteq> []" "f (lit i) = PList [PDict ((K ''id'', S ''u'') # demo_client (lit i))]"
  shows "plan_client f (demo_desired i) = Inr (demo_action i)"
proof -
  have payload: "client_admin_payload (demo_desired i) = Inr (demo_client (lit i))"
    using assms(1)
    by (simp add: client_admin_payload_def demo_desired_def demo_client_def CLIENT_ADMIN_FIELDS_def dict_simps Let_def
        keys_within_def mapper_names_def project_def ditem_def)
  have ids: "dget (demo_client (lit i)) ''clientId'' = PStr (lit i)"
    by (simp add: demo_client_def CLIENT_ADMIN_FIELDS_def dict_simps)
  have same: "comparable ((K ''id'', S ''u'') # demo_client (lit i)) (demo_client (lit i)) = demo_client (lit i)"
    by (simp add: comparable_def demo_client_def CLIENT_ADMIN_FIELDS_def dict_simps Let_def project_def
        attributes_covered_def dset_def)
  have "sane (PDict (demo_client (lit i)))" by (simp add: demo_client_def CLIENT_ADMIN_FIELDS_def)
  then have "py_eq (PDict (demo_client (lit i))) (PDict (demo_client (lit i)))" by (rule py_eq_refl)
  then show ?thesis
    using assms payload ids same by (simp add: plan_client_def demo_action_def dict_simps Let_def del: py_eq.simps)
qed

lemma demo_prepare_clients:
  "\<exists>new. prepare_client_sync demo_keycloak (PList (map demo_desired SORTED_CLIENT_IDS)) h
      = (Inr (map demo_action SORTED_CLIENT_IDS), h @ new)
    \<and> \<not> list_ex (\<lambda>r. rq_method r = PUT \<and> rq_url r = admin []) new"
proof -
  let ?ids = "SORTED_CLIENT_IDS"
  let ?found = "map (\<lambda>i. (lit i, PList [PDict ((K ''id'', S ''u'') # demo_client (lit i))])) ?ids"
  let ?reads = "map (\<lambda>i. kc_get (admin (lit (''/clients?clientId='' @ i)))) ?ids"
  have "amap (lookup_client demo_keycloak) (map lit is) h = (Inr (map (\<lambda>i. (lit i, PList [PDict ((K ''id'', S ''u'') # demo_client (lit i))])) is),
      h @ map (\<lambda>i. kc_get (admin (lit (''/clients?clientId='' @ i)))) is)" if "set is \<subseteq> set ?ids" for "is" h
    using that by (induction "is" arbitrary: h) (simp_all add: pure_def abind_def demo_lookup)
  then have found: "amap (lookup_client demo_keycloak) (map lit ?ids) h = (Inr ?found, h @ ?reads)" by blast
  let ?f = "\<lambda>client_id. case map_of ?found client_id of None \<Rightarrow> PNone | Some v \<Rightarrow> v"
  have "plan_client ?f (demo_desired i) = Inr (demo_action i)" if "i \<in> set ?ids" for i
    by (rule demo_plan_client) (use that in \<open>auto simp: SORTED_CLIENT_IDS_def\<close>)
  then have "mapr (plan_client ?f) (map demo_desired is) = Inr (map demo_action is)" if "set is \<subseteq> set ?ids" for "is"
    using that by (induction "is") simp_all
  then have plans: "mapr (plan_client ?f) (map demo_desired ?ids) = Inr (map demo_action ?ids)" by blast
  have plan: "plan_client_sync (PList (map demo_desired ?ids)) ?f = Inr (map demo_action ?ids)"
  proof -
    have "is_dict (demo_desired i)" "dget (the_dict (demo_desired i)) ''clientId'' = S i" for i
      by (simp_all add: demo_desired_def demo_client_def CLIENT_ADMIN_FIELDS_def dict_simps)
    then have ids: "map (\<lambda>c. dget (the_dict c) ''clientId'') (filter is_dict (map demo_desired ?ids)) = map S ?ids"
      by (simp add: filter_map comp_def)
    have "set (map S ?ids) = set (map S CLIENT_IDS)" "length ?ids = length CLIENT_IDS" "\<not> list_ex (\<lambda>i. \<not> is_str i) (map S ?ids)"
      by (auto simp: SORTED_CLIENT_IDS_def CLIENT_IDS_def)
    then show ?thesis unfolding plan_client_sync_def Let_def using plans ids by (simp only: is_list.simps the_list.simps) simp
  qed
  obtain path where path: "mappers_path (lit ''u'') = Inr path" "path = admin (lit ''/clients/u/protocol-mappers/models'')"
    by (simp add: mappers_path_def quote_unreserved unreserved_def lit_def)
  have "demo_answer h (kc_get path) = PList []" for h
    by (simp add: demo_answer_def kc_get_def path(2) SORTED_CLIENT_IDS_def MANAGED_KEY_PROVIDER_NAME_def)
  then have empty: "kc_request demo_keycloak (kc_get path) h = (Inr (PList []), h @ [kc_get path])" for h
    using kc_demo_request [of h "kc_get path"] by simp
  have "prepare_mappers demo_keycloak (demo_action i, demo_desired i) h = (Inr (demo_action i), h @ [kc_get path])" for i h
    using path(1) by (simp add: prepare_mappers_def demo_action_def demo_desired_def empty abind_def pure_def plan_mapper_sync_def
        dict_simps) (simp add: demo_client_def CLIENT_ADMIN_FIELDS_def dict_simps)
  then have "amap (prepare_mappers demo_keycloak) (zip (map demo_action is) (map demo_desired is)) h
      = (Inr (map demo_action is), h @ map (\<lambda>_. kc_get path) is)" for "is" h
    by (induction "is" arbitrary: h) (simp_all add: pure_def abind_def)
  then have "prepare_client_sync demo_keycloak (PList (map demo_desired ?ids)) h
      = (Inr (map demo_action ?ids), (h @ ?reads) @ map (\<lambda>_. kc_get path) ?ids)"
    using found plan by (simp add: prepare_client_sync_def abind_def pure_def)
  moreover have "\<not> list_ex (\<lambda>r. rq_method r = PUT \<and> rq_url r = admin []) (?reads @ map (\<lambda>_. kc_get path) ?ids)"
    by (auto simp: list_ex_iff kc_get_def)
  ultimately show ?thesis unfolding append.assoc by (intro exI conjI)
qed

lemma demo_clients: "index_str demo_realm ''clients'' = Inr (PList (map demo_desired SORTED_CLIENT_IDS))"
  "index_str demo_realm ''users'' = Inr (PList [])"
  by (simp_all add: index_str_def demo_realm_def obj_def demo_desired_def ditem_def BASE_FIELDS_def REALM_ADMIN_FIELDS_def)

lemma demo_apply:
  "\<exists>r new. apply_all demo_keycloak \<lparr>sp_realm = [(K ''enabled'', PBool True)], sp_clients = map demo_action SORTED_CLIENT_IDS,
      sp_provider = Provider_Noop c\<rparr> h = (Inr r, h @ new @ [kc_send PUT (admin []) [(K ''enabled'', PBool True)]])"
proof -
  let ?ids = "SORTED_CLIENT_IDS"
  have clients: "amap (apply_client demo_keycloak) (map demo_action is) h = (Inr (map (\<lambda>i. (lit i, lit ''u'')) is), h)" for "is" h
    by (induction "is") (simp_all add: pure_def abind_def apply_client_def demo_action_def)
  obtain path where path: "mappers_path (lit ''u'') = Inr path"
    by (simp add: mappers_path_def quote_unreserved unreserved_def lit_def)
  have "map_of (rev (map (\<lambda>i. (lit i, lit ''u'')) ?ids)) (lit i) = Some (lit ''u'')" if "i \<in> set ?ids" for i
    using that by (auto simp: SORTED_CLIENT_IDS_def)
  then have "apply_mappers demo_keycloak (rev (map (\<lambda>i. (lit i, lit ''u'')) ?ids)) (demo_action i) h = (Inr (), h)"
    if "i \<in> set ?ids" for i h
    using that path by (simp add: apply_mappers_def demo_action_def abind_def pure_def)
  then have "each (apply_mappers demo_keycloak (rev (map (\<lambda>i. (lit i, lit ''u'')) ?ids))) (map demo_action is) h = (Inr (), h)"
    if "set is \<subseteq> set ?ids" for "is" h
    using that by (induction "is") (simp_all add: pure_def abind_def)
  then have mappers: "each (apply_mappers demo_keycloak (rev (map (\<lambda>i. (lit i, lit ''u'')) ?ids))) (map demo_action ?ids) h = (Inr (), h)" for h
    by blast
  let ?put = "kc_send PUT (admin []) [(K ''enabled'', PBool True)]"
  have "kc_request demo_keycloak ?put h = (Inr (demo_answer h ?put), h @ [?put])" for h
    by (rule kc_demo_request) (simp_all add: demo_answer_def kc_send_def demo_plain)
  then show ?thesis
    using clients mappers
    by (intro exI [of _ "(False, (0, 0), True)"] exI [of _ "[]"])
       (simp add: apply_all_def apply_key_provider_sync_def apply_client_sync_def apply_realm_sync_def abind_def pure_def demo_action_def filter_map comp_def)
qed

lemma demo_verify:
  assumes "list_ex (\<lambda>r. rq_method r = PUT \<and> rq_url r = admin []) h"
  shows "\<exists>h'. verify_all demo_keycloak (PList (map demo_desired SORTED_CLIENT_IDS)) demo_realm h = (Inr (), h')"
proof -
  obtain new where new: "prepare_client_sync demo_keycloak (PList (map demo_desired SORTED_CLIENT_IDS)) h
      = (Inr (map demo_action SORTED_CLIENT_IDS), h @ new)"
    using demo_prepare_clients [of h] by blast
  have "\<not> list_ex (\<lambda>a. ca_operation a \<noteq> Noop \<or> ca_mapper_plan a \<noteq> []) (map demo_action SORTED_CLIENT_IDS)"
    by (auto simp: list_ex_iff demo_action_def)
  then have "verify_client_sync demo_keycloak (PList (map demo_desired SORTED_CLIENT_IDS)) h = (Inr (), h @ new)"
    by (simp only: verify_client_sync_def abind_def new prod.case sum.case pure_def raise_if_def if_False)
  moreover have "verify_realm_sync demo_keycloak demo_realm (h @ new) = (Inr (), (h @ new) @ [kc_get (admin [])])"
    using assms by (simp add: verify_realm_sync_def abind_def demo_prepare_realm pure_def raise_if_def)
  moreover obtain new' where "prepare_key_provider_sync demo_keycloak demo_realm ((h @ new) @ [kc_get (admin [])])
      = (Inr (Provider_Noop (lit ''c'')), ((h @ new) @ [kc_get (admin [])]) @ new')"
    using demo_prepare_key by blast
  ultimately show ?thesis
    by (simp add: verify_all_def verify_key_provider_sync_def abind_def pure_def raise_if_def)
qed

lemma demo_profile: "\<exists>h'. sync_profile demo_keycloak (obj [(''attributes'', PList [])]) h = (Inr [], h')"
proof -
  have ask: "kc_request demo_keycloak rq h = (Inr (obj [(''attributes'', PList [])]), h @ [rq])"
    if "rq_url rq = admin (lit ''/users/profile'')" for rq h
  proof -
    have answer: "demo_answer h rq = obj [(''attributes'', PList [])]"
      using that by (simp add: demo_answer_def MANAGED_KEY_PROVIDER_NAME_def)
    show ?thesis using kc_demo_request [of h rq] unfolding answer by (simp add: obj_def lit_scalar)
  qed
  show ?thesis
    by (simp add: sync_profile_def abind_def pure_def ask kc_get_def kc_send_def)
       (simp add: obj_def index_str_def ditem_def list_of_def merged_profile_def loop_over_def abind_def pure_def ask)
qed

lemma kc_demo_run: "\<exists>x h'. keycloak_main demo_keycloak demo_inputs [] = (Inr x, h')"
proof -
  let ?env = "[(lit ''KEYCLOAK_ADMIN_USERNAME'', lit ''a''), (lit ''KEYCLOAK_ADMIN_PASSWORD'', lit ''b'')]"
  let ?written = "list_ex (\<lambda>r. rq_method r = PUT \<and> rq_url r = admin [])"
  let ?clients = "PList (map demo_desired SORTED_CLIENT_IDS)"
  let ?plan = "\<lparr>sp_realm = [(K ''enabled'', PBool True)], sp_clients = map demo_action SORTED_CLIENT_IDS,
      sp_provider = Provider_Noop (lit ''c'')\<rparr>"
  obtain h1 where h1: "wait_for_keycloak demo_keycloak ?env [] = (Inr (S ''t''), h1)" "\<not> ?written h1"
    using demo_token [of "lit ''a''" "lit ''b''" "[]"] by simp
  have realm: "prepare_realm_sync demo_keycloak demo_realm h1 = (Inr [(K ''enabled'', PBool True)], h1 @ [kc_get (admin [])])"
    using h1(2) by (simp only: demo_prepare_realm if_False)
  obtain h2 where h2: "prepare_client_sync demo_keycloak ?clients (h1 @ [kc_get (admin [])]) = (Inr (map demo_action SORTED_CLIENT_IDS), h2)"
    using demo_prepare_clients by blast
  obtain h3 where h3: "prepare_key_provider_sync demo_keycloak demo_realm h2 = (Inr (Provider_Noop (lit ''c'')), h3)"
    using demo_prepare_key by blast
  have prepared: "prepare_all demo_keycloak ?env demo_realm [] = (Inr (?clients, ?plan), h3)"
    by (simp only: prepare_all_def abind_def h1(1) realm demo_clients h2 h3 prod.case sum.case pure_def)
  obtain r h4 where h4: "apply_all demo_keycloak ?plan h3 = (Inr r, h4)" "?written h4"
    using demo_apply [of "lit ''c''" h3] by (auto simp: kc_send_def)
  obtain h5 where h5: "verify_all demo_keycloak ?clients demo_realm h4 = (Inr (), h5)" using demo_verify [OF h4(2)] by blast
  obtain h6 where h6: "sync_profile demo_keycloak (obj [(''attributes'', PList [])]) h5 = (Inr [], h6)"
    using demo_profile by blast
  show ?thesis
    by (cases r) (simp add: keycloak_main_def abind_def pure_def demo_load prepared h4(1) h5 h6 demo_clients loop_over_def)
qed

theorem keycloak_sync_requests_witness:
  "\<exists>r h'. keycloak_main demo_keycloak demo_inputs [] = (r, h')
    \<and> (\<exists>new. h' = [] @ new \<and> list_all (\<lambda>rq. token_request rq \<or> in_realm_path rq) new
    \<and> (list_all (\<lambda>rq. token_request rq \<or> reading rq) new
       \<or> (\<exists>secrets realm profile plans h1. load_inputs demo_keycloak demo_inputs = Inr (secrets, realm, profile)
            \<and> prepare_all demo_keycloak secrets realm [] = (Inr plans, h1) \<and> prefix h1 h')))"
proof -
  obtain x h' where run: "keycloak_main demo_keycloak demo_inputs [] = (Inr x, h')" using kc_demo_run by blast
  show ?thesis using run keycloak_sync_requests [OF run] by blast
qed

text \<open>In this run the realm is enabled by the one write, and the read-back finds it enabled.\<close>

theorem keycloak_sync_verified_witness:
  "\<exists>x h' clients plans changes remaining planned writes readback later h1.
    keycloak_main demo_keycloak demo_inputs [] = (Inr x, h') \<and> h' = planned @ writes @ readback @ later
    \<and> list_all reading readback \<and> list_all user_request later
    \<and> apply_all demo_keycloak plans planned = (Inr changes, planned @ writes)
    \<and> prepare_client_sync demo_keycloak clients (planned @ writes) = (Inr remaining, h1)
    \<and> list_all (\<lambda>a. ca_operation a = Noop \<and> ca_mapper_plan a = []) remaining"
proof -
  obtain x h' where run: "keycloak_main demo_keycloak demo_inputs [] = (Inr x, h')" using kc_demo_run by blast
  show ?thesis using run keycloak_sync_verified [OF run] unfolding append_Nil by blast
qed

theorem realm_sync_converges_witness:
  "realm_admin_payload (PDict (dmerge (the_dict (live_realm False)) [(K ''enabled'', PBool True)])) (PDict (the_dict demo_realm)) = Inr []"
proof (rule realm_sync_converges)
  show "realm_admin_payload (PDict (the_dict (live_realm False))) (PDict (the_dict demo_realm)) = Inr [(K ''enabled'', PBool True)]"
    using demo_realm_payload [of False] by (simp add: live_realm_def demo_realm_def obj_def)
  show "sane (PDict (the_dict (live_realm False)))" "sane (PDict (the_dict demo_realm))"
    by (simp_all add: demo_defs KEY_PROVIDER_TYPE_def)
qed

theorem client_sync_converges_witness:
  "\<exists>b. plan_client (\<lambda>_. PList [PDict (stored_client (demo_action ''c'') (lit ''n''))]) (demo_desired ''c'') = Inr b
     \<and> ca_operation b = Noop"
proof (rule client_sync_converges)
  show "plan_client (\<lambda>_. PList [PDict ((K ''id'', S ''u'') # demo_client (lit ''c''))]) (demo_desired ''c'') = Inr (demo_action ''c'')"
    by (rule demo_plan_client) simp_all
  show "sane (demo_desired ''c'')" by (simp add: demo_desired_def demo_client_def CLIENT_ADMIN_FIELDS_def)
qed simp_all

end
