(* ===== verification/Tcp_Forward.thy ===== *)
theory Tcp_Forward
  imports Fapi_Prelude "HOL-Library.Sublist"
begin

text \<open>
  The loopback TCP forwarder of the local demo (\<open>src/scripts/wp5-demo-forward.py\<close>): its fixed
  endpoints, the byte pump, and its threads as an interleaving step relation: the main thread with
  the \<open>serve\<close> loop and the \<open>stop\<close> calls a signal runs on top of it, one handler per accepted
  client, and the lock around the set of live connections.

  Sockets are numbers; a step that opens one takes an unused number. Python runs a signal handler
  in the main thread between two operations of that thread, so a signal pushes a call of \<open>stop\<close> on
  the main thread's stack. \<open>threading.Lock\<close> is not re-entrant.
\<close>

section \<open>Construction\<close>

record endpoints =
  listen :: "pystr \<times> int"
  target :: "pystr \<times> int"

definition forwarder_init :: "pystr \<Rightarrow> int \<Rightarrow> pystr \<Rightarrow> int \<Rightarrow> endpoints res" where
  "forwarder_init listen_host listen_port target_host target_port =
     (if listen_host \<noteq> lit ''127.0.0.1'' \<or> target_host \<noteq> lit ''127.0.0.1''
      then raiseV ''WP5 demo forwarding is loopback-only''
      else if listen_port \<noteq> 8443 \<or> target_port \<noteq> 18443
      then raiseV ''WP5 demo forwarding ports are fixed''
      else Inr \<lparr>listen = (listen_host, listen_port), target = (target_host, target_port)\<rparr>)"

lemma forwarder_init_iff:
  "forwarder_init lh lp th tp = Inr e \<longleftrightarrow>
     lh = lit ''127.0.0.1'' \<and> th = lit ''127.0.0.1'' \<and> lp = 8443 \<and> tp = 18443
     \<and> e = \<lparr>listen = (lit ''127.0.0.1'', 8443), target = (lit ''127.0.0.1'', 18443)\<rparr>"
  by (auto simp: forwarder_init_def)

section \<open>The pump\<close>

text \<open>
  One round of the loop: whether \<open>stopping\<close> was set at its test, what \<open>recv\<close> gave (\<open>None\<close> an
  \<open>OSError\<close>, the empty string the end of the stream), and how much \<open>sendall\<close> transmitted before
  an \<open>OSError\<close> (\<open>None\<close> when it sent everything).
\<close>

record pump_round =
  saw_stop :: bool
  received :: "bytes option"
  cut :: "nat option"

fun pump :: "pump_round list \<Rightarrow> bytes" where
  "pump [] = []"
| "pump (r # rs) =
     (if saw_stop r then []
      else case received r of
        None \<Rightarrow> []
      | Some chunk \<Rightarrow>
          if chunk = [] then []
          else case cut r of None \<Rightarrow> chunk @ pump rs | Some n \<Rightarrow> take n chunk)"

definition stream_of :: "pump_round list \<Rightarrow> bytes" where
  "stream_of rs = concat (map (\<lambda>r. case received r of None \<Rightarrow> [] | Some chunk \<Rightarrow> chunk) rs)"

definition healthy :: "pump_round \<Rightarrow> bool" where
  "healthy r \<longleftrightarrow> \<not> saw_stop r \<and> cut r = None \<and> (\<exists>chunk. received r = Some chunk \<and> chunk \<noteq> [])"

text \<open>The bytes that leave are a prefix of the bytes that came, and all of them on a clean stream.\<close>

lemma pump_prefix: "prefix (pump rs) (stream_of rs)"
proof (induction rs)
  case (Cons r rs)
  then show ?case
    by (auto simp: stream_of_def take_is_prefix intro: prefix_prefix split: option.splits)
qed (simp add: stream_of_def)

lemma pump_all: "list_all healthy rs \<Longrightarrow> pump rs = stream_of rs"
  by (induction rs) (auto simp: stream_of_def healthy_def)

section \<open>Threads\<close>

type_synonym sock = nat

datatype listener = Absent | Open | Shut

datatype owner = Main | Handler sock

text \<open>A call of \<open>stop\<close>, at its next operation; the last one closes the sockets of the copied set.\<close>

datatype stop_call = Set_Flag | Close_Listener | Acquire | Copy | Sweep "sock list"

datatype serve = Opening | Binding | Testing | Accepting | Draining | Returned | Crashed

datatype phase =
    Connecting
  | Waiting sock
  | Checking sock
  | Adding sock
  | Running sock bool bool
  | Closing sock
  | Removing sock
  | Finished

record forwarder =
  stopping :: bool
  listener :: listener
  lock :: "owner option"
  connections :: "(sock \<times> sock) set"
  closed :: "sock set"
  used :: "sock set"
  serve :: serve
  calls :: "stop_call list"
  handlers :: "sock \<rightharpoonup> phase"

definition initial :: forwarder where
  "initial = \<lparr>stopping = False, listener = Absent, lock = None, connections = {}, closed = {}, used = {},
     serve = Opening, calls = [], handlers = Map.empty\<rparr>"

abbreviation at :: "forwarder \<Rightarrow> sock \<Rightarrow> phase \<Rightarrow> bool" where
  "at s c p \<equiv> handlers s c = Some p"

abbreviation goto :: "forwarder \<Rightarrow> sock \<Rightarrow> phase \<Rightarrow> forwarder" where
  "goto s c p \<equiv> s\<lparr>handlers := (handlers s)(c \<mapsto> p)\<rparr>"

text \<open>A signal arrives: the main thread begins a call of \<open>stop\<close> above what it was doing.\<close>

abbreviation signalled :: "forwarder \<Rightarrow> forwarder" where
  "signalled s \<equiv> s\<lparr>calls := Set_Flag # calls s\<rparr>"

text \<open>The calls of \<open>stop\<close> in the main thread.\<close>

inductive stop_step :: "forwarder \<Rightarrow> forwarder \<Rightarrow> bool" where
  signal: "serve s \<notin> {Returned, Crashed} \<Longrightarrow> stop_step s (signalled s)"
| set_flag: "calls s = Set_Flag # rest \<Longrightarrow>
    stop_step s (s\<lparr>stopping := True, calls := Close_Listener # rest\<rparr>)"
| close_listener: "calls s = Close_Listener # rest \<Longrightarrow>
    stop_step s (s\<lparr>listener := (if listener s = Absent then Absent else Shut), calls := Acquire # rest\<rparr>)"
| acquire: "calls s = Acquire # rest \<Longrightarrow> lock s = None \<Longrightarrow>
    stop_step s (s\<lparr>lock := Some Main, calls := Copy # rest\<rparr>)"
| copy: "calls s = Copy # rest \<Longrightarrow> set pairs = connections s \<Longrightarrow>
    stop_step s (s\<lparr>lock := None, calls := Sweep (concat (map (\<lambda>(c, u). [c, u]) pairs)) # rest\<rparr>)"
| sweep: "calls s = Sweep (x # xs) # rest \<Longrightarrow>
    stop_step s (s\<lparr>closed := insert x (closed s), calls := Sweep xs # rest\<rparr>)"
| return: "calls s = Sweep [] # rest \<Longrightarrow> stop_step s (s\<lparr>calls := rest\<rparr>)"

text \<open>The \<open>serve\<close> loop, which runs while no call of \<open>stop\<close> is active.\<close>

inductive serve_step :: "forwarder \<Rightarrow> forwarder \<Rightarrow> bool" where
  create: "serve s = Opening \<Longrightarrow> serve_step s (s\<lparr>listener := Open, serve := Binding\<rparr>)"
| create_error: "serve s = Opening \<Longrightarrow> serve_step s (s\<lparr>serve := Crashed\<rparr>)"
| bound: "serve s = Binding \<Longrightarrow> listener s = Open \<Longrightarrow> serve_step s (s\<lparr>serve := Testing\<rparr>)"
| bind_error: "serve s = Binding \<Longrightarrow> serve_step s (s\<lparr>serve := Crashed\<rparr>)"
| test_stop: "serve s = Testing \<Longrightarrow> stopping s \<Longrightarrow> serve_step s (s\<lparr>serve := Draining, calls := [Set_Flag]\<rparr>)"
| test_go: "serve s = Testing \<Longrightarrow> \<not> stopping s \<Longrightarrow> serve_step s (s\<lparr>serve := Accepting\<rparr>)"
| accept_timeout: "serve s = Accepting \<Longrightarrow> serve_step s (s\<lparr>serve := Testing\<rparr>)"
| accept: "serve s = Accepting \<Longrightarrow> listener s = Open \<Longrightarrow> c \<notin> used s \<Longrightarrow>
    serve_step s (goto (s\<lparr>serve := Testing, used := insert c (used s)\<rparr>) c Connecting)"
| accept_stop: "serve s = Accepting \<Longrightarrow> stopping s \<Longrightarrow> serve_step s (s\<lparr>serve := Draining, calls := [Set_Flag]\<rparr>)"
| accept_error: "serve s = Accepting \<Longrightarrow> \<not> stopping s \<Longrightarrow> serve_step s (s\<lparr>serve := Crashed\<rparr>)"
| drained: "serve s = Draining \<Longrightarrow> serve_step s (s\<lparr>serve := Returned\<rparr>)"

text \<open>The handler of the client \<open>c\<close>; its two pump threads end in any order.\<close>

inductive handler_step :: "sock \<Rightarrow> forwarder \<Rightarrow> forwarder \<Rightarrow> bool" for c where
  connected: "at s c Connecting \<Longrightarrow> u \<notin> used s \<Longrightarrow>
    handler_step c s (goto (s\<lparr>used := insert u (used s)\<rparr>) c (Waiting u))"
| connect_error: "at s c Connecting \<Longrightarrow> handler_step c s (goto (s\<lparr>closed := insert c (closed s)\<rparr>) c Finished)"
| settimeout_error: "at s c Connecting \<Longrightarrow> u \<notin> used s \<Longrightarrow>
    handler_step c s (goto (s\<lparr>used := insert u (used s), closed := insert c (closed s)\<rparr>) c Finished)"
| take_lock: "at s c (Waiting u) \<Longrightarrow> lock s = None \<Longrightarrow>
    handler_step c s (goto (s\<lparr>lock := Some (Handler c)\<rparr>) c (Checking u))"
| check_stop: "at s c (Checking u) \<Longrightarrow> stopping s \<Longrightarrow>
    handler_step c s (goto (s\<lparr>closed := {c, u} \<union> closed s, lock := None\<rparr>) c Finished)"
| check_go: "at s c (Checking u) \<Longrightarrow> \<not> stopping s \<Longrightarrow> handler_step c s (goto s c (Adding u))"
| add: "at s c (Adding u) \<Longrightarrow>
    handler_step c s (goto (s\<lparr>connections := insert (c, u) (connections s), lock := None\<rparr>) c (Running u False False))"
| start_error: "at s c (Running u False False) \<Longrightarrow> handler_step c s (goto s c (Closing u))"
| pump_up: "at s c (Running u False b) \<Longrightarrow> handler_step c s (goto s c (Running u True b))"
| pump_down: "at s c (Running u a False) \<Longrightarrow> handler_step c s (goto s c (Running u a True))"
| joined: "at s c (Running u True True) \<Longrightarrow> handler_step c s (goto s c (Closing u))"
| close_pair: "at s c (Closing u) \<Longrightarrow>
    handler_step c s (goto (s\<lparr>closed := {c, u} \<union> closed s\<rparr>) c (Removing u))"
| discard: "at s c (Removing u) \<Longrightarrow> lock s = None \<Longrightarrow>
    handler_step c s (goto (s\<lparr>connections := connections s - {(c, u)}\<rparr>) c Finished)"

inductive forward_step :: "forwarder \<Rightarrow> forwarder \<Rightarrow> bool" where
  stop: "stop_step s s' \<Longrightarrow> forward_step s s'"
| main_loop: "serve_step s s' \<Longrightarrow> calls s = [] \<Longrightarrow> forward_step s s'"
| handle: "handler_step c s s' \<Longrightarrow> forward_step s s'"

inductive reachable :: "forwarder \<Rightarrow> bool" where
  start: "reachable initial"
| step: "reachable s \<Longrightarrow> forward_step s s' \<Longrightarrow> reachable s'"

inductive_cases forward_stepE: "forward_step s s'"

section \<open>The invariant\<close>

fun upstream :: "phase \<Rightarrow> sock option" where
  "upstream (Running u _ _) = Some u"
| "upstream (Closing u) = Some u"
| "upstream (Removing u) = Some u"
| "upstream _ = None"

fun in_section :: "phase \<Rightarrow> bool" where
  "in_section (Checking _) = True"
| "in_section (Adding _) = True"
| "in_section _ = False"

definition registered :: "forwarder \<Rightarrow> sock \<Rightarrow> sock \<Rightarrow> bool" where
  "registered s c u \<longleftrightarrow> Option.bind (handlers s c) upstream = Some u"

definition owns_lock :: "forwarder \<Rightarrow> sock \<Rightarrow> bool" where
  "owns_lock s c \<longleftrightarrow> (case handlers s c of None \<Rightarrow> False | Some p \<Rightarrow> in_section p)"

definition adding :: "forwarder \<Rightarrow> bool" where
  "adding s \<longleftrightarrow> (\<exists>c u. at s c (Adding u))"

definition lock_ok :: "forwarder \<Rightarrow> bool" where
  "lock_ok s \<longleftrightarrow>
     (\<forall>c. lock s = Some (Handler c) \<longleftrightarrow> owns_lock s c) \<and> (lock s = Some Main \<longleftrightarrow> Copy \<in> set (calls s))
     \<and> count_list (calls s) Copy \<le> 1"

definition connections_ok :: "forwarder \<Rightarrow> bool" where
  "connections_ok s \<longleftrightarrow> (\<forall>c u. (c, u) \<in> connections s \<longleftrightarrow> registered s c u)"

definition swept :: "forwarder \<Rightarrow> sock list \<Rightarrow> bool" where
  "swept s xs \<longleftrightarrow> (\<forall>c u. (c, u) \<in> connections s \<longrightarrow> {c, u} \<subseteq> closed s \<union> set xs)"

definition calls_ok :: "forwarder \<Rightarrow> bool" where
  "calls_ok s \<longleftrightarrow>
     (\<forall>call \<in> set (calls s). call \<noteq> Set_Flag \<longrightarrow> stopping s)
     \<and> (\<forall>xs. Sweep xs \<in> set (calls s) \<longrightarrow> \<not> adding s \<and> swept s xs)
     \<and> (stopping s \<and> calls s = [] \<longrightarrow> \<not> adding s \<and> swept s [])
     \<and> (serve s \<in> {Draining, Returned} \<longrightarrow> stopping s) \<and> (serve s \<in> {Returned, Crashed} \<longrightarrow> calls s = [])"

definition closed_ok :: "forwarder \<Rightarrow> bool" where
  "closed_ok s \<longleftrightarrow>
     (\<forall>c. at s c Finished \<longrightarrow> c \<in> closed s) \<and> (\<forall>c u. at s c (Removing u) \<longrightarrow> {c, u} \<subseteq> closed s)"

definition listener_ok :: "forwarder \<Rightarrow> bool" where
  "listener_ok s \<longleftrightarrow> (serve s = Opening \<longrightarrow> listener s = Absent)"

definition forward_inv :: "forwarder \<Rightarrow> bool" where
  "forward_inv s \<longleftrightarrow> lock_ok s \<and> connections_ok s \<and> calls_ok s \<and> closed_ok s \<and> listener_ok s
     \<and> dom (handlers s) \<subseteq> used s"

lemmas forward_defs = lock_ok_def connections_ok_def calls_ok_def closed_ok_def listener_ok_def swept_def adding_def registered_def
  owns_lock_def

lemma initial_inv: "forward_inv initial"
  by (simp add: forward_inv_def forward_defs initial_def)

text \<open>A handler inside the critical section is the owner of the lock, so there is at most one.\<close>

lemma in_section_owner: "lock_ok s \<Longrightarrow> at s c p \<Longrightarrow> in_section p \<Longrightarrow> lock s = Some (Handler c)"
  by (simp add: lock_ok_def owns_lock_def)

lemma adding_owner: "lock_ok s \<Longrightarrow> adding s \<Longrightarrow> \<exists>c. lock s = Some (Handler c)"
  by (metis adding_def in_section.simps(2) in_section_owner)

lemma lock_ok_goto:
  assumes "lock_ok s" "at s c p" "handlers s' = (handlers s)(c \<mapsto> q)" "lock s' = lock s" "calls s' = calls s"
    "in_section q = in_section p"
  shows "lock_ok s'"
  using assms by (auto simp: lock_ok_def owns_lock_def)

lemma lock_ok_leave:
  assumes "lock_ok s" "at s c p" "in_section p" "\<not> in_section q" "lock s' = None" "calls s' = calls s"
    "handlers s' = (handlers s)(c \<mapsto> q)"
  shows "lock_ok s'"
proof -
  have "lock s = Some (Handler c)" using in_section_owner assms by blast
  then have "Copy \<notin> set (calls s)" "\<And>d. d \<noteq> c \<Longrightarrow> \<not> owns_lock s d" using assms(1) by (auto simp: lock_ok_def)
  then show ?thesis using assms by (auto simp: lock_ok_def owns_lock_def)
qed

text \<open>What a completed or sweeping \<open>stop\<close> relies on survives any step that adds no connection.\<close>

lemma calls_ok_mono:
  assumes "calls_ok s" "calls s' = calls s" "serve s' = serve s" "stopping s' = stopping s"
    and "adding s' \<Longrightarrow> adding s" "connections s' \<subseteq> connections s" "closed s \<subseteq> closed s'"
  shows "calls_ok s'"
proof -
  have "swept s' xs" if "swept s xs" for xs using that assms(6,7) by (fastforce simp: swept_def)
  then show ?thesis using assms(1-5) unfolding calls_ok_def by simp blast
qed

lemma calls_ok_goto:
  assumes "calls_ok s" "handlers s' = (handlers s)(c \<mapsto> q)" "calls s' = calls s" "serve s' = serve s"
    "stopping s' = stopping s" "\<And>u. q \<noteq> Adding u" "connections s' \<subseteq> connections s" "closed s \<subseteq> closed s'"
  shows "calls_ok s'"
proof (rule calls_ok_mono [OF assms(1,3-5) _ assms(7,8)])
  assume "adding s'"
  then show "adding s" using assms(2,6) unfolding adding_def by (metis fun_upd_apply option.inject)
qed

lemma calls_ok_open:
  assumes "calls_ok s" "calls s' = calls s" "serve s' = serve s" "stopping s' = stopping s"
    and "\<not> stopping s \<or> adding s"
  shows "calls_ok s'"
proof -
  have none: "Sweep xs \<notin> set (calls s)" for xs using assms(1,5) unfolding calls_ok_def by blast
  have "\<not> (stopping s \<and> calls s = [])" using assms(1,5) unfolding calls_ok_def by blast
  then show ?thesis using assms(1-4) none unfolding calls_ok_def by auto
qed

lemma stop_step_inv: "stop_step s s' \<Longrightarrow> forward_inv s \<Longrightarrow> forward_inv s'"
proof (induction rule: stop_step.induct)
  case (copy s rest pairs)
  then have main: "lock s = Some Main" "Copy \<notin> set rest" by (auto simp: forward_inv_def lock_ok_def count_list_0_iff)
  then have none: "\<not> adding s" using adding_owner copy by (force simp: forward_inv_def)
  let ?xs = "concat (map (\<lambda>(c, u). [c, u]) pairs)"
  let ?s = "s\<lparr>lock := None, calls := Sweep ?xs # rest\<rparr>"
  have "{c, u} \<subseteq> set ?xs" if "(c, u) \<in> connections s" for c u
    using that unfolding copy(2) [symmetric] by (induction pairs) auto
  then have all: "swept s ?xs" unfolding swept_def by blast
  have same: "adding ?s = adding s" "\<And>xs. swept ?s xs = swept s xs" by (simp_all add: adding_def swept_def)
  have "calls_ok ?s" using copy none all unfolding calls_ok_def same forward_inv_def by auto
  moreover have "lock_ok ?s" using copy main by (auto simp: forward_inv_def lock_ok_def owns_lock_def count_list_0_iff)
  ultimately show ?case using copy by (simp add: forward_inv_def connections_ok_def closed_ok_def listener_ok_def registered_def)
next
  case (sweep s x xs rest)
  let ?s = "s\<lparr>closed := insert x (closed s), calls := Sweep xs # rest\<rparr>"
  have more: "swept ?s ys" if "swept s ys" for ys using that unfolding swept_def by auto
  have "swept s (x # xs)" using sweep unfolding forward_inv_def calls_ok_def by (metis list.set_intros(1))
  then have all: "swept ?s xs" unfolding swept_def by auto
  have same: "adding ?s = adding s" by (simp add: adding_def)
  have "calls_ok ?s" using sweep more all unfolding calls_ok_def same forward_inv_def by auto
  then show ?case
    using sweep by (auto simp: forward_inv_def connections_ok_def closed_ok_def listener_ok_def registered_def lock_ok_def owns_lock_def)
qed (auto simp: forward_inv_def forward_defs count_list_0_iff)

lemma serve_step_inv: "serve_step s s' \<Longrightarrow> calls s = [] \<Longrightarrow> forward_inv s \<Longrightarrow> forward_inv s'"
proof (induction rule: serve_step.induct)
  case (accept s c)
  then have "handlers s c = None" by (auto simp: forward_inv_def)
  then show ?case using accept by (auto simp: forward_inv_def forward_defs)
qed (auto simp: forward_inv_def forward_defs)

lemma handler_step_lock: "handler_step c s s' \<Longrightarrow> lock_ok s \<Longrightarrow> lock_ok s'"
proof (induction rule: handler_step.induct)
  case (take_lock s u)
  then show ?case by (auto simp: lock_ok_def owns_lock_def)
next
  case (check_stop s u)
  then show ?case by (auto elim!: lock_ok_leave)
next
  case (add s u)
  then show ?case by (auto elim!: lock_ok_leave)
qed (auto elim!: lock_ok_goto)

lemma handler_step_connections: "handler_step c s s' \<Longrightarrow> connections_ok s \<Longrightarrow> connections_ok s'"
  by (induction rule: handler_step.induct) (auto simp: connections_ok_def registered_def split: if_splits)

lemma handler_step_closed: "handler_step c s s' \<Longrightarrow> closed_ok s \<Longrightarrow> closed_ok s'"
  by (induction rule: handler_step.induct) (auto simp: closed_ok_def split: if_splits)

lemma handler_step_listener: "handler_step c s s' \<Longrightarrow> listener_ok s \<Longrightarrow> listener_ok s'"
  by (induction rule: handler_step.induct) (auto simp: listener_ok_def)

lemma handler_step_calls: "handler_step c s s' \<Longrightarrow> calls_ok s \<Longrightarrow> calls_ok s'"
proof (induction rule: handler_step.induct)
  case (check_go s u)
  then show ?case by (auto elim!: calls_ok_open)
next
  case (add s u)
  then show ?case by (auto elim!: calls_ok_open simp: adding_def)
qed (auto elim!: calls_ok_goto)

lemma handler_step_used: "handler_step c s s' \<Longrightarrow> dom (handlers s) \<subseteq> used s \<Longrightarrow> dom (handlers s') \<subseteq> used s'"
  by (induction rule: handler_step.induct) auto

lemma handler_step_inv: "handler_step c s s' \<Longrightarrow> forward_inv s \<Longrightarrow> forward_inv s'"
  unfolding forward_inv_def
  by (intro conjI; elim conjE)
     (blast intro: handler_step_lock handler_step_connections handler_step_closed handler_step_calls handler_step_listener
        dest: handler_step_used)+

lemma reachable_inv: "reachable s \<Longrightarrow> forward_inv s"
proof (induction rule: reachable.induct)
  case (step s s')
  then show ?case by (auto elim!: forward_stepE intro: stop_step_inv serve_step_inv handler_step_inv)
qed (rule initial_inv)

section \<open>Shutting down\<close>

text \<open>
  C22: Whatever the interleaving of the threads and of signals, once \<open>stop\<close> has been requested and
  no call of it is still running, no handler is about to register a connection and both sockets of
  every registered connection are closed. This is so in particular when \<open>serve\<close> returns.
\<close>

theorem stop_closes_connections:
  assumes "reachable s" and "stopping s \<and> calls s = [] \<or> serve s = Returned"
  shows "\<not> adding s \<and> (\<forall>(c, u) \<in> connections s. c \<in> closed s \<and> u \<in> closed s)"
proof -
  have "stopping s \<and> calls s = []" "calls_ok s"
    using assms reachable_inv by (auto simp: forward_inv_def calls_ok_def)
  then have "\<not> adding s" "swept s []" by (simp_all add: calls_ok_def)
  then show ?thesis by (auto simp: swept_def)
qed

text \<open>A run: one client is served, a signal arrives, and \<open>stop\<close> runs to its end.\<close>

definition after_stop :: forwarder where
  "after_stop = \<lparr>stopping = True, listener = Shut, lock = None, connections = {(0, 1)}, closed = {0, 1}, used = {0, 1},
     serve = Testing, calls = [], handlers = [0 \<mapsto> Running 1 False False]\<rparr>"

lemma by_stop: "reachable s \<Longrightarrow> stop_step s s' \<Longrightarrow> s' = t \<Longrightarrow> reachable t"
  and by_serve: "reachable s \<Longrightarrow> serve_step s s' \<Longrightarrow> calls s = [] \<Longrightarrow> s' = t \<Longrightarrow> reachable t"
  and by_handler: "reachable s \<Longrightarrow> handler_step c s s' \<Longrightarrow> s' = t \<Longrightarrow> reachable t"
  by (auto intro: reachable.step forward_step.intros)

lemma served_reachable:
  "reachable (initial\<lparr>listener := Open, connections := {(0, 1)}, used := {0, 1}, serve := Testing,
     handlers := [0 \<mapsto> Running 1 False False]\<rparr>)"
proof -
  let ?i = "initial\<lparr>listener := Open, serve := Testing\<rparr>"
  have "reachable (initial\<lparr>listener := Open, serve := Binding\<rparr>)"
    by (rule by_serve [OF start serve_step.create]) (simp_all add: initial_def)
  then have "reachable ?i"
    by (rule by_serve [OF _ serve_step.bound]) (simp_all add: initial_def)
  then have "reachable (?i\<lparr>serve := Accepting\<rparr>)"
    by (rule by_serve [OF _ serve_step.test_go]) (simp_all add: initial_def)
  then have "reachable (?i\<lparr>used := {0}, handlers := [0 \<mapsto> Connecting]\<rparr>)"
    by (rule by_serve [OF _ serve_step.accept [where c = 0]]) (simp_all add: initial_def)
  then have "reachable (?i\<lparr>used := {0, 1}, handlers := [0 \<mapsto> Waiting 1]\<rparr>)"
    by (rule by_handler [OF _ handler_step.connected [where c = 0 and u = 1]]) (auto simp: initial_def)
  then have "reachable (?i\<lparr>used := {0, 1}, lock := Some (Handler 0), handlers := [0 \<mapsto> Checking 1]\<rparr>)"
    by (rule by_handler [OF _ handler_step.take_lock [where c = 0 and u = 1]]) (simp_all add: initial_def)
  then have "reachable (?i\<lparr>used := {0, 1}, lock := Some (Handler 0), handlers := [0 \<mapsto> Adding 1]\<rparr>)"
    by (rule by_handler [OF _ handler_step.check_go [where c = 0 and u = 1]]) (simp_all add: initial_def)
  then show ?thesis
    by (rule by_handler [OF _ handler_step.add [where c = 0 and u = 1]]) (simp_all add: initial_def)
qed

lemma after_stop_reachable: "reachable after_stop"
proof -
  let ?i = "initial\<lparr>listener := Open, connections := {(0, 1)}, used := {0, 1}, serve := Testing,
     handlers := [0 \<mapsto> Running 1 False False]\<rparr>"
  let ?j = "?i\<lparr>stopping := True, listener := Shut\<rparr>"
  have "reachable (?i\<lparr>calls := [Set_Flag]\<rparr>)"
    by (rule by_stop [OF served_reachable stop_step.signal]) (simp_all add: initial_def)
  then have "reachable (?i\<lparr>stopping := True, calls := [Close_Listener]\<rparr>)"
    by (rule by_stop [OF _ stop_step.set_flag]) (simp_all add: initial_def)
  then have "reachable (?j\<lparr>calls := [Acquire]\<rparr>)"
    by (rule by_stop [OF _ stop_step.close_listener]) (simp_all add: initial_def)
  then have "reachable (?j\<lparr>lock := Some Main, calls := [Copy]\<rparr>)"
    by (rule by_stop [OF _ stop_step.acquire]) (simp_all add: initial_def)
  then have "reachable (?j\<lparr>calls := [Sweep [0, 1]]\<rparr>)"
    by (rule by_stop [OF _ stop_step.copy [where pairs = "[(0, 1)]"]]) (simp_all add: initial_def)
  then have "reachable (?j\<lparr>closed := {0}, calls := [Sweep [1]]\<rparr>)"
    by (rule by_stop [OF _ stop_step.sweep]) (simp_all add: initial_def)
  then have "reachable (?j\<lparr>closed := {0, 1}, calls := [Sweep []]\<rparr>)"
    by (rule by_stop [OF _ stop_step.sweep]) (auto simp: initial_def)
  then show ?thesis
    by (rule by_stop [OF _ stop_step.return]) (simp_all add: initial_def after_stop_def)
qed

theorem stop_closes_connections_witness:
  "reachable after_stop \<and> connections after_stop = {(0, 1)} \<and> 0 \<in> closed after_stop \<and> 1 \<in> closed after_stop"
proof -
  have "\<forall>(c, u) \<in> connections after_stop. c \<in> closed after_stop \<and> u \<in> closed after_stop"
    using stop_closes_connections [OF after_stop_reachable] by (simp add: after_stop_def)
  then show ?thesis using after_stop_reachable by (simp add: after_stop_def)
qed

text \<open>
  The pair of sockets of a handler is registered from the moment it enters the connection set
  until its handler removes it, both sockets are closed before that, and a handler that is done
  leaves a closed client socket and no entry in the set: the set never holds a stale pair.
\<close>

lemma handler_cleanup:
  assumes "reachable s"
  shows "((c, u) \<in> connections s \<longleftrightarrow> Option.bind (handlers s c) upstream = Some u)
    \<and> (at s c (Removing u) \<longrightarrow> c \<in> closed s \<and> u \<in> closed s)
    \<and> (at s c Finished \<longrightarrow> c \<in> closed s \<and> (c, u) \<notin> connections s)"
  using reachable_inv [OF assms] by (auto simp: forward_inv_def forward_defs)

text \<open>
  At most one thread is in a critical section: two handlers never register at the same time,
  and none registers while \<open>stop\<close> copies the set.
\<close>

lemma forward_mutual_exclusion:
  assumes "reachable s" "at s c p" "in_section p"
  shows "Copy \<notin> set (calls s)" "at s d q \<Longrightarrow> in_section q \<Longrightarrow> d = c"
proof -
  have ok: "lock_ok s" using reachable_inv [OF assms(1)] by (simp add: forward_inv_def)
  note owner = in_section_owner [OF ok assms(2,3)]
  then show "Copy \<notin> set (calls s)" using ok unfolding lock_ok_def by auto
  show "d = c" if "at s d q" "in_section q" using in_section_owner [OF ok that] owner by simp
qed

text \<open>The listener is created once: after \<open>serve\<close> has passed its first line it never comes back to it.\<close>

lemma serve_opens_once: "forward_step\<^sup>*\<^sup>* s t \<Longrightarrow> serve s \<noteq> Opening \<Longrightarrow> serve t \<noteq> Opening"
proof (induction rule: rtranclp_induct)
  case (step t u)
  have "stop_step t u \<Longrightarrow> serve u = serve t" by (induction rule: stop_step.induct) simp_all
  moreover have "handler_step c t u \<Longrightarrow> serve u = serve t" for c by (induction rule: handler_step.induct) simp_all
  moreover have "serve_step t u \<Longrightarrow> serve u \<noteq> Opening" by (induction rule: serve_step.induct) simp_all
  ultimately show ?case using step by (auto elim!: forward_stepE)
qed simp

text \<open>A closed listener stays closed, so no client is accepted after \<open>stop\<close> has closed it.\<close>

lemma shut_listener_stays: "forward_step s t \<Longrightarrow> reachable s \<Longrightarrow> listener s = Shut \<Longrightarrow> listener t = Shut"
proof -
  assume *: "forward_step s t" "reachable s" "listener s = Shut"
  have "serve s \<noteq> Opening" using reachable_inv [OF *(2)] *(3) by (auto simp: forward_inv_def listener_ok_def)
  then have "serve_step s t \<Longrightarrow> listener t = Shut" using *(3) by (auto elim!: serve_step.cases)
  moreover have "stop_step s t \<Longrightarrow> listener t = Shut" using *(3) by (auto elim!: stop_step.cases)
  moreover have "handler_step c s t \<Longrightarrow> listener t = Shut" for c using *(3) by (auto elim!: handler_step.cases)
  ultimately show ?thesis using *(1) by (auto elim!: forward_stepE)
qed

section \<open>A signal inside \<open>stop\<close>\<close>

text \<open>
  Above the calls \<open>below\<close>, one of which holds the lock, the main thread runs further calls of \<open>stop\<close>,
  and the topmost has not yet passed its \<open>with self.lock\<close>.
\<close>

definition self_locked :: "stop_call list \<Rightarrow> forwarder \<Rightarrow> bool" where
  "self_locked below s \<longleftrightarrow>
     lock s = Some Main
     \<and> (\<exists>call above. calls s = call # above @ below \<and> call \<in> {Set_Flag, Close_Listener, Acquire})"

lemma self_locked_stop: "stop_step s s' \<Longrightarrow> self_locked below s \<Longrightarrow> self_locked below s'"
proof (induction rule: stop_step.induct)
  case (signal s)
  then show ?case unfolding self_locked_def by (metis (no_types) append_Cons forwarder.select_convs(3,8)
    forwarder.update_convs(8) forwarder.surjective insertCI)
qed (auto simp: self_locked_def)

lemma self_locked_handler: "handler_step c s s' \<Longrightarrow> lock_ok s \<Longrightarrow> self_locked below s \<Longrightarrow> self_locked below s'"
  by (induction rule: handler_step.induct) (auto simp: self_locked_def dest: in_section_owner)

lemma self_locked_step:
  "forward_step s s' \<Longrightarrow> reachable s \<Longrightarrow> self_locked below s \<Longrightarrow> self_locked below s'"
  using reachable_inv
  by (auto elim!: forward_stepE simp: forward_inv_def intro: self_locked_stop self_locked_handler)
     (simp add: self_locked_def)

lemma self_locked_forever:
  "forward_step\<^sup>*\<^sup>* s t \<Longrightarrow> reachable s \<Longrightarrow> self_locked below s \<Longrightarrow> reachable t \<and> self_locked below t"
  by (induction rule: rtranclp_induct) (auto intro: self_locked_step reachable.step)

text \<open>
  C23: In every reachable state in which a call of \<open>stop\<close> is inside its \<open>with self.lock\<close> block the
  main thread holds the lock and a further signal can arrive. From the state the signal leaves, in
  which the main thread has begun a second call above the first, every continuation, whatever the
  handlers and later signals do, leaves \<open>serve\<close> neither returned nor raised, the lock held, and the interrupted
  calls where they were: the forwarder is blocked for good.
\<close>

theorem second_signal_deadlocks:
  assumes "reachable s" and "Copy \<in> set (calls s)"
  shows "lock s = Some Main \<and> forward_step s (signalled s)
    \<and> Collect (forward_step\<^sup>*\<^sup>* (signalled s))
        \<subseteq> {t. serve t \<notin> {Returned, Crashed} \<and> lock t = Some Main \<and> (\<exists>above. above \<noteq> [] \<and> calls t = above @ calls s)}"
proof (intro conjI subsetI CollectI)
  have inv: "lock_ok s" "calls_ok s" using reachable_inv [OF assms(1)] by (simp_all add: forward_inv_def)
  then show main: "lock s = Some Main" using assms(2) by (simp add: lock_ok_def)
  have "serve s \<notin> {Returned, Crashed}" using inv(2) assms(2) by (auto simp: calls_ok_def)
  then show first: "forward_step s (signalled s)" by (intro forward_step.stop stop_step.signal)
  fix t assume "t \<in> Collect (forward_step\<^sup>*\<^sup>* (signalled s))"
  then have run: "forward_step\<^sup>*\<^sup>* (signalled s) t" by simp
  have "self_locked (calls s) (signalled s)" using main by (simp add: self_locked_def)
  then have "reachable t \<and> self_locked (calls s) t"
    by (rule self_locked_forever [OF run reachable.step [OF assms(1) first]])
  then show "lock t = Some Main" and "\<exists>above. above \<noteq> [] \<and> calls t = above @ calls s" and "serve t \<notin> {Returned, Crashed}"
    using reachable_inv [of t] by (auto simp: self_locked_def forward_inv_def calls_ok_def)
qed

text \<open>A client is being served and a signal has brought \<open>stop\<close> into its critical section.\<close>

definition stop_copying :: forwarder where
  "stop_copying = initial\<lparr>stopping := True, lock := Some Main, calls := [Copy]\<rparr>"

lemma stop_copying_reachable: "reachable stop_copying"
proof -
  have "reachable (initial\<lparr>calls := [Set_Flag]\<rparr>)"
    by (rule by_stop [OF start stop_step.signal]) (simp_all add: initial_def)
  then have "reachable (initial\<lparr>stopping := True, calls := [Close_Listener]\<rparr>)"
    by (rule by_stop [OF _ stop_step.set_flag]) (simp_all add: initial_def)
  then have "reachable (initial\<lparr>stopping := True, calls := [Acquire]\<rparr>)"
    by (rule by_stop [OF _ stop_step.close_listener]) (simp_all add: initial_def)
  then show ?thesis
    by (rule by_stop [OF _ stop_step.acquire]) (simp_all add: initial_def stop_copying_def)
qed

theorem second_signal_deadlocks_witness:
  "reachable stop_copying \<and> forward_step stop_copying (signalled stop_copying)
   \<and> Collect (forward_step\<^sup>*\<^sup>* (signalled stop_copying)) \<subseteq> {t. serve t \<notin> {Returned, Crashed} \<and> lock t = Some Main}"
  using second_signal_deadlocks [OF stop_copying_reachable] stop_copying_reachable
  by (auto simp: stop_copying_def)

end
