(* ===== verification/Third_Party_Runtime.thy ===== *)
theory Third_Party_Runtime
  imports Foundation_State
begin

text \<open>
  The runtime state of the third-party gateway: \<open>validate_third_party_runtime_state\<close> of
  \<open>src/scripts/wp1_target.py\<close>, with one definition per group of checks of that function.
\<close>

section \<open>Fixed values\<close>

definition RUNTIME_FILES :: "(string \<times> string) list" where
  "RUNTIME_FILES = [(''api'', ''kong/api-gateway.yaml''), (''third-party'', ''kong/third-party-gateway.yaml'')]"

definition THIRD_PARTY_RUNTIME_SERVICE_IDS :: "(string \<times> string) list" where
  "THIRD_PARTY_RUNTIME_SERVICE_IDS =
     [(''A'', ''0e48dd20-46a0-5b94-832b-014b857c58b5''), (''B'', ''b52f6f69-8c94-5148-a6a2-dbc5b6e2c15e'')]"

definition THIRD_PARTY_RUNTIME_PLUGIN_IDS :: "string \<Rightarrow> (string \<times> string) list" where
  "THIRD_PARTY_RUNTIME_PLUGIN_IDS route =
     (if route = ''A''
      then [(''cors'', ''66d86cb7-9d75-5b1b-855d-63b1a9a957f9''),
            (''openid-connect'', ''96d4d14a-4b66-5751-b8b0-d000c6c84409''),
            (''request-transformer'', ''1f1902cb-dfa2-5003-a3ae-9968b2c126b2'')]
      else [(''cors'', ''be2f0305-7644-5e24-9c0d-c5c16e726492''),
            (''fapi-client-auth-bridge'', ''564675c7-1913-5d2c-8e2f-af7709855db5''),
            (''openid-connect'', ''fa9b36b8-2ae3-5240-ac4e-c1303c33bb9c''),
            (''request-transformer'', ''2678d008-77b3-5ec1-bc5d-8e2a5f8633a5'')])"

definition hop_id :: string where
  "hop_id = ''742c3d79-850f-5761-9544-63864bab5cad''"

definition ca_id :: string where
  "ca_id = ''33333333-3333-4333-8333-333333333333''"

definition certificate_ids :: "string \<Rightarrow> string" where
  "certificate_ids route =
     (if route = ''A'' then ''11111111-1111-4111-8111-111111111111'' else ''22222222-2222-4222-8222-222222222222'')"

definition route_ids :: "string \<Rightarrow> string" where
  "route_ids route =
     (if route = ''A'' then ''754519ff-b0b9-5ed5-94c0-e453d260c6c4'' else ''0f45debe-a3a6-5207-aea3-637227fb96f2'')"

definition clients :: "string \<Rightarrow> string" where
  "clients route = (if route = ''A'' then ''third-party-fapi-mtls'' else ''third-party-fapi-pkj-mtls'')"

definition paths :: "string \<Rightarrow> string" where
  "paths route = (if route = ''A'' then ''/api/fapi/mtls'' else ''/api/fapi/pkj-mtls'')"

text \<open>\<open>f"route-{route.lower()}"\<close>.\<close>

definition route_slug :: "string \<Rightarrow> string" where
  "route_slug route = (if route = ''A'' then ''route-a'' else ''route-b'')"

definition quoted :: "string \<Rightarrow> string" where
  "quoted s = [CHR 0x22] @ s @ [CHR 0x22]"

definition static_service :: pyval where
  "static_service = obj
     [(''name'', S ''third-party-static-ui''), (''id'', S ''878509ff-0d35-56d2-ba0e-aec6bbf00fe7''),
      (''protocol'', S ''http''), (''host'', S ''ui''), (''port'', PInt 80),
      (''tags'', strs [''fapi2-demo'', ''static-ui'']),
      (''routes'', PList [obj
         [(''id'', S ''aaced8a8-6936-520b-96ea-026a7b01b4b6''), (''name'', S ''third-party-static-ui''),
          (''expression'', S (''(http.path == '' @ quoted ''/'' @ '' || http.path == '' @ quoted ''/index.html''
             @ '' || http.path == '' @ quoted ''/evidence.js'' @ '')'')),
          (''protocols'', strs [''https'']), (''strip_path'', PBool False), (''priority'', PInt 100),
          (''tags'', strs [''fapi2-demo'', ''static-ui''])]]),
      (''plugins'', PList [obj
         [(''name'', S ''request-transformer''), (''id'', S ''941cfa0a-ffad-517d-b7b3-0088089513ae''),
          (''tags'', strs [''fapi2-demo'', ''static-ui'']),
          (''config'', obj [(''remove'', obj [(''headers'', strs
             [''Cookie'', ''Authorization'', ''client_assertion'', ''client_assertion_type'', ''X-Client-Cert'',
              ''X-Fapi-Route'', ''X-Fapi-Client-Auth'', ''X-Demo-Department'', ''X-Demo-Route''])])])]])]"

definition hop_certificate :: pyval where
  "hop_certificate = obj
     [(''id'', S hop_id), (''cert'', S ''foundation-template:DECK_BACKEND_HOP_CERT_YAML''),
      (''key'', S ''{vault://env/BACKEND_HOP_KEY}''), (''tags'', strs [''fapi2-demo'', ''backend-hop''])]"

section \<open>The router flavor of the base Compose file\<close>

definition router_flavor :: "('z repo_scheme) \<Rightarrow> pyval res" where
  "router_flavor files =
     recast_if (\<lambda>e. e \<in> {YAMLError, KeyError, TypeError})
       (ValueError (lit ''third-party runtime base Compose router declaration is malformed''))
       (rbind (read_text files ''docker-compose.yml'') (\<lambda>source.
        rbind (yaml_load files source) (\<lambda>compose.
        rbind (subscript compose ''services'') (\<lambda>services.
        rbind (subscript services ''kong-third-party'') (\<lambda>service.
        rbind (subscript service ''environment'') (\<lambda>environment.
        subscript environment ''KONG_ROUTER_FLAVOR''))))))"

section \<open>Services and routes\<close>

definition expected_service :: "string \<Rightarrow> (string \<times> pyval) list" where
  "expected_service route =
     [(''id'', S (the (map_of THIRD_PARTY_RUNTIME_SERVICE_IDS route))),
      (''name'', S (''third-party-'' @ route_slug route @ ''-api'')),
      (''protocol'', S ''https''), (''host'', S ''third-party-backend''), (''port'', PInt 9444),
      (''path'', S (''/evidence/'' @ route_slug route)), (''tls_verify'', PBool True),
      (''ca_certificates'', strs [ca_id]), (''client_certificate'', S hop_id),
      (''tags'', strs [''fapi2-demo'', route_slug route])]"

definition SERVICE_FIELDS :: "string list" where
  "SERVICE_FIELDS =
     [''id'', ''name'', ''protocol'', ''host'', ''port'', ''path'', ''tls_verify'', ''ca_certificates'',
      ''client_certificate'', ''tags'', ''routes'', ''plugins'']"

definition expected_route :: "string \<Rightarrow> pyval" where
  "expected_route route = obj
     [(''id'', S (route_ids route)), (''name'', S (''third-party-'' @ route_slug route)),
      (''paths'', strs [paths route]), (''protocols'', strs [''https'']), (''strip_path'', PBool True),
      (''tags'', strs [''fapi2-demo'', route_slug route])]"

definition has_fields :: "pydict \<Rightarrow> (string \<times> pyval) list \<Rightarrow> bool" where
  "has_fields d expected \<longleftrightarrow> list_all (\<lambda>(name, v). py_eq (dget d name) v) expected"

definition route_of :: "pydict \<Rightarrow> string option" where
  "route_of service =
     (case dget service ''routes'' of
        PList [PDict r] \<Rightarrow> find (\<lambda>name. py_eq (dget r ''id'') (S (route_ids name))) [''A'', ''B'']
      | _ \<Rightarrow> None)"

definition the_route :: "pydict \<Rightarrow> pydict" where
  "the_route service = the_dict (hd (the_list (dget service ''routes'')))"

definition routeErr :: "string \<Rightarrow> string \<Rightarrow> 'a res" where
  "routeErr route msg = raiseV (''third-party Route '' @ route @ msg)"

definition check_service :: "(string \<times> pydict) list \<Rightarrow> pyval \<Rightarrow> (string \<times> pydict) list res" where
  "check_service by_route v =
     (if \<not> is_dict v then raiseV ''third-party runtime service is malformed''
      else let service = the_dict v in
        case route_of service of
          None \<Rightarrow> raiseV ''third-party runtime Route A/B IDs are missing or duplicated''
        | Some route \<Rightarrow>
            if map_of by_route route \<noteq> None
            then raiseV ''third-party runtime Route A/B IDs are missing or duplicated''
            else if \<not> keys_are service SERVICE_FIELDS \<or> \<not> has_fields service (expected_service route)
            then routeErr route '' must use verified internal HTTPS and its fixed TLS identity''
            else if \<not> keys_are (the_route service) [''id'', ''name'', ''paths'', ''protocols'', ''strip_path'', ''tags'']
                    \<or> \<not> py_eq (PDict (the_route service)) (expected_route route)
            then routeErr route '' identity or HTTPS scope changed''
            else Inr (by_route @ [(route, service)]))"

section \<open>Plugins\<close>

definition expected_plugins :: "string \<Rightarrow> string list" where
  "expected_plugins route =
     (if route = ''B'' then [''cors'', ''fapi-client-auth-bridge'', ''openid-connect'', ''request-transformer'']
      else [''cors'', ''openid-connect'', ''request-transformer''])"

definition plugin_id :: "string \<Rightarrow> pyval \<Rightarrow> pyval" where
  "plugin_id route name =
     (case map_of (map (\<lambda>(n, i). (S n, S i)) (THIRD_PARTY_RUNTIME_PLUGIN_IDS route)) name of
        None \<Rightarrow> PNone | Some i \<Rightarrow> i)"

definition plugin_fields :: "pydict \<Rightarrow> string list" where
  "plugin_fields p =
     [''name'', ''id'', ''tags'', ''config'']
     @ (if dget p ''name'' = S ''fapi-client-auth-bridge'' then [''protocols''] else [])"

definition check_plugin :: "string \<Rightarrow> unit \<Rightarrow> pyval \<Rightarrow> unit res" where
  "check_plugin route u v =
     (let p = the_dict v in
      if \<not> is_dict v \<or> \<not> keys_are p (plugin_fields p)
         \<or> \<not> py_eq (dget p ''id'') (plugin_id route (dget p ''name''))
         \<or> \<not> py_eq (dget p ''tags'') (strs [''fapi2-demo'', route_slug route])
      then routeErr route '' plugin scope changed'' else Inr ())"

text \<open>\<open>{plugin["name"]: plugin for plugin in plugins}[name]\<close>.\<close>

definition plugin_named :: "pyval list \<Rightarrow> string \<Rightarrow> pydict res" where
  "plugin_named plugins name =
     (case find (\<lambda>p. dget (the_dict p) ''name'' = S name) (rev plugins) of
        None \<Rightarrow> Inl KeyError | Some p \<Rightarrow> Inr (the_dict p))"

definition cors_config :: pyval where
  "cors_config = obj
     [(''origins'', strs [''https://localhost:8443'']), (''methods'', strs [''GET'', ''POST'', ''OPTIONS'']),
      (''headers'', strs [''Accept'', ''Content-Type'', ''X-Demo-Department'', ''X-Demo-Route'']),
      (''credentials'', PBool True), (''max_age'', PInt 3600)]"

definition transformer_config :: "string \<Rightarrow> pyval" where
  "transformer_config route = obj
     [(''remove'', obj [(''headers'', strs
         [''Cookie'', ''client_assertion'', ''client_assertion_type'', ''X-Client-Cert'', ''X-Fapi-Route'',
          ''X-Fapi-Client-Auth''])]),
      (''add'', obj [(''headers'', strs
         [''X-Fapi-Route:'' @ route_slug route,
          ''X-Fapi-Client-Auth:'' @ (if route = ''A'' then ''tls_client_auth'' else ''private_key_jwt+mtls'')])])]"

definition issuer :: string where
  "issuer = ''https://localhost:8444/realms/fapi-demo''"

definition internal :: string where
  "internal = ''https://keycloak:8443/realms/fapi-demo''"

definition common_oidc :: "(string \<times> pyval) list" where
  "common_oidc =
     [(''issuer'', S issuer),
      (''authorization_endpoint'', S (issuer @ ''/protocol/openid-connect/auth'')),
      (''token_endpoint'', S (internal @ ''/protocol/openid-connect/token'')),
      (''mtls_token_endpoint'', S (internal @ ''/protocol/openid-connect/token'')),
      (''jwks_endpoint'', S (internal @ ''/protocol/openid-connect/certs'')),
      (''pushed_authorization_request_endpoint'', S (internal @ ''/protocol/openid-connect/ext/par/request'')),
      (''revocation_endpoint'', S (internal @ ''/protocol/openid-connect/revoke'')),
      (''mtls_revocation_endpoint'', S (internal @ ''/protocol/openid-connect/revoke'')),
      (''end_session_endpoint'', S (issuer @ ''/protocol/openid-connect/logout'')),
      (''client_auth'', strs [''tls_client_auth'']),
      (''token_endpoint_auth_method'', S ''tls_client_auth''),
      (''tls_client_auth_ssl_verify'', PBool True),
      (''ssl_verify'', PBool True),
      (''auth_methods'', strs [''authorization_code'', ''session'']),
      (''scopes'', strs [''openid'', ''profile'']),
      (''response_mode'', S ''query''),
      (''login_tokens'', strs [''id_token'']),
      (''require_proof_key_for_code_exchange'', PBool True),
      (''require_pushed_authorization_requests'', PBool True),
      (''login_action'', S ''redirect''),
      (''logout_uri_suffix'', S ''/logout''),
      (''logout_methods'', strs [''GET'', ''POST'']),
      (''logout_revoke'', PBool True),
      (''logout_revoke_access_token'', PBool True),
      (''logout_revoke_refresh_token'', PBool True)]"

definition expected_jwk :: pyval where
  "expected_jwk = obj
     [(''kty'', S ''RSA''), (''kid'', S ''foundation-template:DECK_ROUTE_B_JWK_KID''), (''use'', S ''sig''),
      (''alg'', S ''PS256''), (''n'', S ''foundation-template:DECK_ROUTE_B_JWK_N''),
      (''e'', S ''foundation-template:DECK_ROUTE_B_JWK_E''),
      (''d'', S ''{vault://env/route-b-jwk/d}''), (''p'', S ''{vault://env/route-b-jwk/p}''),
      (''q'', S ''{vault://env/route-b-jwk/q}''), (''dp'', S ''{vault://env/route-b-jwk/dp}''),
      (''dq'', S ''{vault://env/route-b-jwk/dq}''), (''qi'', S ''{vault://env/route-b-jwk/qi}'')]"

definition expected_bridge :: pyval where
  "expected_bridge = obj
     [(''issuer'', S issuer),
      (''discovery_endpoint'', S ''https://keycloak:8443/realms/fapi-demo/.well-known/openid-configuration''),
      (''client_id'', S (clients ''B'')),
      (''private_key_file'', S ''/etc/kong/fapi/route-b-pkj.key''),
      (''tls_certificate_file'', S ''/etc/kong/fapi/route-b.crt''),
      (''key_id'', S ''foundation-template:DECK_ROUTE_B_JWK_KID''),
      (''assertion_delivery'', S ''transport_delegate''),
      (''assertion_ttl'', PInt 60)]"

definition check_oidc :: "string \<Rightarrow> pyval \<Rightarrow> pydict res" where
  "check_oidc route v =
     (let oidc = the_dict v in
      if \<not> is_dict v \<or> \<not> has_fields oidc common_oidc
      then routeErr route '' OIDC HTTPS, TLS, or session policy changed''
      else if \<not> py_eq (dget oidc ''client_id'') (strs [clients route])
              \<or> \<not> py_eq (dget oidc ''tls_client_auth_cert_id'') (S (certificate_ids route))
      then routeErr route '' TLS client identity changed''
      else if \<not> py_eq (dget oidc ''login_redirect_uri'') (strs [''https://localhost:8443/?authenticated='' @ route_slug route])
              \<or> \<not> py_eq (dget oidc ''logout_redirect_uri'') (strs [''https://localhost:8443/?logout='' @ route_slug route])
      then raiseV ''third-party single-origin terminal changed''
      else if \<not> py_eq (dget oidc ''redirect_uri'') (strs [''https://localhost:8443'' @ paths route])
      then routeErr route '' callback URI changed''
      else if \<not> py_eq (dget oidc ''upstream_access_token_header'') (S ''authorization:bearer'')
      then routeErr route '' upstream token behavior changed''
      else Inr oidc)"

definition check_route_a :: "pydict \<Rightarrow> unit res" where
  "check_route_a oidc =
     raise_if (\<not> py_eq (dget oidc ''client_auth'') (strs [''tls_client_auth''])
         \<or> \<not> py_eq (dget oidc ''pushed_authorization_request_endpoint_auth_method'') (S ''tls_client_auth'')
         \<or> \<not> py_eq (dget oidc ''revocation_endpoint_auth_method'') (S ''tls_client_auth''))
       (ValueError (lit ''third-party Route A must use TLS client authentication for PAR and revocation''))"

definition check_route_b :: "pydict \<Rightarrow> pyval list \<Rightarrow> unit res" where
  "check_route_b oidc plugins =
     (if \<not> py_eq (dget oidc ''client_alg'') (strs [''PS256''])
         \<or> \<not> py_eq (dget oidc ''pushed_authorization_request_endpoint_auth_method'') (S ''private_key_jwt'')
         \<or> \<not> py_eq (dget oidc ''revocation_endpoint_auth_method'') (S ''private_key_jwt'')
      then raiseV ''third-party Route B must retain stock PS256 PAR/revocation and TLS token auth''
      else if \<not> py_eq (dget oidc ''client_jwk'') (PList [expected_jwk])
      then raiseV ''third-party Route B stock PS256 signing JWK references changed''
      else rbind (plugin_named plugins ''fapi-client-auth-bridge'') (\<lambda>bridge.
        raise_if (\<not> py_eq (dget bridge ''protocols'') (strs [''grpc'', ''grpcs'', ''http'', ''https''])
            \<or> \<not> py_eq (dget bridge ''config'') expected_bridge)
          (ValueError (lit ''third-party Route B bridge must use the fixed transport delegate''))))"

definition check_plugin_configs :: "string \<Rightarrow> pyval list \<Rightarrow> unit res" where
  "check_plugin_configs route plugins =
     rbind (plugin_named plugins ''cors'') (\<lambda>cors.
     if \<not> py_eq (dget cors ''config'') cors_config then raiseV ''third-party browser origin contract changed''
     else rbind (plugin_named plugins ''request-transformer'') (\<lambda>transformer.
       if \<not> py_eq (dget transformer ''config'') (transformer_config route)
       then raiseV ''third-party backend credential header boundary changed''
       else rbind (plugin_named plugins ''openid-connect'') (\<lambda>openid.
         rbind (check_oidc route (dget openid ''config'')) (\<lambda>oidc.
         if route = ''A'' then check_route_a oidc else check_route_b oidc plugins))))"

definition check_route_plugins :: "string \<Rightarrow> pydict \<Rightarrow> unit res" where
  "check_route_plugins route service =
     (let v = dget service ''plugins''; plugins = the_list v in
      if \<not> is_list v
         \<or> \<not> py_eq_list (map (\<lambda>p. dget (the_dict p) ''name'') (filter is_dict plugins)) (map S (expected_plugins route))
      then routeErr route '' plugin set changed''
      else rbind (foldr_res (check_plugin route) () plugins) (\<lambda>_. check_plugin_configs route plugins))"

section \<open>The whole state\<close>

definition RUNTIME_KEYS :: "string list" where
  "RUNTIME_KEYS = [''_format_version'', ''_info'', ''certificates'', ''ca_certificates'', ''plugins'', ''services'']"

definition check_header :: "pydict \<Rightarrow> unit res" where
  "check_header state =
     (if \<not> keys_are state RUNTIME_KEYS
      then raiseV ''third-party runtime state contains unexpected entities or fields''
      else raise_if (\<not> py_eq (dget state ''_format_version'') (S ''3.0'')
                     \<or> \<not> py_eq (dget state ''_info'') (obj [(''select_tags'', strs [''fapi2-demo''])]))
             (ValueError (lit ''third-party runtime select_tags must remain fapi2-demo'')))"

definition check_preserved :: "pydict \<Rightarrow> pydict \<Rightarrow> unit \<Rightarrow> string \<Rightarrow> unit res" where
  "check_preserved state foundation u entity_set =
     raise_if (\<not> py_eq (dget state entity_set) (dget foundation entity_set))
       (ValueError (lit (''third-party runtime must preserve the foundation '' @ entity_set @ '' exactly'')))"

text \<open>\<open>foundation["certificates"] + [hop]\<close> raises unless the foundation holds a list there.\<close>

definition check_certificates :: "pydict \<Rightarrow> pydict \<Rightarrow> unit res" where
  "check_certificates state foundation =
     rbind (ditem foundation ''certificates'') (\<lambda>certificates.
     if \<not> is_list certificates then Inl TypeError
     else raise_if (\<not> py_eq (dget state ''certificates'') (PList (the_list certificates @ [hop_certificate])))
       (ValueError (lit ''third-party runtime must preserve A/B certificates and add exactly the backend hop identity'')))"

definition check_services :: "pydict \<Rightarrow> unit res" where
  "check_services state =
     (let v = dget state ''services''; services = the_list v in
      if \<not> is_list v \<or> length services \<noteq> 3
      then raiseV ''third-party runtime must contain exactly fixed Route A/B and static UI services''
      else if \<not> py_eq (last services) static_service
      then raiseV ''static UI service, exact paths, or credential stripping changed''
      else rbind (foldr_res check_service [] (butlast services)) (\<lambda>by_route.
        if set (map fst by_route) \<noteq> {''A'', ''B''}
        then raiseV ''third-party runtime Route A/B services are incomplete''
        else rbind (check_route_plugins ''A'' (the (map_of by_route ''A''))) (\<lambda>_.
             check_route_plugins ''B'' (the (map_of by_route ''B'')))))"

definition check_third_party_runtime :: "pydict \<Rightarrow> pydict \<Rightarrow> pydict res" where
  "check_third_party_runtime state foundation =
     rbind (check_header state) (\<lambda>_.
     rbind (foldr_res (check_preserved state foundation) () [''ca_certificates'', ''plugins'']) (\<lambda>_.
     rbind (check_certificates state foundation) (\<lambda>_.
     rbind (check_services state) (\<lambda>_. Inr state))))"

definition validate_third_party_runtime_state :: "('z repo_scheme) \<Rightarrow> pydict res" where
  "validate_third_party_runtime_state files =
     (let state_path = the (map_of RUNTIME_FILES ''third-party'') in
      if \<not> is_file files ''docker-compose.yml'' \<or> is_symlink files ''docker-compose.yml''
      then raiseV ''third-party runtime base Compose declaration is missing or unsafe''
      else rbind (router_flavor files) (\<lambda>flavor.
        if \<not> py_eq flavor (S ''expressions'')
        then raiseV ''third-party runtime requires the base Compose expressions router''
        else if \<not> is_file files state_path \<or> is_symlink files state_path
        then raiseV ''third-party runtime state is missing or unsafe''
        else rbind (validate_foundation_state files ''third-party'') (\<lambda>_.
          rbind (parse_foundation files state_path) (\<lambda>state.
          rbind (parse_foundation files (the (map_of FOUNDATION_FILES ''third-party''))) (\<lambda>foundation.
          check_third_party_runtime state foundation)))))"

section \<open>What is accepted\<close>

lemma py_eq_items_mem:
  "py_eq_items d e \<Longrightarrow> (k, v) \<in> set d \<Longrightarrow> \<exists>w. dlookup e k = Some w \<and> py_eq v w"
  by (induction d) (auto split: option.splits)

text \<open>A dictionary equal to an expected one agrees with it on every key it has.\<close>

lemma py_eq_obj_dget:
  assumes "py_eq (PDict d) (obj kvs)" "dhas d k" "map_of kvs k = Some w"
  shows "py_eq (dget d k) w"
proof -
  let ?e = "map (\<lambda>(k, v). (K k, v)) kvs"
  obtain v where v: "map_of d (K k) = Some v" using assms(2) by (auto simp: dhas_def)
  have "py_eq_items d ?e" using assms(1) by (simp add: obj_def)
  then obtain x where x: "dlookup ?e (K k) = Some x" "py_eq v x"
    using py_eq_items_mem map_of_SomeD [OF v] by blast
  have "map_of ?e (K k) = map_of kvs k" by (induction kvs) auto
  then have "x = w" using x(1) assms(3) by (simp add: dlookup_KStr)
  then show ?thesis using x(2) v by (simp add: dget_def)
qed

definition scoped_plugin :: "string \<Rightarrow> string \<Rightarrow> pydict \<Rightarrow> bool" where
  "scoped_plugin route name p \<longleftrightarrow>
     dget p ''name'' = S name \<and> keys_are p (plugin_fields p)
     \<and> dget p ''id'' = plugin_id route (S name) \<and> dget p ''tags'' = strs [''fapi2-demo'', route_slug route]"

definition oidc_contract :: "string \<Rightarrow> pyval \<Rightarrow> bool" where
  "oidc_contract route v \<longleftrightarrow>
     (\<exists>oidc. v = PDict oidc \<and> has_fields oidc common_oidc
        \<and> dget oidc ''client_id'' = strs [clients route]
        \<and> dget oidc ''tls_client_auth_cert_id'' = S (certificate_ids route)
        \<and> dget oidc ''login_redirect_uri'' = strs [''https://localhost:8443/?authenticated='' @ route_slug route]
        \<and> dget oidc ''logout_redirect_uri'' = strs [''https://localhost:8443/?logout='' @ route_slug route]
        \<and> dget oidc ''redirect_uri'' = strs [''https://localhost:8443'' @ paths route]
        \<and> dget oidc ''upstream_access_token_header'' = S ''authorization:bearer'')"

definition route_a_plugins :: "pyval \<Rightarrow> bool" where
  "route_a_plugins v \<longleftrightarrow>
     (\<exists>cors openid transformer oidc. v = PList [PDict cors, PDict openid, PDict transformer]
        \<and> scoped_plugin ''A'' ''cors'' cors \<and> scoped_plugin ''A'' ''openid-connect'' openid
        \<and> scoped_plugin ''A'' ''request-transformer'' transformer
        \<and> py_eq (dget cors ''config'') cors_config
        \<and> py_eq (dget transformer ''config'') (transformer_config ''A'')
        \<and> dget openid ''config'' = PDict oidc \<and> oidc_contract ''A'' (PDict oidc)
        \<and> dget oidc ''client_auth'' = strs [''tls_client_auth'']
        \<and> dget oidc ''pushed_authorization_request_endpoint_auth_method'' = S ''tls_client_auth''
        \<and> dget oidc ''revocation_endpoint_auth_method'' = S ''tls_client_auth'')"

definition route_b_plugins :: "pyval \<Rightarrow> bool" where
  "route_b_plugins v \<longleftrightarrow>
     (\<exists>cors bridge openid transformer oidc.
        v = PList [PDict cors, PDict bridge, PDict openid, PDict transformer]
        \<and> scoped_plugin ''B'' ''cors'' cors \<and> scoped_plugin ''B'' ''fapi-client-auth-bridge'' bridge
        \<and> scoped_plugin ''B'' ''openid-connect'' openid \<and> scoped_plugin ''B'' ''request-transformer'' transformer
        \<and> py_eq (dget cors ''config'') cors_config
        \<and> py_eq (dget transformer ''config'') (transformer_config ''B'')
        \<and> dget openid ''config'' = PDict oidc \<and> oidc_contract ''B'' (PDict oidc)
        \<and> dget oidc ''client_alg'' = strs [''PS256'']
        \<and> dget oidc ''pushed_authorization_request_endpoint_auth_method'' = S ''private_key_jwt''
        \<and> dget oidc ''revocation_endpoint_auth_method'' = S ''private_key_jwt''
        \<and> py_eq (dget oidc ''client_jwk'') (PList [expected_jwk])
        \<and> dget bridge ''protocols'' = strs [''grpc'', ''grpcs'', ''http'', ''https'']
        \<and> py_eq (dget bridge ''config'') expected_bridge)"

definition service_shape :: "string \<Rightarrow> pydict \<Rightarrow> bool" where
  "service_shape route service \<longleftrightarrow>
     keys_are service SERVICE_FIELDS \<and> has_fields service (expected_service route)
     \<and> (\<exists>r. dget service ''routes'' = PList [PDict r]
          \<and> keys_are r [''id'', ''name'', ''paths'', ''protocols'', ''strip_path'', ''tags'']
          \<and> py_eq (PDict r) (expected_route route))"

definition service_contract :: "string \<Rightarrow> pyval \<Rightarrow> bool" where
  "service_contract route v \<longleftrightarrow>
     (\<exists>service. v = PDict service \<and> service_shape route service
        \<and> (if route = ''A'' then route_a_plugins (dget service ''plugins'')
           else route_b_plugins (dget service ''plugins'')))"

definition runtime_contract :: "pydict \<Rightarrow> pydict \<Rightarrow> bool" where
  "runtime_contract state foundation \<longleftrightarrow>
     keys_are state RUNTIME_KEYS \<and> dget state ''_format_version'' = S ''3.0''
     \<and> py_eq (dget state ''_info'') (obj [(''select_tags'', strs [''fapi2-demo''])])
     \<and> py_eq (dget state ''ca_certificates'') (dget foundation ''ca_certificates'')
     \<and> py_eq (dget state ''plugins'') (dget foundation ''plugins'')
     \<and> (\<exists>certs. dget foundation ''certificates'' = PList certs
          \<and> py_eq (dget state ''certificates'') (PList (certs @ [hop_certificate])))
     \<and> (\<exists>services ui. dget state ''services'' = PList (services @ [ui]) \<and> py_eq ui static_service
          \<and> in_some_order (service_contract ''A'') (service_contract ''B'') services)"

lemma check_plugin_iff:
  "check_plugin route () v = Inr () \<longleftrightarrow>
   (\<exists>p. v = PDict p \<and> keys_are p (plugin_fields p) \<and> dget p ''tags'' = strs [''fapi2-demo'', route_slug route]
      \<and> py_eq (dget p ''id'') (plugin_id route (dget p ''name'')))"
  by (cases v) (auto simp: check_plugin_def routeErr_def Let_def)

lemma plugin_id_known:
  assumes "name \<in> set (expected_plugins route)" "route \<in> {''A'', ''B''}"
  shows "py_eq v (plugin_id route (S name)) \<longleftrightarrow> v = plugin_id route (S name)"
  using assms
  by (auto simp: expected_plugins_def plugin_id_def THIRD_PARTY_RUNTIME_PLUGIN_IDS_def split: if_splits)

lemma check_oidc_iff:
  "check_oidc route v = Inr oidc \<longleftrightarrow> v = PDict oidc \<and> oidc_contract route v"
  by (cases v) (auto simp: check_oidc_def oidc_contract_def routeErr_def Let_def)

lemma plugin_named_mem:
  assumes "distinct (map (\<lambda>p. dget p ''name'') ps)" "p \<in> set ps" "dget p ''name'' = S n"
  shows "plugin_named (map PDict ps) n = Inr p"
proof -
  have "find (\<lambda>q. dget (the_dict q) ''name'' = S n) (rev (map PDict ps)) = Some (PDict p)"
    using assms
  proof (induction ps rule: rev_induct)
    case (snoc q ps)
    have "dget q ''name'' \<noteq> S n" if "q \<noteq> p" using snoc.prems that by force
    then show ?case using snoc by (cases "q = p") auto
  qed simp
  then show ?thesis by (simp add: plugin_named_def)
qed

lemma py_eq_list_strs [simp]: "py_eq_list xs (map S ys) \<longleftrightarrow> xs = map S ys"
  by (rule py_eq_list_textual) auto

text \<open>The plugins of a route pass the scope checks exactly when they are the expected ones in order.\<close>

lemma scoped_plugins_iff:
  assumes "route \<in> {''A'', ''B''}"
  shows "is_list v \<and> map (\<lambda>p. dget (the_dict p) ''name'') (filter is_dict (the_list v)) = map S (expected_plugins route)
      \<and> foldr_res (check_plugin route) () (the_list v) = Inr ()
    \<longleftrightarrow> (\<exists>ps. v = PList (map PDict ps) \<and> list_all2 (scoped_plugin route) (expected_plugins route) ps)"
    (is "?l \<longleftrightarrow> ?r")
proof
  assume l: ?l
  then obtain plugins where v: "v = PList plugins" by (cases v) auto
  have ok: "check_plugin route () p = Inr ()" if "p \<in> set plugins" for p
    using l v that by (auto simp: foldr_unit_iff list_all_iff)
  define ps where "ps = map the_dict plugins"
  have dict: "p = PDict (the_dict p)" if "p \<in> set plugins" for p
    using ok [OF that] by (auto simp: check_plugin_iff)
  have eq: "map PDict ps = plugins" unfolding ps_def using dict by (simp add: map_idI)
  have "filter is_dict plugins = plugins" using eq by auto
  then have names: "map (\<lambda>p. dget p ''name'') ps = map S (expected_plugins route)"
    using l v by (simp add: ps_def comp_def)
  have "scoped_plugin route (expected_plugins route ! i) (ps ! i)" if "i < length ps" for i
  proof -
    have i: "i < length (expected_plugins route)" using that map_eq_imp_length_eq [OF names] by simp
    have n: "dget (ps ! i) ''name'' = S (expected_plugins route ! i)"
      using that i arg_cong [OF names, of "\<lambda>xs. xs ! i"] by simp
    have "PDict (ps ! i) \<in> set plugins" using that eq [symmetric] by simp
    from ok [OF this] show ?thesis
      using n plugin_id_known [OF nth_mem [OF i] assms] by (auto simp: check_plugin_iff scoped_plugin_def)
  qed
  moreover have "length ps = length (expected_plugins route)" using map_eq_imp_length_eq [OF names] by simp
  ultimately have "list_all2 (scoped_plugin route) (expected_plugins route) ps"
    by (simp add: list_all2_conv_all_nth)
  then show ?r using v eq by blast
next
  assume ?r
  then obtain ps where v: "v = PList (map PDict ps)"
    and sc: "list_all2 (scoped_plugin route) (expected_plugins route) ps" by blast
  have "map (\<lambda>p. dget p ''name'') ps = map S (expected_plugins route)"
    using sc by (induction rule: list_all2_induct) (auto simp: scoped_plugin_def)
  moreover have "list_all (\<lambda>p. check_plugin route () p = Inr ()) (map PDict ps)"
  proof -
    have "check_plugin route () (PDict p) = Inr ()" if p: "p \<in> set ps" for p
    proof -
      obtain n where n: "n \<in> set (expected_plugins route)" "scoped_plugin route n p"
        using sc p by (metis in_set_conv_nth list_all2_conv_all_nth)
      then show ?thesis using plugin_id_known [OF n(1) assms] by (simp add: check_plugin_iff scoped_plugin_def)
    qed
    then show ?thesis by (simp add: list_all_iff)
  qed
  ultimately show ?l using v by (simp add: foldr_unit_iff comp_def filter_map o_def)
qed

lemma check_route_plugins_iff:
  assumes "route \<in> {''A'', ''B''}"
  shows "check_route_plugins route service = Inr () \<longleftrightarrow>
    (\<exists>ps. dget service ''plugins'' = PList (map PDict ps)
       \<and> list_all2 (scoped_plugin route) (expected_plugins route) ps
       \<and> check_plugin_configs route (map PDict ps) = Inr ())"
proof -
  let ?v = "dget service ''plugins''"
  have "check_route_plugins route service = Inr () \<longleftrightarrow>
    (is_list ?v \<and> map (\<lambda>p. dget (the_dict p) ''name'') (filter is_dict (the_list ?v)) = map S (expected_plugins route)
      \<and> foldr_res (check_plugin route) () (the_list ?v) = Inr ()) \<and> check_plugin_configs route (the_list ?v) = Inr ()"
    by (auto simp: check_route_plugins_def Let_def routeErr_def rbind_eq_Inr_iff split: if_splits)
  then show ?thesis unfolding scoped_plugins_iff [OF assms] by auto
qed

lemma check_route_a_plugins:
  "check_route_plugins ''A'' service = Inr () \<longleftrightarrow> route_a_plugins (dget service ''plugins'')"
proof -
  have named: "plugin_named (map PDict [c, o1, t]) ''cors'' = Inr c"
    "plugin_named (map PDict [c, o1, t]) ''openid-connect'' = Inr o1"
    "plugin_named (map PDict [c, o1, t]) ''request-transformer'' = Inr t"
    if "scoped_plugin ''A'' ''cors'' c" "scoped_plugin ''A'' ''openid-connect'' o1"
      "scoped_plugin ''A'' ''request-transformer'' t" for c o1 t
    using that by (simp_all add: plugin_named_def scoped_plugin_def)
  have exp: "expected_plugins ''A'' = [''cors'', ''openid-connect'', ''request-transformer'']"
    by (simp add: expected_plugins_def)
  show ?thesis (is "?l \<longleftrightarrow> ?r")
  proof
    assume ?l
    then obtain ps where ps: "dget service ''plugins'' = PList (map PDict ps)"
      "list_all2 (scoped_plugin ''A'') (expected_plugins ''A'') ps"
      "check_plugin_configs ''A'' (map PDict ps) = Inr ()"
      using check_route_plugins_iff [of "''A''" service] by auto
    obtain c o1 t where three: "ps = [c, o1, t]" "scoped_plugin ''A'' ''cors'' c"
      "scoped_plugin ''A'' ''openid-connect'' o1" "scoped_plugin ''A'' ''request-transformer'' t"
      using ps(2) unfolding exp by (auto simp: list_all2_Cons1)
    show ?r
      using ps three named [OF three(2-4)] unfolding route_a_plugins_def
      by (auto simp: check_plugin_configs_def check_oidc_iff check_route_a_def rbind_eq_Inr_iff
          raise_if_eq_Inr_iff split: if_splits)
  next
    assume ?r
    then obtain c o1 t oidc where v: "dget service ''plugins'' = PList (map PDict [c, o1, t])"
      and sc: "scoped_plugin ''A'' ''cors'' c" "scoped_plugin ''A'' ''openid-connect'' o1"
        "scoped_plugin ''A'' ''request-transformer'' t"
      and cfg: "py_eq (dget c ''config'') cors_config" "py_eq (dget t ''config'') (transformer_config ''A'')"
        "dget o1 ''config'' = PDict oidc" "oidc_contract ''A'' (PDict oidc)"
        "dget oidc ''client_auth'' = strs [''tls_client_auth'']"
        "dget oidc ''pushed_authorization_request_endpoint_auth_method'' = S ''tls_client_auth''"
        "dget oidc ''revocation_endpoint_auth_method'' = S ''tls_client_auth''"
      unfolding route_a_plugins_def by auto
    have "check_oidc ''A'' (PDict oidc) = Inr oidc" using cfg(4) by (simp add: check_oidc_iff)
    then have "check_plugin_configs ''A'' (map PDict [c, o1, t]) = Inr ()"
      unfolding check_plugin_configs_def named [OF sc] rbind_Inr using cfg by (simp add: check_route_a_def)
    moreover have "list_all2 (scoped_plugin ''A'') (expected_plugins ''A'') [c, o1, t]" using sc by (simp add: exp)
    ultimately show ?l using v check_route_plugins_iff [of "''A''" service] by blast
  qed
qed

lemma check_route_b_plugins:
  "check_route_plugins ''B'' service = Inr () \<longleftrightarrow> route_b_plugins (dget service ''plugins'')"
proof -
  have named: "plugin_named (map PDict [c, b, o1, t]) ''cors'' = Inr c"
    "plugin_named (map PDict [c, b, o1, t]) ''fapi-client-auth-bridge'' = Inr b"
    "plugin_named (map PDict [c, b, o1, t]) ''openid-connect'' = Inr o1"
    "plugin_named (map PDict [c, b, o1, t]) ''request-transformer'' = Inr t"
    if "scoped_plugin ''B'' ''cors'' c" "scoped_plugin ''B'' ''fapi-client-auth-bridge'' b"
      "scoped_plugin ''B'' ''openid-connect'' o1" "scoped_plugin ''B'' ''request-transformer'' t" for c b o1 t
    using that by (simp_all add: plugin_named_def scoped_plugin_def)
  have exp: "expected_plugins ''B''
      = [''cors'', ''fapi-client-auth-bridge'', ''openid-connect'', ''request-transformer'']"
    by (simp add: expected_plugins_def)
  show ?thesis (is "?l \<longleftrightarrow> ?r")
  proof
    assume ?l
    then obtain ps where ps: "dget service ''plugins'' = PList (map PDict ps)"
      "list_all2 (scoped_plugin ''B'') (expected_plugins ''B'') ps"
      "check_plugin_configs ''B'' (map PDict ps) = Inr ()"
      using check_route_plugins_iff [of "''B''" service] by auto
    obtain c b o1 t where four: "ps = [c, b, o1, t]" "scoped_plugin ''B'' ''cors'' c"
      "scoped_plugin ''B'' ''fapi-client-auth-bridge'' b"
      "scoped_plugin ''B'' ''openid-connect'' o1" "scoped_plugin ''B'' ''request-transformer'' t"
      using ps(2) unfolding exp by (auto simp: list_all2_Cons1)
    show ?r
      using ps four named [OF four(2-5)] unfolding route_b_plugins_def
      by (auto simp: check_plugin_configs_def check_oidc_iff check_route_b_def rbind_eq_Inr_iff
          raise_if_eq_Inr_iff split: if_splits)
  next
    assume ?r
    then obtain c b o1 t oidc where v: "dget service ''plugins'' = PList (map PDict [c, b, o1, t])"
      and sc: "scoped_plugin ''B'' ''cors'' c" "scoped_plugin ''B'' ''fapi-client-auth-bridge'' b"
        "scoped_plugin ''B'' ''openid-connect'' o1" "scoped_plugin ''B'' ''request-transformer'' t"
      and cfg: "py_eq (dget c ''config'') cors_config" "py_eq (dget t ''config'') (transformer_config ''B'')"
        "dget o1 ''config'' = PDict oidc" "oidc_contract ''B'' (PDict oidc)"
        "dget oidc ''client_alg'' = strs [''PS256'']"
        "dget oidc ''pushed_authorization_request_endpoint_auth_method'' = S ''private_key_jwt''"
        "dget oidc ''revocation_endpoint_auth_method'' = S ''private_key_jwt''"
        "py_eq (dget oidc ''client_jwk'') (PList [expected_jwk])"
        "dget b ''protocols'' = strs [''grpc'', ''grpcs'', ''http'', ''https'']"
        "py_eq (dget b ''config'') expected_bridge"
      unfolding route_b_plugins_def by auto
    have oidc: "check_oidc ''B'' (PDict oidc) = Inr oidc" using cfg(4) by (simp add: check_oidc_iff)
    have "check_route_b oidc (map PDict [c, b, o1, t]) = Inr ()"
      unfolding check_route_b_def named [OF sc] rbind_Inr using cfg by simp
    then have "check_plugin_configs ''B'' (map PDict [c, b, o1, t]) = Inr ()"
      unfolding check_plugin_configs_def named [OF sc] rbind_Inr using cfg oidc by simp
    moreover have "list_all2 (scoped_plugin ''B'') (expected_plugins ''B'') [c, b, o1, t]" using sc by (simp add: exp)
    ultimately show ?l using v check_route_plugins_iff [of "''B''" service] by blast
  qed
qed

lemma route_of_shape:
  assumes "service_shape route service" "route \<in> {''A'', ''B''}"
  shows "route_of service = Some route"
proof -
  obtain r where r: "dget service ''routes'' = PList [PDict r]"
    "keys_are r [''id'', ''name'', ''paths'', ''protocols'', ''strip_path'', ''tags'']"
    "py_eq (PDict r) (expected_route route)"
    using assms(1) by (auto simp: service_shape_def)
  have "py_eq (dget r ''id'') (S (route_ids route))"
    by (rule py_eq_obj_dget [OF r(3) [unfolded expected_route_def]]) (simp_all add: keys_are_dhas [OF r(2)])
  then show ?thesis using assms(2) r(1) by (auto simp: route_of_def route_ids_def)
qed

lemma route_of_range: "route_of service = Some route \<Longrightarrow> route \<in> {''A'', ''B''} \<and> (\<exists>r. dget service ''routes'' = PList [PDict r])"
  by (auto simp: route_of_def split: pyval.splits list.splits if_splits)

lemma check_service_iff:
  "check_service by_route v = Inr res \<longleftrightarrow>
   (\<exists>route service. v = PDict service \<and> route \<in> {''A'', ''B''} \<and> service_shape route service
      \<and> map_of by_route route = None \<and> res = by_route @ [(route, service)])" (is "?l \<longleftrightarrow> ?r")
proof
  assume l: ?l
  then obtain service where v: "v = PDict service" by (cases v) (auto simp: check_service_def)
  obtain route where route: "route_of service = Some route"
    using l v by (cases "route_of service") (auto simp: check_service_def)
  obtain r where "dget service ''routes'' = PList [PDict r]" using route_of_range [OF route] by blast
  then show ?r
    using l v route route_of_range [OF route]
    by (auto simp: check_service_def service_shape_def the_route_def routeErr_def split: if_splits)
next
  assume ?r
  then obtain route service where v: "v = PDict service" "route \<in> {''A'', ''B''}"
    and shape: "service_shape route service" and new: "map_of by_route route = None"
    and res: "res = by_route @ [(route, service)]" by blast
  show ?l
    using route_of_shape [OF shape v(2)] shape new res v(1)
    by (auto simp: check_service_def service_shape_def the_route_def simp del: py_eq.simps)
qed

lemma in_some_orderI:
  "P a \<and> Q b \<Longrightarrow> in_some_order P Q [a, b]" "P a \<and> Q b \<Longrightarrow> in_some_order P Q [b, a]"
  by (auto simp: in_some_order_def)

lemma check_two_services:
  "foldr_res check_service [] [x, y] = Inr by_route \<longleftrightarrow>
   (\<exists>a b sa sb. x = PDict sa \<and> y = PDict sb \<and> service_shape a sa \<and> service_shape b sb
      \<and> (a = ''A'' \<and> b = ''B'' \<or> a = ''B'' \<and> b = ''A'') \<and> by_route = [(a, sa), (b, sb)])"
  by (auto simp: rbind_eq_Inr_iff check_service_iff)

lemma check_services_iff:
  "check_services state = Inr () \<longleftrightarrow>
   (\<exists>services ui. dget state ''services'' = PList (services @ [ui]) \<and> py_eq ui static_service
      \<and> in_some_order (service_contract ''A'') (service_contract ''B'') services)" (is "?l \<longleftrightarrow> ?r")
proof
  assume l: ?l
  then obtain all where v: "dget state ''services'' = PList all" and len: "length all = 3"
    by (cases "dget state ''services''") (auto simp: check_services_def Let_def split: if_splits)
  then obtain x y ui where all: "all = [x, y, ui]" by (auto simp: numeral_3_eq_3 length_Suc_conv)
  obtain by_route where ui: "py_eq ui static_service" and run: "foldr_res check_service [] [x, y] = Inr by_route"
    and plugins: "check_route_plugins ''A'' (the (map_of by_route ''A'')) = Inr ()"
      "check_route_plugins ''B'' (the (map_of by_route ''B'')) = Inr ()"
    using l v all by (auto simp: check_services_def Let_def rbind_eq_Inr_iff split: if_splits)
  have "in_some_order (service_contract ''A'') (service_contract ''B'') [x, y]"
    using run plugins unfolding check_two_services check_route_a_plugins check_route_b_plugins
    by (auto simp: service_contract_def intro: in_some_orderI)
  then show ?r using v all ui by (intro exI [of _ "[x, y]"] exI [of _ ui]) simp
next
  assume ?r
  then obtain services a b ui where v0: "dget state ''services'' = PList (services @ [ui])"
    and ui: "py_eq ui static_service" and ab: "services = [a, b] \<or> services = [b, a]"
    and contracts: "service_contract ''A'' a" "service_contract ''B'' b"
    unfolding in_some_order_def by blast
  obtain sa sb where dicts: "a = PDict sa" "b = PDict sb"
    and shape: "service_shape ''A'' sa" "service_shape ''B'' sb"
    and plugins: "route_a_plugins (dget sa ''plugins'')" "route_b_plugins (dget sb ''plugins'')"
    using contracts by (auto simp: service_contract_def)
  obtain x y where v: "dget state ''services'' = PList [x, y, ui]"
    and order: "x = PDict sa \<and> y = PDict sb \<or> x = PDict sb \<and> y = PDict sa"
    using v0 ab dicts by fastforce
  obtain by_route where "foldr_res check_service [] [x, y] = Inr by_route" "set (map fst by_route) = {''A'', ''B''}"
    "map_of by_route ''A'' = Some sa" "map_of by_route ''B'' = Some sb"
    using order
  proof
    assume o1: "x = PDict sa \<and> y = PDict sb"
    have "foldr_res check_service [] [x, y] = Inr [(''A'', sa), (''B'', sb)]"
      unfolding check_two_services using o1 shape by simp
    then show thesis by (intro that) auto
  next
    assume o2: "x = PDict sb \<and> y = PDict sa"
    have "foldr_res check_service [] [x, y] = Inr [(''B'', sb), (''A'', sa)]"
      unfolding check_two_services using o2 shape by simp
    then show thesis by (intro that) auto
  qed
  then show ?l
    using v ui check_route_a_plugins [of sa] check_route_b_plugins [of sb] plugins
    by (simp add: check_services_def Let_def)
qed

lemma check_third_party_runtime_iff:
  "check_third_party_runtime state foundation = Inr r \<longleftrightarrow> r = state \<and> runtime_contract state foundation"
proof -
  have "check_certificates state foundation = Inr () \<longleftrightarrow> (\<exists>certs. dget foundation ''certificates'' = PList certs
      \<and> py_eq (dget state ''certificates'') (PList (certs @ [hop_certificate])))"
    by (cases "map_of foundation (K ''certificates'')")
      (auto simp: check_certificates_def ditem_def dget_def rbind_eq_Inr_iff raise_if_eq_Inr_iff is_list_iff
        split: if_splits)
  moreover have "check_header state = Inr () \<longleftrightarrow> keys_are state RUNTIME_KEYS
      \<and> dget state ''_format_version'' = S ''3.0''
      \<and> py_eq (dget state ''_info'') (obj [(''select_tags'', strs [''fapi2-demo''])])"
    by (auto simp: check_header_def raise_if_eq_Inr_iff)
  ultimately show ?thesis
    unfolding check_third_party_runtime_def runtime_contract_def check_services_iff [symmetric]
    by (auto simp: rbind_eq_Inr_iff check_preserved_def raise_if_eq_Inr_iff)
qed

text \<open>
  C17: The runtime state of the third-party gateway is accepted exactly when the base Compose file
  declares the expressions router, both state files are regular, the foundation holds its contract,
  and the state repeats the foundation entities, adds the backend hop certificate, and consists of
  the two fixed route services, each with verified mutual TLS to the backend and the plugins and
  OIDC policy of its route, followed by the static UI service.
\<close>

theorem third_party_runtime_accepted_iff:
  "validate_third_party_runtime_state files = Inr state \<longleftrightarrow>
   is_file files ''docker-compose.yml'' \<and> \<not> is_symlink files ''docker-compose.yml''
   \<and> router_flavor files = Inr (S ''expressions'')
   \<and> is_file files ''kong/third-party-gateway.yaml'' \<and> \<not> is_symlink files ''kong/third-party-gateway.yaml''
   \<and> is_file files ''kong/foundation/third-party.yaml''
   \<and> parse_foundation files ''kong/third-party-gateway.yaml'' = Inr state
   \<and> (\<exists>foundation. parse_foundation files ''kong/foundation/third-party.yaml'' = Inr foundation
        \<and> third_party_foundation foundation \<and> runtime_contract state foundation)"
proof -
  have f: "validate_foundation_state files ''third-party'' = Inr () \<longleftrightarrow> is_file files ''kong/foundation/third-party.yaml''
      \<and> (\<exists>d. parse_foundation files ''kong/foundation/third-party.yaml'' = Inr d \<and> third_party_foundation d)"
    by (simp add: validate_foundation_state_def FOUNDATION_FILES_def rbind_eq_Inr_iff check_third_party_iff)
  have paths: "the (map_of RUNTIME_FILES ''third-party'') = ''kong/third-party-gateway.yaml''"
    "the (map_of FOUNDATION_FILES ''third-party'') = ''kong/foundation/third-party.yaml''"
    by (simp_all add: RUNTIME_FILES_def FOUNDATION_FILES_def)
  have "validate_third_party_runtime_state files = Inr state \<longleftrightarrow>
    (is_file files ''docker-compose.yml'' \<and> \<not> is_symlink files ''docker-compose.yml'')
    \<and> router_flavor files = Inr (S ''expressions'')
    \<and> (is_file files ''kong/third-party-gateway.yaml'' \<and> \<not> is_symlink files ''kong/third-party-gateway.yaml'')
    \<and> validate_foundation_state files ''third-party'' = Inr ()
    \<and> (\<exists>st fo. parse_foundation files ''kong/third-party-gateway.yaml'' = Inr st
        \<and> parse_foundation files ''kong/foundation/third-party.yaml'' = Inr fo
        \<and> check_third_party_runtime st fo = Inr state)"
    unfolding validate_third_party_runtime_state_def Let_def paths by (auto simp: rbind_eq_Inr_iff)
  then show ?thesis unfolding f check_third_party_runtime_iff by auto
qed

end
