(* ===== verification/Api_Runtime.thy ===== *)
theory Api_Runtime
  imports Third_Party_Runtime
begin

text \<open>
  The runtime state of the API gateway: \<open>validate_api_runtime_state\<close> of
  \<open>src/scripts/wp3_runtime.py\<close> with its fixed identifiers, header sanitizer and OIDC policy, and the
  exact set of states it accepts.
\<close>

section \<open>Fixed values\<close>

definition INTROSPECTION_CERT_ID :: string where
  "INTROSPECTION_CERT_ID = ''44444444-4444-4444-8444-444444444444''"

definition UPSTREAM_CERT_ID :: string where
  "UPSTREAM_CERT_ID = ''55555555-5555-4555-8555-555555555555''"

definition SHARED_API_CA_ID :: string where
  "SHARED_API_CA_ID = ''33333333-3333-4333-8333-333333333333''"

definition RUNTIME_ENTITY_IDS :: "(string \<times> string) list" where
  "RUNTIME_ENTITY_IDS =
     [(''fapi-api-resource-server'', ''a5fe77b4-93fd-4f84-bb31-71c245dedd09''),
      (''fapi-api-resource-server-route'', ''14d51ff4-613c-4769-96ce-330cd8075855''),
      (''pre-function'', ''4374b81d-77c4-4da1-9dfe-fbb0949a13ba''),
      (''openid-connect'', ''ed488e53-d29d-4db7-ba89-78b3bbf35df3''),
      (''tls-handshake-modifier'', ''6c3a195b-2fa7-4ed8-8ae4-72db3d2c537c''),
      (''tls-metadata-headers'', ''a6b8e2df-3612-47db-b863-b6dee55f2dc4'')]"

definition HEADER_SANITIZER_LUA :: pystr where
  \<open>HEADER_SANITIZER_LUA = join [10] (map lit
     [''local headers, err = kong.request.get_headers(1000)'',
      ''if not headers or err then'',
      ''  return kong.response.exit(431, { message = "Request headers exceed inspection limit" })'',
      ''end'',
      '''',
      ''local count = 0'',
      ''for name in pairs(headers) do'',
      ''  count = count + 1'',
      ''  local value = headers[name]'',
      ''  if type(value) == "table" then'',
      ''    count = count + #value - 1'',
      ''  end'',
      ''  if count >= 1000 then'',
      ''    return kong.response.exit(431, { message = "Request headers exceed inspection limit" })'',
      ''  end'',
      '''',
      ''  local normalized = string.lower(name):gsub("_", "-")'',
      ''  if normalized == "cookie"'',
      ''    or normalized:sub(1, 7) == "x-demo-"'',
      ''    or normalized:sub(1, 7) == "x-fapi-"'',
      ''    or normalized:sub(1, 13) == "x-client-cert"'',
      ''    or normalized:sub(1, 16) == "client-assertion" then'',
      ''    kong.service.request.clear_header(name)'',
      ''  end'',
      ''end'',
      '''',
      ''local function reject_query_authentication()'',
      ''  kong.response.set_header("WWW-Authenticate", '' @ [CHR 0x27] @ ''Bearer error="invalid_token"'' @ [CHR 0x27] @ '')'',
      ''  return kong.response.exit(401, { message = "Invalid access token" })'',
      ''end'',
      '''',
      ''local query_call_ok, query_args, query_error = pcall(kong.request.get_query, 1000)'',
      ''if not query_call_ok or type(query_args) ~= "table" or query_error ~= nil then'',
      ''  return reject_query_authentication()'',
      ''end'',
      '''',
      ''local argument_count = 0'',
      ''for name, value in pairs(query_args) do'',
      ''  if type(name) ~= "string" then'',
      ''    return reject_query_authentication()'',
      ''  end'',
      '''',
      ''  local normalized = string.lower(name):gsub("_", "-")'',
      ''  if normalized == "access-token" then'',
      ''    return reject_query_authentication()'',
      ''  end'',
      '''',
      ''  argument_count = argument_count + 1'',
      ''  if type(value) == "table" then'',
      ''    local occurrences = 0'',
      ''    local highest_index = 0'',
      ''    for index in pairs(value) do'',
      ''      if type(index) ~= "number" or index < 1 or index % 1 ~= 0 then'',
      ''        return reject_query_authentication()'',
      ''      end'',
      ''      occurrences = occurrences + 1'',
      ''      if index > highest_index then'',
      ''        highest_index = index'',
      ''      end'',
      ''    end'',
      ''    if occurrences < 2 or highest_index ~= occurrences then'',
      ''      return reject_query_authentication()'',
      ''    end'',
      ''    argument_count = argument_count + occurrences - 1'',
      ''  elseif type(value) ~= "string" and type(value) ~= "boolean" then'',
      ''    return reject_query_authentication()'',
      ''  end'',
      '''',
      ''  if argument_count >= 1000 then'',
      ''    return reject_query_authentication()'',
      ''  end'',
      ''end''])\<close>

definition expected_oidc_config :: pyval where
  "expected_oidc_config = obj
     [(''issuer'', S ''https://keycloak:8443/realms/fapi-demo/.well-known/openid-configuration''),
      (''introspection_endpoint'', S ''https://keycloak:8443/realms/fapi-demo/protocol/openid-connect/token/introspect''),
      (''mtls_introspection_endpoint'', S ''https://keycloak:8443/realms/fapi-demo/protocol/openid-connect/token/introspect''),
      (''client_id'', strs [''api-gateway-introspection'']),
      (''client_auth'', strs [''tls_client_auth'']),
      (''auth_methods'', strs [''introspection'']),
      (''introspection_endpoint_auth_method'', S ''tls_client_auth''),
      (''introspection_check_active'', PBool True),
      (''cache_introspection'', PBool False),
      (''cache_tokens'', PBool False),
      (''bearer_token_param_type'', strs [''header'']),
      (''upstream_access_token_header'', S ''authorization:bearer''),
      (''tls_client_auth_cert_id'', S INTROSPECTION_CERT_ID),
      (''tls_client_auth_ssl_verify'', PBool True),
      (''ssl_verify'', PBool True),
      (''issuers_allowed'', strs [''https://localhost:8444/realms/fapi-demo'']),
      (''audience_required'', strs [''fapi-demo-api'']),
      (''scopes_required'', strs [''openid'']),
      (''proof_of_possession_mtls'', S ''strict''),
      (''proof_of_possession_auth_methods_validation'', PBool True),
      (''expose_error_code'', PBool True),
      (''upstream_headers'', PList
         [obj [(''header'', S ''X-Demo-Department''), (''path'', strs [''https://fapi-demo.example.com/department''])],
          obj [(''header'', S ''X-Demo-Route''), (''path'', strs [''https://fapi-demo.example.com/route''])]])]"

definition API_SERVICE :: "(string \<times> pyval) list" where
  "API_SERVICE =
     [(''id'', S (the (map_of RUNTIME_ENTITY_IDS ''fapi-api-resource-server''))),
      (''name'', S ''fapi-api-resource-server''), (''protocol'', S ''https''), (''host'', S ''pop-verifier''),
      (''port'', PInt 9443), (''path'', S ''/evidence''), (''tls_verify'', PBool True),
      (''ca_certificates'', strs [SHARED_API_CA_ID]), (''client_certificate'', S UPSTREAM_CERT_ID),
      (''tags'', strs [''fapi2-demo'', ''api''])]"

definition API_SERVICE_FIELDS :: "string list" where
  "API_SERVICE_FIELDS =
     [''id'', ''name'', ''protocol'', ''host'', ''port'', ''path'', ''tls_verify'', ''ca_certificates'',
      ''client_certificate'', ''tags'', ''routes'']"

definition api_route :: pyval where
  "api_route = obj
     [(''id'', S (the (map_of RUNTIME_ENTITY_IDS ''fapi-api-resource-server-route''))),
      (''name'', S ''fapi-api-resource-server-route''), (''paths'', strs [''/fapi-api/evidence'']),
      (''protocols'', strs [''https'']), (''snis'', strs [''kong-api'', ''localhost'']),
      (''strip_path'', PBool True), (''tags'', strs [''fapi2-demo'', ''api''])]"

definition api_ca :: pyval where
  "api_ca = obj
     [(''id'', S SHARED_API_CA_ID), (''cert'', S ''deck-template:DECK_FAPI_CA_CERT_YAML''),
      (''tags'', strs [''fapi2-demo''])]"

definition API_PLUGINS :: "string list" where
  "API_PLUGINS = [''pre-function'', ''openid-connect'', ''tls-handshake-modifier'', ''tls-metadata-headers'']"

section \<open>The checks\<close>

definition check_api_header :: "pydict \<Rightarrow> unit res" where
  "check_api_header state =
     (if \<not> keys_are state [''_format_version'', ''_info'', ''certificates'', ''ca_certificates'', ''services'', ''plugins'']
      then raiseV ''API runtime state has unexpected entities or fields''
      else raise_if (\<not> py_eq (dget state ''_format_version'') (S ''3.0'')
                     \<or> \<not> py_eq (dget state ''_info'') (obj [(''select_tags'', strs [''fapi2-demo''])]))
             (ValueError (lit ''API runtime tag selection changed'')))"

definition check_api_certificates :: "pydict \<Rightarrow> pydict \<Rightarrow> unit res" where
  "check_api_certificates state foundation =
     (if \<not> is_list (dget foundation ''certificates'')
         \<or> \<not> py_eq (dget state ''certificates'') (dget foundation ''certificates'')
      then raiseV ''API runtime must include unchanged API foundation certificates''
      else raise_if (\<not> (case dget state ''ca_certificates'' of PList [ca] \<Rightarrow> py_eq ca api_ca | _ \<Rightarrow> False))
             (ValueError (lit ''API runtime must preserve the existing shared CA identity and tag'')))"

text \<open>As for the transport plugin, \<open>set(service)\<close> precedes any test of the type.\<close>

definition check_api_service :: "pydict \<Rightarrow> pyval res" where
  "check_api_service state =
     (case dget state ''services'' of
        PList [service] \<Rightarrow>
          rbind (set_of service) (\<lambda>fields.
          if set fields \<noteq> set (map K API_SERVICE_FIELDS)
          then raiseV ''API runtime Resource Server Service contract changed''
          else if \<not> is_dict service then Inl AttributeError
          else if \<not> has_fields (the_dict service) API_SERVICE
          then raiseV ''API runtime Resource Server Service contract changed''
          else (case dget (the_dict service) ''routes'' of
                  PList [route] \<Rightarrow>
                    if \<not> py_eq route api_route then raiseV ''API runtime HTTPS Route contract changed'' else Inr route
                | _ \<Rightarrow> raiseV ''API runtime must contain exactly one HTTPS Route''))
      | _ \<Rightarrow> raiseV ''API runtime must contain exactly one Resource Server Service'')"

definition entity_id :: "pyval \<Rightarrow> pyval" where
  "entity_id name =
     (case map_of (map (\<lambda>(n, i). (S n, S i)) RUNTIME_ENTITY_IDS) name of None \<Rightarrow> PNone | Some i \<Rightarrow> i)"

definition check_api_plugin :: "pyval \<Rightarrow> unit \<Rightarrow> pyval \<Rightarrow> unit res" where
  "check_api_plugin route u plugin =
     (let p = the_dict plugin in
      raise_if (\<not> keys_are p [''id'', ''name'', ''route'', ''tags'', ''config'']
          \<or> \<not> py_eq (dget p ''id'') (entity_id (dget p ''name''))
          \<or> \<not> py_eq (dget p ''route'') (dget (the_dict route) ''name'')
          \<or> \<not> py_eq (dget p ''tags'') (strs [''fapi2-demo'', ''api'']))
        (ValueError (lit ''API runtime plugin scope or ownership tags changed'')))"

definition sanitizer_ok :: "pyval \<Rightarrow> bool" where
  "sanitizer_ok v =
     (case v of PDict d \<Rightarrow> keys_are d [''access'']
        \<and> (case dget d ''access'' of PList [PStr lua] \<Rightarrow> py_strip lua = HEADER_SANITIZER_LUA | _ \<Rightarrow> False)
      | _ \<Rightarrow> False)"

definition check_api_configs :: "pyval list \<Rightarrow> unit res" where
  "check_api_configs plugins =
     rbind (plugin_named plugins ''pre-function'') (\<lambda>pre.
     if \<not> sanitizer_ok (dget pre ''config'') then raiseV ''API runtime header-boundary guard changed''
     else rbind (plugin_named plugins ''openid-connect'') (\<lambda>oidc.
     if \<not> py_eq (dget oidc ''config'') expected_oidc_config
     then raiseV ''API runtime OIDC Resource Server policy changed''
     else rbind (plugin_named plugins ''tls-handshake-modifier'') (\<lambda>handshake.
     if \<not> py_eq (dget handshake ''config'') (obj [(''tls_client_certificate'', S ''REQUEST'')])
     then raiseV ''API runtime TLS handshake certificate request changed''
     else rbind (plugin_named plugins ''tls-metadata-headers'') (\<lambda>metadata.
     raise_if (\<not> py_eq (dget metadata ''config'')
                   (obj [(''inject_client_cert_details'', PBool True), (''client_cert_header_name'', S ''X-Client-Cert'')]))
       (ValueError (lit ''API runtime verified client certificate forwarding changed''))))))"

definition check_api_plugins :: "pyval \<Rightarrow> pydict \<Rightarrow> unit res" where
  "check_api_plugins route state =
     (let v = dget state ''plugins''; plugins = the_list v in
      if \<not> is_list v \<or> length plugins \<noteq> length API_PLUGINS then raiseV ''API runtime plugin set is incomplete''
      else if \<not> list_all is_dict plugins then raiseV ''API runtime plugin entity is malformed''
      else rbind (mapr (\<lambda>p. hash_key (dget (the_dict p) ''name'')) plugins) (\<lambda>names.
        if set names \<noteq> set (map K API_PLUGINS) then raiseV ''API runtime contains an unexpected or custom plugin''
        else rbind (foldr_res (check_api_plugin route) () plugins) (\<lambda>_. check_api_configs plugins)))"

definition validate_api_runtime_state :: "('z repo_scheme) \<Rightarrow> pydict res" where
  "validate_api_runtime_state files =
     (let state_path = ''kong/api-gateway.yaml'' in
      if \<not> is_file files state_path \<or> is_symlink files state_path
      then raiseV ''API runtime state is missing or unsafe''
      else rbind (parse_state files state_path) (\<lambda>state.
        rbind (check_api_header state) (\<lambda>_.
        rbind (parse_state files ''kong/foundation/api.yaml'') (\<lambda>foundation.
        rbind (check_api_certificates state foundation) (\<lambda>_.
        rbind (check_api_service state) (\<lambda>route.
        rbind (check_api_plugins route state) (\<lambda>_. Inr state)))))))"

section \<open>What is accepted\<close>

definition api_config_ok :: "pydict \<Rightarrow> bool" where
  "api_config_ok p =
     (if dget p ''name'' = S ''pre-function'' then sanitizer_ok (dget p ''config'')
      else if dget p ''name'' = S ''openid-connect'' then py_eq (dget p ''config'') expected_oidc_config
      else if dget p ''name'' = S ''tls-handshake-modifier''
      then py_eq (dget p ''config'') (obj [(''tls_client_certificate'', S ''REQUEST'')])
      else py_eq (dget p ''config'')
             (obj [(''inject_client_cert_details'', PBool True), (''client_cert_header_name'', S ''X-Client-Cert'')]))"

definition api_plugin_ok :: "pyval \<Rightarrow> pydict \<Rightarrow> bool" where
  "api_plugin_ok route p \<longleftrightarrow>
     keys_are p [''id'', ''name'', ''route'', ''tags'', ''config''] \<and> dget p ''id'' = entity_id (dget p ''name'')
     \<and> py_eq (dget p ''route'') (dget (the_dict route) ''name'') \<and> dget p ''tags'' = strs [''fapi2-demo'', ''api'']
     \<and> api_config_ok p"

text \<open>The four plugins, each exactly once, in any order.\<close>

definition api_plugins :: "pyval \<Rightarrow> pyval \<Rightarrow> bool" where
  "api_plugins route v \<longleftrightarrow>
     (\<exists>ps. v = PList (map PDict ps) \<and> distinct (map (\<lambda>p. dget p ''name'') ps)
        \<and> set (map (\<lambda>p. dget p ''name'') ps) = set (map S API_PLUGINS) \<and> list_all (api_plugin_ok route) ps)"

definition api_service :: "pyval \<Rightarrow> pyval \<Rightarrow> bool" where
  "api_service route v \<longleftrightarrow>
     (\<exists>service. v = PList [PDict service] \<and> keys_are service API_SERVICE_FIELDS \<and> has_fields service API_SERVICE
        \<and> dget service ''routes'' = PList [route] \<and> py_eq route api_route)"

definition api_contract :: "pydict \<Rightarrow> pydict \<Rightarrow> bool" where
  "api_contract state foundation \<longleftrightarrow>
     keys_are state [''_format_version'', ''_info'', ''certificates'', ''ca_certificates'', ''services'', ''plugins'']
     \<and> dget state ''_format_version'' = S ''3.0''
     \<and> py_eq (dget state ''_info'') (obj [(''select_tags'', strs [''fapi2-demo''])])
     \<and> is_list (dget foundation ''certificates'')
     \<and> py_eq (dget state ''certificates'') (dget foundation ''certificates'')
     \<and> (\<exists>ca. dget state ''ca_certificates'' = PList [ca] \<and> py_eq ca api_ca)
     \<and> (\<exists>route. api_service route (dget state ''services'') \<and> api_plugins route (dget state ''plugins''))"

lemma hash_key_KStr: "hash_key v = Inr (KStr t) \<longleftrightarrow> v = PStr t"
  by (cases v) auto

lemma hash_key_names:
  assumes "list_all2 (\<lambda>v k. hash_key v = Inr k) vs ks" "set ks \<subseteq> range KStr"
  shows "ks = map (\<lambda>v. KStr (the_str v)) vs \<and> vs = map (\<lambda>k. PStr (the_str k)) vs"
  using assms by (induction rule: list_all2_induct) (auto simp: hash_key_KStr)

lemma names_are_strings:
  "(\<exists>ks. mapr hash_key vs = Inr ks \<and> set ks = set (map K xs)) \<longleftrightarrow> set vs = set (map S xs)" (is "?l \<longleftrightarrow> ?r")
proof
  assume ?l
  then obtain ks where ks: "list_all2 (\<lambda>v k. hash_key v = Inr k) vs ks" "set ks = set (map K xs)"
    by (auto simp: mapr_eq_Inr_iff)
  have eqs: "ks = map (\<lambda>v. KStr (the_str v)) vs \<and> vs = map (\<lambda>k. PStr (the_str k)) vs"
    using hash_key_names [OF ks(1)] ks(2) by auto
  have "set vs = (\<lambda>k. case k of KStr t \<Rightarrow> PStr t | _ \<Rightarrow> PNone) ` set ks"
  proof -
    have "set vs = (\<lambda>v. PStr (the_str v)) ` set vs" using eqs by (metis list.set_map)
    also have "\<dots> = (\<lambda>k. case k of KStr t \<Rightarrow> PStr t | _ \<Rightarrow> PNone) ` set ks"
      by (subst conjunct1 [OF eqs]) (simp add: image_image)
    finally show ?thesis .
  qed
  then show ?r using ks(2) by (simp add: image_image)
next
  assume r: ?r
  have "hash_key v = Inr (KStr (the_str v))" if "v \<in> set vs" for v using that r by auto
  then have "mapr hash_key vs = Inr (map (\<lambda>v. KStr (the_str v)) vs)"
    by (simp add: mapr_eq_Inr_iff list_all2_map2 list.rel_refl_strong)
  moreover have "set (map (\<lambda>v. KStr (the_str v)) vs) = set (map K xs)" using r by (simp add: image_image)
  ultimately show ?l by blast
qed

lemma mapr_map: "mapr f (map g xs) = mapr (\<lambda>x. f (g x)) xs"
  by (induction xs) auto

lemma API_PLUGINS_distinct: "distinct (map S API_PLUGINS)" "length API_PLUGINS = 4"
  by (simp_all add: API_PLUGINS_def)

lemma entity_id_known: "name \<in> set API_PLUGINS \<Longrightarrow> py_eq v (entity_id (S name)) \<longleftrightarrow> v = entity_id (S name)"
  by (auto simp: API_PLUGINS_def entity_id_def RUNTIME_ENTITY_IDS_def)

text \<open>Configurations are checked by name, so on distinct names every plugin is checked once.\<close>

lemma check_api_configs_iff:
  assumes "distinct (map (\<lambda>p. dget p ''name'') ps)"
    and names: "set (map (\<lambda>p. dget p ''name'') ps) = set (map S API_PLUGINS)"
  shows "check_api_configs (map PDict ps) = Inr () \<longleftrightarrow> list_all api_config_ok ps"
proof -
  have "\<exists>p \<in> set ps. dget p ''name'' = S n \<and> plugin_named (map PDict ps) n = Inr p" if "n \<in> set API_PLUGINS" for n
  proof -
    have "S n \<in> set (map (\<lambda>p. dget p ''name'') ps)" using names that by simp
    then obtain p where "p \<in> set ps" "dget p ''name'' = S n" by auto
    then show ?thesis using plugin_named_mem [OF assms(1)] by blast
  qed
  then obtain a b c d where
    a: "a \<in> set ps" "dget a ''name'' = S ''pre-function''" "plugin_named (map PDict ps) ''pre-function'' = Inr a"
    and b: "b \<in> set ps" "dget b ''name'' = S ''openid-connect''" "plugin_named (map PDict ps) ''openid-connect'' = Inr b"
    and c: "c \<in> set ps" "dget c ''name'' = S ''tls-handshake-modifier''"
      "plugin_named (map PDict ps) ''tls-handshake-modifier'' = Inr c"
    and d: "d \<in> set ps" "dget d ''name'' = S ''tls-metadata-headers''"
      "plugin_named (map PDict ps) ''tls-metadata-headers'' = Inr d"
    by (metis API_PLUGINS_def list.set_intros)
  have inj: "p = q" if "p \<in> set ps" "q \<in> set ps" "dget p ''name'' = dget q ''name''" for p q
    using assms(1) that by (auto simp: distinct_map inj_on_def)
  have "p \<in> {a, b, c, d}" if p: "p \<in> set ps" for p
  proof -
    have "dget p ''name'' \<in> set (map S API_PLUGINS)" unfolding names [symmetric] using p by simp
    then show ?thesis using inj [OF p a(1)] inj [OF p b(1)] inj [OF p c(1)] inj [OF p d(1)] a(2) b(2) c(2) d(2)
      by (auto simp: API_PLUGINS_def)
  qed
  then have "list_all api_config_ok ps \<longleftrightarrow> api_config_ok a \<and> api_config_ok b \<and> api_config_ok c \<and> api_config_ok d"
    using a(1) b(1) c(1) d(1) by (auto simp: list_all_iff)
  moreover have "check_api_configs (map PDict ps) = Inr () \<longleftrightarrow>
      api_config_ok a \<and> api_config_ok b \<and> api_config_ok c \<and> api_config_ok d"
    unfolding check_api_configs_def a(3) b(3) c(3) d(3) rbind_Inr
    using a(2) b(2) c(2) d(2) by (simp add: api_config_ok_def raise_if_eq_Inr_iff)
  ultimately show ?thesis by blast
qed

lemma check_api_plugins_iff: "check_api_plugins route state = Inr () \<longleftrightarrow> api_plugins route (dget state ''plugins'')"
  (is "?l \<longleftrightarrow> ?r")
proof -
  let ?v = "dget state ''plugins''"
  let ?names = "\<lambda>ps. map (\<lambda>p. dget p ''name'') ps"
  have scope: "foldr_res (check_api_plugin route) () (map PDict ps) = Inr () \<and> list_all api_config_ok ps
      \<longleftrightarrow> list_all (api_plugin_ok route) ps" if "set (?names ps) = set (map S API_PLUGINS)" for ps
  proof -
    have "py_eq (dget p ''id'') (entity_id (dget p ''name'')) \<longleftrightarrow> dget p ''id'' = entity_id (dget p ''name'')"
      if p: "p \<in> set ps" for p
    proof -
      have "dget p ''name'' \<in> set (?names ps)" using p by simp
      then obtain n where "n \<in> set API_PLUGINS" "dget p ''name'' = S n"
        using \<open>set (?names ps) = set (map S API_PLUGINS)\<close> by auto
      then show ?thesis using entity_id_known by simp
    qed
    then show ?thesis
      by (auto simp: foldr_unit_iff list_all_iff check_api_plugin_def raise_if_eq_Inr_iff api_plugin_ok_def Let_def)
  qed
  show ?thesis
  proof
    assume l: ?l
    then obtain plugins where v: "?v = PList plugins" and len: "length plugins = 4" and dicts: "list_all is_dict plugins"
      by (cases ?v) (auto simp: check_api_plugins_def Let_def API_PLUGINS_distinct split: if_splits)
    define ps where "ps = map the_dict plugins"
    have "PDict (the_dict p) = p" if "p \<in> set plugins" for p
      using dicts that by (auto simp: list_all_iff is_dict_iff)
    then have ps: "plugins = map PDict ps" by (simp add: ps_def map_idI)
    have "\<exists>ks. mapr hash_key (?names ps) = Inr ks \<and> set ks = set (map K API_PLUGINS)"
      and ok: "foldr_res (check_api_plugin route) () (map PDict ps) = Inr ()" "check_api_configs (map PDict ps) = Inr ()"
      using l v ps dicts len
      by (auto simp: check_api_plugins_def Let_def rbind_eq_Inr_iff mapr_map split: if_splits)
    then have names: "set (?names ps) = set (map S API_PLUGINS)" by (simp only: names_are_strings)
    have "card (set (?names ps)) = length (?names ps)"
      using names distinct_card [OF API_PLUGINS_distinct(1)] API_PLUGINS_distinct(2) len ps by simp
    then have dist: "distinct (?names ps)" by (rule card_distinct)
    then show ?r
      using v ps names ok scope [OF names] check_api_configs_iff [OF dist names] by (auto simp: api_plugins_def)
  next
    assume ?r
    then obtain ps where v: "?v = PList (map PDict ps)" and dist: "distinct (?names ps)"
      and names: "set (?names ps) = set (map S API_PLUGINS)" and ok: "list_all (api_plugin_ok route) ps"
      by (auto simp: api_plugins_def)
    have "length ps = 4"
      using distinct_card [OF dist] distinct_card [OF API_PLUGINS_distinct(1)] names API_PLUGINS_distinct(2) by simp
    moreover obtain ks where "mapr hash_key (?names ps) = Inr ks" "set ks = set (map K API_PLUGINS)"
      using names names_are_strings [of "?names ps" API_PLUGINS] by blast
    ultimately show ?l
      using v ok scope [OF names] check_api_configs_iff [OF dist names]
      by (simp add: check_api_plugins_def Let_def mapr_map API_PLUGINS_distinct list_all_iff)
  qed
qed

lemma check_api_service_iff: "check_api_service state = Inr route \<longleftrightarrow> api_service route (dget state ''services'')"
proof (cases "dget state ''services''")
  case (PList ss)
  show ?thesis
  proof (cases "\<exists>d. ss = [PDict d]")
    case True
    then obtain d where d: "ss = [PDict d]" by blast
    show ?thesis
    proof (cases "dget d ''routes''")
      case (PList rs)
      then show ?thesis using \<open>dget state ''services'' = PList ss\<close> d
        by (cases rs) (auto simp: check_api_service_def api_service_def keys_are_def split: list.splits)
    qed (use PList d in \<open>auto simp: check_api_service_def api_service_def keys_are_def\<close>)
  next
    case False
    have "check_api_service state \<noteq> Inr route"
    proof (cases ss)
      case (Cons v rest)
      then show ?thesis using False PList
        by (cases v) (auto simp: check_api_service_def rbind_def split: list.splits sum.splits if_splits)
    qed (use PList in \<open>simp add: check_api_service_def\<close>)
    then show ?thesis using False PList by (auto simp: api_service_def)
  qed
qed (auto simp: check_api_service_def api_service_def)

lemma check_api_certificates_iff:
  "check_api_certificates state foundation = Inr () \<longleftrightarrow>
   is_list (dget foundation ''certificates'') \<and> py_eq (dget state ''certificates'') (dget foundation ''certificates'')
   \<and> (\<exists>ca. dget state ''ca_certificates'' = PList [ca] \<and> py_eq ca api_ca)"
  by (auto simp: check_api_certificates_def raise_if_eq_Inr_iff split: pyval.splits list.splits)

text \<open>
  C18: The runtime state of the API gateway is accepted exactly when the state file is regular, both
  files parse, and the state holds the unchanged foundation certificates, the shared CA, the one
  resource server service with verified mutual TLS and its HTTPS route, and the four plugins once
  each, with the header sanitizer, the strict introspection policy and the certificate forwarding
  unchanged.
\<close>

theorem api_runtime_accepted_iff:
  "validate_api_runtime_state files = Inr state \<longleftrightarrow>
   is_file files ''kong/api-gateway.yaml'' \<and> \<not> is_symlink files ''kong/api-gateway.yaml''
   \<and> parse_state files ''kong/api-gateway.yaml'' = Inr state
   \<and> (\<exists>foundation. parse_state files ''kong/foundation/api.yaml'' = Inr foundation \<and> api_contract state foundation)"
proof -
  have header: "check_api_header state = Inr () \<longleftrightarrow>
      keys_are state [''_format_version'', ''_info'', ''certificates'', ''ca_certificates'', ''services'', ''plugins'']
      \<and> dget state ''_format_version'' = S ''3.0''
      \<and> py_eq (dget state ''_info'') (obj [(''select_tags'', strs [''fapi2-demo''])])"
    by (auto simp: check_api_header_def raise_if_eq_Inr_iff)
  have "validate_api_runtime_state files = Inr state \<longleftrightarrow>
    is_file files ''kong/api-gateway.yaml'' \<and> \<not> is_symlink files ''kong/api-gateway.yaml''
    \<and> parse_state files ''kong/api-gateway.yaml'' = Inr state \<and> check_api_header state = Inr ()
    \<and> (\<exists>foundation. parse_state files ''kong/foundation/api.yaml'' = Inr foundation
        \<and> check_api_certificates state foundation = Inr ()
        \<and> (\<exists>route. check_api_service state = Inr route \<and> check_api_plugins route state = Inr ()))"
    unfolding validate_api_runtime_state_def Let_def by (auto simp: rbind_eq_Inr_iff)
  then show ?thesis
    unfolding header check_api_certificates_iff check_api_service_iff check_api_plugins_iff api_contract_def by blast
qed

end
