(* ===== verification/Deck_Diff.thy ===== *)
theory Deck_Diff
  imports Api_Runtime "HOL-Library.Multiset" "HOL-Library.List_Lexorder" "HOL-Library.Product_Lexorder"
begin

text \<open>
  The decK diff report of the API runtime (\<open>src/scripts/wp3_runtime.py\<close>): parsing and normalising
  the report, the scope check that allows nothing but a no-op or the reviewed migration, and the
  check of the operations a human approval names.

  An operation identity and a normalised change are records with the fields the source keeps in
  dictionaries; \<open>Counter\<close> equality is equality of multisets. \<open>str.lower\<close> is modelled on Latin-1,
  which is exact for the entity kinds: no character beyond it has a lower case that occurs in them.
\<close>

section \<open>Entities\<close>

datatype op = Creating | Updating | Deleting

record identity =
  i_kind :: pystr
  i_name :: pystr
  i_id :: "pystr option"

record change =
  ch_kind :: pystr
  ch_name :: pystr
  ch_old :: pyval
  ch_new :: pyval

record 'a per_op =
  creating :: "'a list"
  updating :: "'a list"
  deleting :: "'a list"

definition LEGACY_API_SERVICE_ROUTE_TAGS :: "(string \<times> string) list" where
  "LEGACY_API_SERVICE_ROUTE_TAGS = [(''fapi-mtls-service'', ''route-a''), (''fapi-pkj-mtls-service'', ''route-b'')]"

definition LEGACY_API_ROUTE_SERVICE_TAGS :: "(string \<times> string) list" where
  "LEGACY_API_ROUTE_SERVICE_TAGS = [(''fapi-mtls-route'', ''route-a''), (''fapi-pkj-mtls-route'', ''route-b'')]"

definition LEGACY_API_PLUGIN_ROUTE_TAGS :: "(string \<times> string) list" where
  "LEGACY_API_PLUGIN_ROUTE_TAGS =
     [(''cors'', ''route-a''), (''request-transformer'', ''route-a''), (''openid-connect'', ''route-a''),
      (''cors'', ''route-b''), (''request-transformer'', ''route-b''), (''openid-connect'', ''route-b''),
      (''fapi-client-auth-bridge'', ''route-b'')]"

definition EXPECTED_RUNTIME_CREATE_KINDS :: "(string \<times> string) list" where
  "EXPECTED_RUNTIME_CREATE_KINDS =
     [(''fapi-api-resource-server'', ''service''), (''fapi-api-resource-server-route'', ''route''),
      (''pre-function'', ''plugin''), (''openid-connect'', ''plugin''), (''tls-handshake-modifier'', ''plugin''),
      (''tls-metadata-headers'', ''plugin'')]"

definition EXPECTED_RUNTIME_MIGRATION_SUMMARY :: pyval where
  "EXPECTED_RUNTIME_MIGRATION_SUMMARY =
     obj [(''creating'', PInt 6), (''updating'', PInt 0), (''deleting'', PInt 13), (''total'', PInt 19)]"

definition RUNTIME_SERVICE_NAME :: string where "RUNTIME_SERVICE_NAME = ''fapi-api-resource-server''"
definition RUNTIME_ROUTE_NAME :: string where "RUNTIME_ROUTE_NAME = ''fapi-api-resource-server-route''"

definition lits :: "(string \<times> string) list \<Rightarrow> (pystr \<times> pystr) list" where
  "lits xs = map (\<lambda>(a, b). (lit a, lit b)) xs"

definition canonical_entity_kind :: "pystr \<Rightarrow> string option" where
  "canonical_entity_kind kind =
     map_of (map (\<lambda>(k, v). (lit k, v))
       [(''service'', ''service''), (''services'', ''service''), (''route'', ''route''), (''routes'', ''route''),
        (''plugin'', ''plugin''), (''plugins'', ''plugin''), (''certificate'', ''certificate''),
        (''certificates'', ''certificate'')]) (py_lower kind)"

section \<open>One entry of the report\<close>

definition op_name :: "op \<Rightarrow> string" where
  "op_name p = (case p of Creating \<Rightarrow> ''creating'' | Updating \<Rightarrow> ''updating'' | Deleting \<Rightarrow> ''deleting'')"

text \<open>The old and new entity of an entry, in the shape decK reports for the operation.\<close>

definition entry_entity :: "op \<Rightarrow> pyval \<Rightarrow> pyval \<Rightarrow> pydict res" where
  "entry_entity p old new =
     (let entity = (if p = Updating then old else new) in
      if \<not> is_dict entity then raiseV ''decK API runtime diff report entity body is incomplete''
      else if p = Creating \<and> (old \<noteq> PNone \<or> \<not> is_dict new) then raiseV ''decK API create body is malformed''
      else if p = Updating \<and> (\<not> is_dict old \<or> \<not> is_dict new) then raiseV ''decK API update body is malformed''
      else if p = Deleting \<and> (\<not> is_dict new \<or> old \<noteq> PNone) then raiseV ''decK API delete body is malformed''
      else Inr (the_dict entity))"

definition entry_id :: "op \<Rightarrow> pydict \<Rightarrow> pyval \<Rightarrow> pyval \<Rightarrow> pystr option res" where
  "entry_id p entity old new =
     (let v = dget entity ''id'' in
      if v \<noteq> PNone \<and> \<not> nonempty_str v then raiseV ''decK API runtime diff report entity ID is malformed''
      else if p \<in> {Updating, Deleting} \<and> v = PNone
      then raiseV ''decK API existing entity operation omitted its ID''
      else if p = Updating \<and> \<not> py_eq (dget (the_dict old) ''id'') (dget (the_dict new) ''id'')
      then raiseV ''decK API update changed an existing entity ID''
      else Inr (case v of PStr i \<Rightarrow> Some i | _ \<Rightarrow> None))"

definition entry_name :: "pystr \<Rightarrow> pystr \<Rightarrow> pydict \<Rightarrow> pystr res" where
  "entry_name kind name entity =
     (if canonical_entity_kind kind = Some ''plugin''
      then (if \<not> nonempty_str (dget entity ''name'')
            then raiseV ''decK plugin diff body omitted its canonical entity name''
            else Inr (the_str (dget entity ''name'')))
      else Inr name)"

definition read_entry :: "op \<Rightarrow> pyval \<Rightarrow> (identity \<times> change) res" where
  "read_entry p v =
     (if \<not> (case v of PDict e \<Rightarrow> keys_are e [''kind'', ''name'', ''body''] | _ \<Rightarrow> False)
      then raiseV ''decK API runtime diff report entity is malformed''
      else let e = the_dict v; kind = dget e ''kind''; name = dget e ''name''; body = dget e ''body'' in
        if \<not> nonempty_str kind \<or> \<not> nonempty_str name \<or> \<not> is_dict body
        then raiseV ''decK API runtime diff report entity identity is incomplete''
        else if \<not> keys_are (the_dict body) [''old'', ''new'']
        then raiseV ''decK API runtime diff entity body does not match the pinned schema''
        else let old = dget (the_dict body) ''old''; new = dget (the_dict body) ''new'' in
          rbind (entry_entity p old new) (\<lambda>entity.
          rbind (entry_id p entity old new) (\<lambda>i.
          rbind (entry_name (the_str kind) (the_str name) entity) (\<lambda>n.
          Inr (\<lparr>i_kind = the_str kind, i_name = n, i_id = i\<rparr>,
               \<lparr>ch_kind = the_str kind, ch_name = the_str name, ch_old = old, ch_new = new\<rparr>)))))"

definition sort_by :: "identity \<times> 'a \<Rightarrow> pystr \<times> pystr \<times> pystr" where
  "sort_by pair =
     (i_kind (fst pair), i_name (fst pair), case i_id (fst pair) of None \<Rightarrow> [] | Some i \<Rightarrow> i)"

definition read_operation :: "pydict \<Rightarrow> pydict \<Rightarrow> op \<Rightarrow> (identity \<times> change) list res" where
  "read_operation changes summary p =
     (let v = dget changes (op_name p) in
      if \<not> is_list v then raiseV ''decK API runtime diff report operation list is malformed''
      else rbind (mapr (read_entry p) (the_list v)) (\<lambda>entries.
        let pairs = sort_key sort_by entries in
        if \<not> distinct (map fst pairs) then raiseV ''decK API runtime diff report has duplicate operation identities''
        else if dget summary (op_name p) \<noteq> PInt (int (length pairs))
        then raiseV ''decK API runtime diff report summary does not match its operation identities''
        else Inr pairs))"

section \<open>The scope of a migration\<close>

definition legacy_route_tag :: "pydict \<Rightarrow> pystr option" where
  "legacy_route_tag entity =
     (case dget entity ''tags'' of
        PList [PStr x, PStr y] \<Rightarrow>
          if x \<noteq> y \<and> lit ''fapi2-demo'' \<in> {x, y}
          then (let v = (if x = lit ''fapi2-demo'' then y else x)
                in if v \<in> {lit ''route-a'', lit ''route-b''} then Some v else None)
          else None
      | _ \<Rightarrow> None)"

definition relation_id :: "pydict \<Rightarrow> string \<Rightarrow> pystr \<Rightarrow> pystr option" where
  "relation_id entity field expected_name =
     (case dget entity field of
        PDict r \<Rightarrow>
          if keys_are r [''id'', ''name''] \<and> nonempty_str (dget r ''id'') \<and> py_eq (dget r ''name'') (PStr expected_name)
          then Some (the_str (dget r ''id'')) else None
      | _ \<Rightarrow> None)"

definition certificate_relation_id :: "pydict \<Rightarrow> string \<Rightarrow> pystr option" where
  "certificate_relation_id entity field =
     (case dget entity field of
        PDict r \<Rightarrow> if keys_are r [''id''] \<and> nonempty_str (dget r ''id'') then Some (the_str (dget r ''id'')) else None
      | _ \<Rightarrow> None)"

definition runtime_id :: "string \<Rightarrow> pystr" where
  "runtime_id name = lit (the (map_of RUNTIME_ENTITY_IDS name))"

definition protected_ids :: "pystr set" where
  "protected_ids =
     set (map lit ([SHARED_API_CA_ID, INTROSPECTION_CERT_ID, UPSTREAM_CERT_ID] @ map snd RUNTIME_ENTITY_IDS))"

definition check_create :: "unit \<Rightarrow> identity \<times> change \<Rightarrow> unit res" where
  "check_create u pair =
     (case pair of (identity, entry) \<Rightarrow>
      let entity = the_dict (ch_new entry); kind = canonical_entity_kind (i_kind identity) in
      if kind = Some ''plugin''
         \<and> (ch_name entry \<noteq> i_name identity @ lit '' for route '' @ lit RUNTIME_ROUTE_NAME
            \<or> dhas entity ''service''
            \<or> relation_id entity ''route'' (lit RUNTIME_ROUTE_NAME) \<noteq> Some (runtime_id RUNTIME_ROUTE_NAME))
      then raiseV ''API runtime plugin create descriptor or Route binding changed''
      else if kind \<noteq> Some ''plugin'' \<and> ch_name entry \<noteq> i_name identity
      then raiseV ''API runtime create report name does not match its canonical entity name''
      else if kind = Some ''route''
         \<and> relation_id entity ''service'' (lit RUNTIME_SERVICE_NAME) \<noteq> Some (runtime_id RUNTIME_SERVICE_NAME)
      then raiseV ''API runtime Route create is not bound to the fixed Resource Server Service''
      else raise_if (map_option lit kind \<noteq> map_of (lits EXPECTED_RUNTIME_CREATE_KINDS) (i_name identity)
          \<or> \<not> py_eq (dget entity ''name'') (PStr (i_name identity))
          \<or> \<not> py_eq (dget entity ''tags'') (strs [''fapi2-demo'', ''api'']))
        (ValueError (lit ''API runtime diff create kind, canonical name, or ownership tags changed'')))"

record delete_state =
  services_by_route :: "(pystr \<times> pystr) list"
  named_deletes :: "(string \<times> pystr \<times> pystr) list"
  certificate_rows :: "(identity \<times> change \<times> pystr) list"

text \<open>The name of the legacy service of a route tag.\<close>

definition legacy_service :: "pystr \<Rightarrow> pystr" where
  "legacy_service route_tag =
     (case find (\<lambda>(_, tag). lit tag = route_tag) LEGACY_API_SERVICE_ROUTE_TAGS of
        Some (service, _) \<Rightarrow> lit service | None \<Rightarrow> [])"

definition check_named_delete ::
    "delete_state \<Rightarrow> string \<Rightarrow> pystr \<Rightarrow> pystr \<Rightarrow> identity \<Rightarrow> change \<Rightarrow> delete_state res" where
  "check_named_delete st kind name route_tag identity entry =
     (let st' = st\<lparr>named_deletes := (kind, name, route_tag) # named_deletes st\<rparr> in
      rbind (if kind = ''service''
             then (if map_of (lits LEGACY_API_SERVICE_ROUTE_TAGS) name \<noteq> Some route_tag
                      \<or> map_of (services_by_route st) route_tag \<noteq> None
                   then raiseV ''API runtime Service delete is outside the legacy Route boundary''
                   else Inr (st'\<lparr>services_by_route := (route_tag, the (i_id identity)) # services_by_route st\<rparr>))
             else if kind = ''route''
             then (if map_of (lits LEGACY_API_ROUTE_SERVICE_TAGS) name \<noteq> Some route_tag
                   then raiseV ''API runtime Route delete is outside the legacy Route boundary'' else Inr st')
             else if kind = ''plugin''
             then (if (name, route_tag) \<notin> set (lits LEGACY_API_PLUGIN_ROUTE_TAGS)
                   then raiseV ''API runtime plugin delete is outside the legacy Route boundary''
                   else if ch_name entry \<noteq> name @ lit '' for service '' @ legacy_service route_tag
                   then raiseV ''legacy plugin display name changed from its Service association'' else Inr st')
             else raiseV ''API runtime delete kind is outside the legacy Route boundary'') (\<lambda>st''.
      if kind \<in> {''service'', ''route''} \<and> ch_name entry \<noteq> name
      then raiseV ''API runtime delete report name does not match its canonical entity name'' else Inr st''))"

definition check_delete :: "delete_state \<Rightarrow> identity \<times> change \<Rightarrow> delete_state res" where
  "check_delete st pair =
     (case pair of (identity, entry) \<Rightarrow>
      let entity = the_dict (ch_new entry) in
      if canonical_entity_kind (i_kind identity) = None \<or> the (i_id identity) \<in> protected_ids
         \<or> \<not> py_eq (dget entity ''id'') (PStr (the (i_id identity)))
      then raiseV ''API runtime migration attempted an unknown or protected delete''
      else case legacy_route_tag entity of
        None \<Rightarrow> raiseV ''API runtime migration delete has tags outside the legacy Route boundary''
      | Some route_tag \<Rightarrow>
          if canonical_entity_kind (i_kind identity) = Some ''certificate''
          then Inr (st\<lparr>certificate_rows := certificate_rows st @ [(identity, entry, route_tag)]\<rparr>)
          else if \<not> py_eq (dget entity ''name'') (PStr (i_name identity))
          then raiseV ''API runtime delete name does not match its decK identity''
          else check_named_delete st (the (canonical_entity_kind (i_kind identity))) (i_name identity) route_tag identity entry)"

definition expected_named :: "(string \<times> pystr \<times> pystr) list" where
  "expected_named =
     map (\<lambda>(name, tag). (''service'', lit name, lit tag)) LEGACY_API_SERVICE_ROUTE_TAGS
     @ map (\<lambda>(name, tag). (''route'', lit name, lit tag)) LEGACY_API_ROUTE_SERVICE_TAGS
     @ map (\<lambda>(name, tag). (''plugin'', lit name, lit tag)) LEGACY_API_PLUGIN_ROUTE_TAGS"

definition check_certificate_row ::
    "(pystr \<times> pystr) list \<Rightarrow> identity \<times> change \<times> pystr \<Rightarrow> (pystr \<times> pystr) list res" where
  "check_certificate_row by_route row =
     (case row of (identity, entry, route_tag) \<Rightarrow>
      if the (i_id identity) \<in> protected_ids
         \<or> \<not> py_eq (dget (the_dict (ch_new entry)) ''id'') (PStr (the (i_id identity)))
      then raiseV ''API runtime migration attempted to delete a protected certificate''
      else Inr ((route_tag, the (i_id identity)) # by_route))"

definition check_relations ::
    "(pystr \<times> pystr) list \<Rightarrow> (pystr \<times> pystr) list \<Rightarrow> unit \<Rightarrow> identity \<times> change \<Rightarrow> unit res" where
  "check_relations services certificates u pair =
     (case pair of (identity, entry) \<Rightarrow>
      let entity = the_dict (ch_new entry); kind = canonical_entity_kind (i_kind identity);
          route_tag = the (legacy_route_tag entity) in
      if kind = Some ''service''
      then raise_if (certificate_relation_id entity ''client_certificate'' \<noteq> map_of certificates route_tag
                     \<or> \<not> py_eq (dget entity ''ca_certificates'') (strs [SHARED_API_CA_ID]))
             (ValueError (lit ''legacy Service certificate relations changed from the Route-owned certificates''))
      else if kind \<in> {Some ''route'', Some ''plugin''}
      then raise_if (relation_id entity ''service'' (legacy_service route_tag) \<noteq> map_of services route_tag)
             (ValueError (lit ''legacy Route or plugin is not scoped to its matching legacy Service''))
      else Inr ())"

definition check_deletes :: "(identity \<times> change) list \<Rightarrow> unit res" where
  "check_deletes deletes =
     rbind (foldr_res check_delete \<lparr>services_by_route = [], named_deletes = [], certificate_rows = []\<rparr> deletes) (\<lambda>st.
     if mset (named_deletes st) \<noteq> mset expected_named
        \<or> set (map fst (services_by_route st)) \<noteq> {lit ''route-a'', lit ''route-b''}
     then raiseV ''API runtime deletes do not match the 11 known legacy Services, Routes, and plugins''
     else if mset (map (\<lambda>(_, _, tag). tag) (certificate_rows st)) \<noteq> {#lit ''route-a'', lit ''route-b''#}
     then raiseV ''API runtime migration must delete the two Route-scoped certificates only''
     else rbind (foldr_res check_certificate_row [] (certificate_rows st)) (\<lambda>certificates.
       foldr_res (check_relations (services_by_route st) certificates) () deletes))"

definition validate_runtime_diff_scope :: "(identity \<times> change) per_op \<Rightarrow> unit res" where
  "validate_runtime_diff_scope r =
     (if creating r = [] \<and> updating r = [] \<and> deleting r = [] then Inr ()
      else if length (creating r) \<noteq> 6 \<or> length (updating r) \<noteq> 0 \<or> length (deleting r) \<noteq> 13
      then raiseV ''API runtime migration must match the reviewed 6/0/13 operation boundary''
      else if set (map (\<lambda>(i, _). (i_name i, i_id i)) (creating r))
              \<noteq> set (map (\<lambda>(n, i). (lit n, Some (lit i))) RUNTIME_ENTITY_IDS)
      then raiseV ''API runtime diff creates do not match its six fixed entity identities''
      else rbind (foldr_res check_create () (creating r)) (\<lambda>_.
        if \<not> distinct (map (i_id \<circ> fst) (creating r @ deleting r))
        then raiseV ''API runtime diff report contains duplicate entity IDs''
        else check_deletes (deleting r)))"

section \<open>The report\<close>

definition read_changes :: "pyval \<Rightarrow> (pydict \<times> (identity \<times> change) per_op) res" where
  "read_changes report =
     (if \<not> (case report of PDict r \<Rightarrow> keys_are r [''changes'', ''summary'', ''warnings'', ''errors'']
               \<and> py_eq (dget r ''warnings'') (PList []) \<and> py_eq (dget r ''errors'') (PList []) | _ \<Rightarrow> False)
      then raiseV ''decK API runtime diff report contains unexpected fields, warnings, or errors''
      else let changes = dget (the_dict report) ''changes''; summary = dget (the_dict report) ''summary'' in
        if \<not> is_dict changes \<or> \<not> keys_are (the_dict changes) [''creating'', ''updating'', ''deleting'']
           \<or> \<not> is_dict summary \<or> \<not> keys_are (the_dict summary) [''creating'', ''updating'', ''deleting'', ''total'']
        then raiseV ''decK API runtime diff report operation structure changed''
        else let c = the_dict changes; s = the_dict summary in
          rbind (read_operation c s Creating) (\<lambda>cs.
          rbind (read_operation c s Updating) (\<lambda>us.
          rbind (read_operation c s Deleting) (\<lambda>ds.
          if dget s ''total'' \<noteq> PInt (int (length cs + length us + length ds))
          then raiseV ''decK API runtime diff report total does not match operation counts''
          else let r = \<lparr>creating = cs, updating = us, deleting = ds\<rparr> in
            rbind (validate_runtime_diff_scope r) (\<lambda>_. Inr (s, r))))))"

definition change_value :: "change \<Rightarrow> pyval" where
  "change_value c = obj
     [(''kind'', PStr (ch_kind c)), (''name'', PStr (ch_name c)),
      (''body'', obj [(''old'', ch_old c), (''new'', ch_new c)])]"

definition identity_value :: "identity \<Rightarrow> pyval" where
  "identity_value i = obj
     [(''kind'', PStr (i_kind i)), (''name'', PStr (i_name i)),
      (''id'', case i_id i of None \<Rightarrow> PNone | Some x \<Rightarrow> PStr x)]"

definition canonical_report :: "pydict \<Rightarrow> (identity \<times> change) per_op \<Rightarrow> pyval" where
  "canonical_report summary r = obj
     [(''changes'', obj [(''creating'', PList (map (change_value \<circ> snd) (creating r))),
                         (''updating'', PList (map (change_value \<circ> snd) (updating r))),
                         (''deleting'', PList (map (change_value \<circ> snd) (deleting r)))]),
      (''summary'', PDict summary), (''warnings'', PList []), (''errors'', PList [])]"

definition operations_value :: "(identity \<times> change) per_op \<Rightarrow> pyval" where
  "operations_value r = obj
     [(''creating'', PList (map (identity_value \<circ> fst) (creating r))),
      (''updating'', PList (map (identity_value \<circ> fst) (updating r))),
      (''deleting'', PList (map (identity_value \<circ> fst) (deleting r)))]"

record wp3_deps =
  w3_sha256 :: "bytes \<Rightarrow> bytes"
  w3_floats :: float_codec
  w3_depth :: nat

definition canonical_sha256 :: "wp3_deps \<Rightarrow> pyval \<Rightarrow> pystr res" where
  "canonical_sha256 deps v =
     rbind (utf8_encode (json_dumps_sorted (w3_floats deps) v)) (\<lambda>content. Inr (hexdigest (w3_sha256 deps content)))"

text \<open>The receipt view \<open>{"summary": ..., "operations": ...}\<close> and the digest of the whole report.\<close>

definition report_result :: "wp3_deps \<Rightarrow> pyval \<Rightarrow> (pydict \<times> (identity \<times> change) per_op \<times> pystr) res" where
  "report_result deps report =
     rbind (read_changes report) (\<lambda>(summary, r).
     rbind (canonical_sha256 deps (canonical_report summary r)) (\<lambda>digest. Inr (summary, r, digest)))"

definition parse_deck_diff_report ::
    "wp3_deps \<Rightarrow> pystr \<Rightarrow> (pydict \<times> (identity \<times> change) per_op \<times> pystr) res" where
  "parse_deck_diff_report deps raw_output =
     rbind (recast_if (\<lambda>e. e = JSONDecodeError \<or> isa_UnicodeError e)
              (ValueError (lit ''decK API runtime diff did not return a valid JSON report''))
              (json_loads (unique_opts (w3_floats deps) (ValueError (lit ''duplicate decK diff report field'')))
                 (w3_depth deps) raw_output))
       (report_result deps)"

section \<open>Approved operations\<close>

text \<open>
  The operations of a receipt: the source reads \<open>kind\<close>, \<open>name\<close> and \<open>id\<close> of every item after
  checking that they are non-empty strings, so an item is an identity with a present identifier.
\<close>

definition validate_migration_approval_operations :: "pyval \<Rightarrow> identity per_op \<Rightarrow> unit res" where
  "validate_migration_approval_operations summary ops =
     (let kind = (\<lambda>i. canonical_entity_kind (i_kind i));
          others = filter (\<lambda>i. kind i \<noteq> Some ''certificate'') (deleting ops) in
      if \<not> py_eq summary EXPECTED_RUNTIME_MIGRATION_SUMMARY
      then raiseV ''API runtime migration approval is not bound to the reviewed 6/0/13 change''
      else if mset (map (\<lambda>i. (kind i, i_name i, i_id i)) (creating ops))
              \<noteq> mset (map (\<lambda>(n, e). (map_of EXPECTED_RUNTIME_CREATE_KINDS n, lit n, Some (lit e))) RUNTIME_ENTITY_IDS)
              \<or> updating ops \<noteq> []
      then raiseV ''API runtime migration approval create/update identities changed''
      else if mset (map (\<lambda>i. (kind i, i_name i)) others) \<noteq> mset (map (\<lambda>(k, n, _). (Some k, n)) expected_named)
              \<or> length (filter (\<lambda>i. kind i = Some ''certificate'') (deleting ops)) \<noteq> 2
              \<or> length (deleting ops) \<noteq> 13
      then raiseV ''API runtime migration approval delete identities changed''
      else if \<not> distinct (map i_id (creating ops @ deleting ops))
      then raiseV ''API runtime migration approval contains duplicate entity identities''
      else raise_if (list_ex (\<lambda>i. the (i_id i) \<in> protected_ids) (deleting ops))
             (ValueError (lit ''API runtime migration approval attempts to delete a protected entity'')))"

definition identities :: "(identity \<times> change) per_op \<Rightarrow> identity per_op" where
  "identities r = \<lparr>creating = map fst (creating r), updating = map fst (updating r), deleting = map fst (deleting r)\<rparr>"

section \<open>What a migration may touch\<close>

definition is_certificate :: "identity \<times> change \<Rightarrow> bool" where
  "is_certificate pair \<longleftrightarrow> canonical_entity_kind (i_kind (fst pair)) = Some ''certificate''"

definition entity_of :: "identity \<times> change \<Rightarrow> pydict" where
  "entity_of pair = the_dict (ch_new (snd pair))"

text \<open>A delete within the boundary: known kind, its own unprotected identifier, legacy route tags.\<close>

definition legacy_delete :: "identity \<times> change \<Rightarrow> bool" where
  "legacy_delete pair \<longleftrightarrow>
     canonical_entity_kind (i_kind (fst pair)) \<noteq> None \<and> the (i_id (fst pair)) \<notin> protected_ids
     \<and> dget (entity_of pair) ''id'' = PStr (the (i_id (fst pair))) \<and> legacy_route_tag (entity_of pair) \<noteq> None"

definition named_row :: "identity \<times> change \<Rightarrow> string \<times> pystr \<times> pystr" where
  "named_row pair =
     (the (canonical_entity_kind (i_kind (fst pair))), i_name (fst pair), the (legacy_route_tag (entity_of pair)))"

definition certificate_row :: "identity \<times> change \<Rightarrow> identity \<times> change \<times> pystr" where
  "certificate_row pair = (fst pair, snd pair, the (legacy_route_tag (entity_of pair)))"

lemma check_delete_Inr:
  assumes "check_delete st pair = Inr st'"
  shows "legacy_delete pair
    \<and> (if is_certificate pair
       then named_deletes st' = named_deletes st \<and> certificate_rows st' = certificate_rows st @ [certificate_row pair]
       else named_deletes st' = named_row pair # named_deletes st \<and> certificate_rows st' = certificate_rows st)"
proof -
  obtain i c where pair: "pair = (i, c)" by (cases pair)
  obtain kind where kind: "canonical_entity_kind (i_kind i) = Some kind"
    using assms pair by (cases "canonical_entity_kind (i_kind i)") (auto simp: check_delete_def)
  obtain tag where tag: "legacy_route_tag (the_dict (ch_new c)) = Some tag"
    using assms pair kind
    by (cases "legacy_route_tag (the_dict (ch_new c))") (auto simp: check_delete_def Let_def split: if_splits)
  have legacy: "legacy_delete pair"
    using assms pair kind tag by (auto simp: check_delete_def legacy_delete_def entity_of_def Let_def split: if_splits)
  show ?thesis
  proof (cases "kind = ''certificate''")
    case True
    then show ?thesis using assms pair kind tag legacy
      by (auto simp: check_delete_def is_certificate_def certificate_row_def entity_of_def Let_def split: if_splits)
  next
    case False
    then have "check_named_delete st kind (i_name i) tag i c = Inr st'"
      using assms pair kind tag by (auto simp: check_delete_def Let_def split: if_splits)
    then have "named_deletes st' = (kind, i_name i, tag) # named_deletes st \<and> certificate_rows st' = certificate_rows st"
      by (auto simp: check_named_delete_def Let_def rbind_eq_Inr_iff split: if_splits)
    then show ?thesis using pair kind tag legacy False by (simp add: is_certificate_def named_row_def entity_of_def)
  qed
qed

lemma check_deletes_run:
  "foldr_res check_delete st ds = Inr st' \<Longrightarrow>
   list_all legacy_delete ds
   \<and> mset (named_deletes st') = mset (map named_row (filter (\<lambda>p. \<not> is_certificate p) ds)) + mset (named_deletes st)
   \<and> certificate_rows st' = certificate_rows st @ map certificate_row (filter is_certificate ds)"
proof (induction ds arbitrary: st)
  case (Cons d ds)
  from Cons.prems obtain st1 where st1: "check_delete st d = Inr st1" "foldr_res check_delete st1 ds = Inr st'"
    by (auto simp: rbind_eq_Inr_iff)
  show ?case using check_delete_Inr [OF st1(1)] Cons.IH [OF st1(2)] by (auto split: if_splits)
qed simp

lemma check_create_kind:
  assumes "check_create () (i, c) = Inr ()"
  shows "map_option lit (canonical_entity_kind (i_kind i)) = map_of (lits EXPECTED_RUNTIME_CREATE_KINDS) (i_name i)"
  using assms by (auto simp: check_create_def Let_def raise_if_eq_Inr_iff split: if_splits)

text \<open>The contract of an accepted migration.\<close>

definition migration :: "(identity \<times> change) per_op \<Rightarrow> bool" where
  "migration r \<longleftrightarrow>
     length (creating r) = 6 \<and> updating r = [] \<and> length (deleting r) = 13
     \<and> set (map (\<lambda>(i, _). (i_name i, i_id i)) (creating r))
        = set (map (\<lambda>(n, i). (lit n, Some (lit i))) RUNTIME_ENTITY_IDS)
     \<and> list_all (\<lambda>p. map_option lit (canonical_entity_kind (i_kind (fst p)))
                      = map_of (lits EXPECTED_RUNTIME_CREATE_KINDS) (i_name (fst p))) (creating r)
     \<and> distinct (map (i_id \<circ> fst) (creating r @ deleting r))
     \<and> list_all legacy_delete (deleting r)
     \<and> mset (map named_row (filter (\<lambda>p. \<not> is_certificate p) (deleting r))) = mset expected_named
     \<and> mset (map (\<lambda>p. the (legacy_route_tag (entity_of p))) (filter is_certificate (deleting r)))
        = {#lit ''route-a'', lit ''route-b''#}"

lemma diff_scope_migration:
  assumes "validate_runtime_diff_scope r = Inr ()" "\<not> (creating r = [] \<and> updating r = [] \<and> deleting r = [])"
  shows "migration r"
proof -
  have *: "length (creating r) = 6" "updating r = []" "length (deleting r) = 13"
    "set (map (\<lambda>(i, _). (i_name i, i_id i)) (creating r)) = set (map (\<lambda>(n, i). (lit n, Some (lit i))) RUNTIME_ENTITY_IDS)"
    "foldr_res check_create () (creating r) = Inr ()"
    "distinct (map (i_id \<circ> fst) (creating r @ deleting r))" "check_deletes (deleting r) = Inr ()"
    using assms by (auto simp: validate_runtime_diff_scope_def rbind_eq_Inr_iff split: if_splits)
  obtain st where st: "foldr_res check_delete \<lparr>services_by_route = [], named_deletes = [], certificate_rows = []\<rparr> (deleting r) = Inr st"
    "mset (named_deletes st) = mset expected_named"
    "mset (map (\<lambda>(_, _, tag). tag) (certificate_rows st)) = {#lit ''route-a'', lit ''route-b''#}"
    using *(7) by (auto simp: check_deletes_def rbind_eq_Inr_iff split: if_splits)
  note run = check_deletes_run [OF st(1)]
  have "map (\<lambda>(_, _, tag). tag) (certificate_rows st)
      = map (\<lambda>p. the (legacy_route_tag (entity_of p))) (filter is_certificate (deleting r))"
    using run by (simp add: certificate_row_def comp_def)
  then have tags: "mset (map (\<lambda>p. the (legacy_route_tag (entity_of p))) (filter is_certificate (deleting r)))
      = {#lit ''route-a'', lit ''route-b''#}"
    using st(3) by metis
  have "check_create () p = Inr ()" if "p \<in> set (creating r)" for p
    using *(5) that by (auto simp: foldr_unit_iff list_all_iff)
  then have kinds: "list_all (\<lambda>p. map_option lit (canonical_entity_kind (i_kind (fst p)))
      = map_of (lits EXPECTED_RUNTIME_CREATE_KINDS) (i_name (fst p))) (creating r)"
    unfolding list_all_iff using check_create_kind by (metis prod.collapse)
  show ?thesis
    unfolding migration_def using * run st(2) tags kinds by simp
qed

text \<open>
  C20: A decK diff that passes the scope check is a no-op or the reviewed migration: it updates
  nothing, creates exactly the six fixed runtime entities with their kinds, and deletes thirteen
  entities, all with distinct, unprotected identifiers and legacy route tags: the eleven known
  services, routes and plugins, and one certificate of either route.
\<close>

theorem diff_scope_sound:
  assumes "validate_runtime_diff_scope r = Inr ()"
  shows "creating r = [] \<and> updating r = [] \<and> deleting r = [] \<or> migration r"
  using diff_scope_migration [OF assms] by blast

section \<open>The approval accepts what the report describes\<close>

lemma mset_of_set:
  assumes "set xs = set ys" "length xs = length ys" "distinct ys"
  shows "mset xs = mset ys"
proof -
  have "distinct xs" using assms by (metis card_distinct distinct_card)
  then show ?thesis using assms(1,3) by (metis mset_set_set)
qed

lemma migration_approved:
  assumes m: "migration r" and s: "py_eq summary EXPECTED_RUNTIME_MIGRATION_SUMMARY"
  shows "validate_migration_approval_operations summary (identities r) = Inr ()"
proof -
  let ?kind = "\<lambda>i. canonical_entity_kind (i_kind i)"
  have creates: "mset (map (\<lambda>i. (?kind i, i_name i, i_id i)) (map fst (creating r)))
      = mset (map (\<lambda>(n, e). (map_of EXPECTED_RUNTIME_CREATE_KINDS n, lit n, Some (lit e))) RUNTIME_ENTITY_IDS)"
  proof -
    let ?fixed = "map (\<lambda>(n, i). (lit n, Some (lit i))) RUNTIME_ENTITY_IDS"
    have "mset (map (\<lambda>(i, _). (i_name i, i_id i)) (creating r)) = mset ?fixed"
      by (rule mset_of_set) (use m in \<open>simp_all add: migration_def RUNTIME_ENTITY_IDS_def\<close>)
    then have "mset (map (\<lambda>(n, e). (map_of (lits EXPECTED_RUNTIME_CREATE_KINDS) n, n, e))
          (map (\<lambda>(i, _). (i_name i, i_id i)) (creating r)))
        = mset (map (\<lambda>(n, e). (map_of (lits EXPECTED_RUNTIME_CREATE_KINDS) n, n, e)) ?fixed)"
      by (simp only: mset_map)
    moreover have "map (\<lambda>(n, e). (map_of (lits EXPECTED_RUNTIME_CREATE_KINDS) n, n, e))
          (map (\<lambda>(i, _). (i_name i, i_id i)) (creating r))
        = map (\<lambda>(k, n, e). (map_option lit k, n, e)) (map (\<lambda>i. (?kind i, i_name i, i_id i)) (map fst (creating r)))"
      using m by (auto simp: migration_def list_all_iff)
    moreover have "map (\<lambda>(n, e). (map_of (lits EXPECTED_RUNTIME_CREATE_KINDS) n, n, e)) ?fixed
        = map (\<lambda>(k, n, e). (map_option lit k, n, e))
            (map (\<lambda>(n, e). (map_of EXPECTED_RUNTIME_CREATE_KINDS n, lit n, Some (lit e))) RUNTIME_ENTITY_IDS)"
      by (simp add: RUNTIME_ENTITY_IDS_def EXPECTED_RUNTIME_CREATE_KINDS_def lits_def)
    ultimately have image: "image_mset (\<lambda>(k, n, e). (map_option lit k, n, e))
          (mset (map (\<lambda>i. (?kind i, i_name i, i_id i)) (map fst (creating r))))
        = image_mset (\<lambda>(k, n, e). (map_option lit k, n, e))
          (mset (map (\<lambda>(n, e). (map_of EXPECTED_RUNTIME_CREATE_KINDS n, lit n, Some (lit e))) RUNTIME_ENTITY_IDS))"
      by (metis mset_map)
    have "inj (map_option lit)" by (rule option.inj_map) (simp add: inj_def)
    then have "inj (\<lambda>(k :: string option, n :: pystr, e :: pystr option). (map_option lit k, n, e))"
      by (auto intro!: injI dest: injD)
    then show ?thesis by (rule injD [OF multiset.inj_map image])
  qed
  have others: "mset (map (\<lambda>i. (?kind i, i_name i)) (filter (\<lambda>i. ?kind i \<noteq> Some ''certificate'') (map fst (deleting r))))
      = mset (map (\<lambda>(k, n, _). (Some k, n)) expected_named)"
  proof -
    let ?rows = "map named_row (filter (\<lambda>p. \<not> is_certificate p) (deleting r))"
    have rows: "map (\<lambda>(k, n, _). (Some k, n)) ?rows
        = map (\<lambda>i. (?kind i, i_name i)) (filter (\<lambda>i. ?kind i \<noteq> Some ''certificate'') (map fst (deleting r)))"
      using m by (auto simp: migration_def list_all_iff legacy_delete_def named_row_def is_certificate_def
          filter_map comp_def)
    have "mset (map (\<lambda>(k, n, _). (Some k, n)) ?rows) = image_mset (\<lambda>(k, n, _). (Some k, n)) (mset ?rows)"
      by (rule mset_map)
    also have "mset ?rows = mset expected_named"
      using m unfolding migration_def by blast
    finally show ?thesis unfolding rows mset_map .
  qed
  have "length (filter (\<lambda>i. ?kind i = Some ''certificate'') (map fst (deleting r))) = length (filter is_certificate (deleting r))"
    by (simp add: filter_map comp_def is_certificate_def [abs_def])
  also have "\<dots> = size (mset (map (\<lambda>p. the (legacy_route_tag (entity_of p))) (filter is_certificate (deleting r))))"
    by (simp only: size_mset length_map)
  also have "\<dots> = 2" using m by (simp add: migration_def)
  finally have certs: "length (filter (\<lambda>i. ?kind i = Some ''certificate'') (map fst (deleting r))) = 2" .
  have "\<not> list_ex (\<lambda>i. the (i_id i) \<in> protected_ids) (map fst (deleting r))"
    using m by (auto simp: migration_def list_ex_iff list_all_iff legacy_delete_def)
  moreover have "distinct (map i_id (map fst (creating r) @ map fst (deleting r)))"
    using m by (simp add: migration_def)
  ultimately show ?thesis
    using creates others certs m s
    by (simp add: validate_migration_approval_operations_def identities_def migration_def Let_def
        del: map_map filter_map mset_map)
qed

text \<open>A summary with the four counters of the reviewed migration is the expected summary.\<close>

lemma expected_summary_eq:
  assumes "keys_are s [''creating'', ''updating'', ''deleting'', ''total'']" "distinct (map fst s)"
    "dget s ''creating'' = PInt 6" "dget s ''updating'' = PInt 0" "dget s ''deleting'' = PInt 13" "dget s ''total'' = PInt 19"
  shows "py_eq (PDict s) EXPECTED_RUNTIME_MIGRATION_SUMMARY"
proof -
  have keys: "fst ` set s = {K ''creating'', K ''updating'', K ''deleting'', K ''total''}"
    using assms(1) by (simp add: keys_are_def)
  then have len: "length s = 4" using distinct_card [OF assms(2)] by simp
  have "py_eq_items s e" if e: "EXPECTED_RUNTIME_MIGRATION_SUMMARY = PDict e" for e
    unfolding py_eq_items_iff
  proof clarify
    fix k v assume kv: "(k, v) \<in> set s"
    then have "map_of s k = Some v" using assms(2) by simp
    moreover have "k \<in> {K ''creating'', K ''updating'', K ''deleting'', K ''total''}"
      using kv keys by (metis fst_conv image_eqI)
    ultimately show "\<exists>w. dlookup e k = Some w \<and> py_eq v w"
      using assms(3-6) e
      by (auto simp: EXPECTED_RUNTIME_MIGRATION_SUMMARY_def obj_def dget_def dlookup_KStr fin_eq_def)
  qed
  then show ?thesis using len by (simp add: EXPECTED_RUNTIME_MIGRATION_SUMMARY_def obj_def)
qed

lemma read_changes_Inr:
  assumes "read_changes report = Inr (s, r)"
  shows "validate_runtime_diff_scope r = Inr ()
    \<and> keys_are s [''creating'', ''updating'', ''deleting'', ''total'']
    \<and> dget s ''creating'' = PInt (int (length (creating r))) \<and> dget s ''updating'' = PInt (int (length (updating r)))
    \<and> dget s ''deleting'' = PInt (int (length (deleting r)))
    \<and> dget s ''total'' = PInt (int (length (creating r) + length (updating r) + length (deleting r)))"
  using assms
  by (auto simp: read_changes_def read_operation_def op_name_def Let_def rbind_eq_Inr_iff split: if_splits)

text \<open>
  C21: Reading a report and approving it agree. Whatever diff report that is not a no-op the reader
  accepts, the receipt made of its summary and its operation identities passes the independent
  check of the approval: a reviewer who approves the printed report is never refused by the
  receipt validation.
\<close>

theorem accepted_report_is_approvable:
  assumes "read_changes report = Inr (summary, r)" "distinct (map fst summary)"
    and "\<not> (creating r = [] \<and> updating r = [] \<and> deleting r = [])"
  shows "validate_migration_approval_operations (PDict summary) (identities r) = Inr ()"
proof -
  note read = read_changes_Inr [OF assms(1)]
  have m: "migration r" by (rule diff_scope_migration [OF _ assms(3)]) (use read in simp)
  then have counts: "length (creating r) = 6" "length (updating r) = 0" "length (deleting r) = 13"
    by (simp_all add: migration_def)
  have "py_eq (PDict summary) EXPECTED_RUNTIME_MIGRATION_SUMMARY"
    by (rule expected_summary_eq) (use read assms(2) counts in simp_all)
  then show ?thesis by (rule migration_approved [OF m])
qed

section \<open>The digest does not depend on the order of the report\<close>

lemma mapr_perm:
  assumes "mapr f xs = Inr es" "mset ys = mset xs"
  shows "\<exists>fs. mapr f ys = Inr fs \<and> mset fs = mset es"
proof -
  let ?g = "\<lambda>x. projr (f x)"
  have run: "mapr f zs = Inr (map ?g zs)" if "set zs = set xs" for zs
    using assms(1) that
    by (auto simp: mapr_eq_Inr_iff list_all2_conv_all_nth list_all2_map2 list.rel_map intro!: list.rel_refl_strong)
       (metis in_set_conv_nth sum.sel(2))
  have "es = map ?g xs" using run [of xs] assms(1) by simp
  moreover have "set ys = set xs" using assms(2) by (rule mset_eq_setD)
  ultimately show ?thesis using run [of ys] assms(2) by simp
qed

lemma read_entry_id: "read_entry p v = Inr pair \<Longrightarrow> i_id (fst pair) \<noteq> Some []"
  by (auto simp: read_entry_def entry_id_def Let_def rbind_eq_Inr_iff split: if_splits pyval.splits)

lemma sort_by_inj:
  assumes "distinct (map fst es)" "\<And>e. e \<in> set es \<Longrightarrow> i_id (fst e) \<noteq> Some []"
  shows "inj_on sort_by (set es)"
proof (rule inj_onI)
  fix a b assume ab: "a \<in> set es" "b \<in> set es" "sort_by a = sort_by b"
  have "i_id (fst a) = i_id (fst b)"
    using ab assms(2) by (auto simp: sort_by_def split: option.splits)
  then have "fst a = fst b" using ab(3) by (simp add: sort_by_def)
  then show "a = b" using ab(1,2) assms(1) by (metis distinct_map inj_onD)
qed

lemma read_operation_perm:
  assumes "read_operation c s p = Inr pairs" "dget c (op_name p) = PList xs" "dget c' (op_name p) = PList ys"
    and "mset ys = mset xs"
  shows "read_operation c' s p = Inr pairs"
proof -
  obtain es where es: "mapr (read_entry p) xs = Inr es" "pairs = sort_key sort_by es" "distinct (map fst pairs)"
    "dget s (op_name p) = PInt (int (length pairs))"
    using assms(1,2) by (auto simp: read_operation_def Let_def rbind_eq_Inr_iff split: if_splits)
  obtain fs where fs: "mapr (read_entry p) ys = Inr fs" "mset fs = mset es"
    using mapr_perm [OF es(1) assms(4)] by blast
  have set: "set fs = set pairs" "mset fs = mset pairs" using fs(2) es(2) mset_eq_setD by auto
  have "i_id (fst e) \<noteq> Some []" if "e \<in> set pairs" for e
  proof -
    have "e \<in> set es" using that unfolding es(2) by simp
    then obtain i where "e = es ! i" "i < length es" unfolding in_set_conv_nth by blast
    then have "read_entry p (xs ! i) = Inr e" using es(1) by (simp add: mapr_eq_Inr_iff list_all2_conv_all_nth)
    then show ?thesis by (rule read_entry_id)
  qed
  then have "inj_on sort_by (set fs)" using sort_by_inj [OF es(3)] set(1) by simp
  then have "sort_key sort_by fs = pairs"
    by (intro sort_key_inj_key_eq [OF set(2)]) (simp_all add: es(2))
  then show ?thesis using es fs assms(3) by (simp add: read_operation_def Let_def)
qed

text \<open>Two reports that list the same operations, in any order.\<close>

definition reordered :: "pydict \<Rightarrow> pydict \<Rightarrow> bool" where
  "reordered r r' \<longleftrightarrow>
     keys_are r' [''changes'', ''summary'', ''warnings'', ''errors'']
     \<and> list_all (\<lambda>k. dget r' k = dget r k) [''summary'', ''warnings'', ''errors'']
     \<and> (case dget r' ''changes'' of PDict c' \<Rightarrow>
          keys_are c' [''creating'', ''updating'', ''deleting'']
          \<and> list_all (\<lambda>p. case (dget (the_dict (dget r ''changes'')) (op_name p), dget c' (op_name p)) of
                 (PList xs, PList ys) \<Rightarrow> mset ys = mset xs | _ \<Rightarrow> False) [Creating, Updating, Deleting]
        | _ \<Rightarrow> False)"

lemma read_changes_reordered:
  assumes "read_changes (PDict r) = Inr x" "reordered r r'"
  shows "read_changes (PDict r') = Inr x"
proof -
  obtain c' where c': "dget r' ''changes'' = PDict c'" "keys_are c' [''creating'', ''updating'', ''deleting'']"
    using assms(2) by (auto simp: reordered_def split: pyval.splits)
  let ?c = "the_dict (dget r ''changes'')" and ?s = "the_dict (dget r ''summary'')"
  have perm: "read_operation c' ?s p = Inr pairs" if "read_operation ?c ?s p = Inr pairs" for p pairs
  proof -
    have "case (dget ?c (op_name p), dget c' (op_name p)) of (PList xs, PList ys) \<Rightarrow> mset ys = mset xs | _ \<Rightarrow> False"
      using assms(2) c' by (cases p) (simp_all add: reordered_def)
    then obtain xs ys where "dget ?c (op_name p) = PList xs" "dget c' (op_name p) = PList ys" "mset ys = mset xs"
      by (auto split: pyval.splits)
    then show ?thesis using read_operation_perm [OF that] by blast
  qed
  have same: "dget r' ''summary'' = dget r ''summary''" "dget r' ''warnings'' = dget r ''warnings''"
    "dget r' ''errors'' = dget r ''errors''" "keys_are r' [''changes'', ''summary'', ''warnings'', ''errors'']"
    using assms(2) by (simp_all add: reordered_def)
  show ?thesis
    using assms(1) c' same
    by (auto simp: read_changes_def Let_def rbind_eq_Inr_iff split: if_splits dest!: perm)
qed

text \<open>
  The result of the diff parser, and with it the digest the approval receipt is bound to, is
  independent of the order in which decK lists the operations of the report.
\<close>

theorem diff_digest_order_independent:
  assumes "read_changes (PDict r) = Inr x" "reordered r r'"
  shows "read_changes (PDict r') = Inr x \<and> report_result deps (PDict r') = report_result deps (PDict r)"
  using assms(1) read_changes_reordered [OF assms] by (simp add: report_result_def)

section \<open>Normalisation is idempotent\<close>

lemma read_entry_again:
  assumes "read_entry p v = Inr pair"
  shows "read_entry p (change_value (snd pair)) = Inr pair"
proof -
  obtain e where e: "v = PDict e" "keys_are e [''kind'', ''name'', ''body'']"
    using assms by (auto simp: read_entry_def split: if_splits pyval.splits)
  let ?old = "dget (the_dict (dget e ''body'')) ''old''" and ?new = "dget (the_dict (dget e ''body'')) ''new''"
  let ?kind = "the_str (dget e ''kind'')" and ?name = "the_str (dget e ''name'')"
  have ok: "nonempty_str (dget e ''kind'')" "nonempty_str (dget e ''name'')"
    and run: "rbind (entry_entity p ?old ?new) (\<lambda>entity. rbind (entry_id p entity ?old ?new) (\<lambda>i.
      rbind (entry_name ?kind ?name entity) (\<lambda>n. Inr (\<lparr>i_kind = ?kind, i_name = n, i_id = i\<rparr>,
        \<lparr>ch_kind = ?kind, ch_name = ?name, ch_old = ?old, ch_new = ?new\<rparr>)))) = Inr pair"
    using assms e by (simp_all add: read_entry_def Let_def split: if_splits)
  have snd: "snd pair = \<lparr>ch_kind = ?kind, ch_name = ?name, ch_old = ?old, ch_new = ?new\<rparr>"
    using run by (auto simp: rbind_eq_Inr_iff)
  have str: "PStr ?kind = dget e ''kind''" "PStr ?name = dget e ''name''"
    using ok by (auto elim!: nonempty_str.elims)
  show ?thesis
    using run ok by (simp add: snd read_entry_def change_value_def obj_def dict_simps keys_are_def Let_def str)
qed

lemma read_operation_again:
  assumes "read_operation c s p = Inr pairs" "dget c' (op_name p) = PList (map (change_value \<circ> snd) pairs)"
  shows "read_operation c' s p = Inr pairs"
proof -
  obtain xs es where es: "mapr (read_entry p) xs = Inr es" "pairs = sort_key sort_by es" "distinct (map fst pairs)"
    "dget s (op_name p) = PInt (int (length pairs))"
    using assms(1) by (auto simp: read_operation_def Let_def rbind_eq_Inr_iff split: if_splits)
  have "read_entry p (change_value (snd e)) = Inr e" if "e \<in> set pairs" for e
  proof -
    have "e \<in> set es" using that unfolding es(2) by simp
    then obtain v where "read_entry p v = Inr e"
      using es(1) by (auto simp: mapr_eq_Inr_iff list_all2_conv_all_nth in_set_conv_nth)
    then show ?thesis by (rule read_entry_again)
  qed
  then have "mapr (read_entry p) (map (change_value \<circ> snd) pairs) = Inr pairs"
    by (auto simp: mapr_eq_Inr_iff list.rel_map intro!: list.rel_refl_strong)
  moreover have "sort_key sort_by pairs = pairs"
    by (rule sort_key_id_if_sorted) (simp add: es(2))
  ultimately show ?thesis using es assms(2) by (simp add: read_operation_def Let_def)
qed

text \<open>
  Normalising a report is idempotent. The canonical report, whose digest an approval names,
  is itself a report the reader accepts, and reading it gives back the same operations and entity
  changes: nothing the digest covers is lost or altered by the normalisation.
\<close>

theorem canonical_report_roundtrip:
  assumes "read_changes report = Inr (summary, r)"
  shows "read_changes (canonical_report summary r) = Inr (summary, r)"
proof -
  obtain c where c: "read_operation c summary Creating = Inr (creating r)"
    "read_operation c summary Updating = Inr (updating r)" "read_operation c summary Deleting = Inr (deleting r)"
    using assms by (auto simp: read_changes_def Let_def rbind_eq_Inr_iff split: if_splits)
  let ?c = "the_dict (dget (the_dict (canonical_report summary r)) ''changes'')"
  have again: "read_operation ?c summary Creating = Inr (creating r)"
    "read_operation ?c summary Updating = Inr (updating r)" "read_operation ?c summary Deleting = Inr (deleting r)"
    by (rule read_operation_again [OF c(1)] read_operation_again [OF c(2)] read_operation_again [OF c(3)],
        simp add: canonical_report_def obj_def dict_simps op_name_def)+
  obtain cs us ds where r: "r = \<lparr>creating = cs, updating = us, deleting = ds\<rparr>" by (cases r)
  show ?thesis
    using again read_changes_Inr [OF assms]
    by (simp add: r read_changes_def canonical_report_def obj_def dict_simps keys_are_def Let_def)
qed

section \<open>A migration report\<close>

definition relation :: "pystr \<Rightarrow> pystr \<Rightarrow> pyval" where
  "relation i n = obj [(''id'', PStr i), (''name'', PStr n)]"

definition sample_pair :: "string \<Rightarrow> string \<Rightarrow> pystr \<Rightarrow> pystr \<Rightarrow> string list \<Rightarrow> (string \<times> pyval) list \<Rightarrow> identity \<times> change" where
  "sample_pair kind n shown i tags rest =
     (\<lparr>i_kind = lit kind, i_name = lit n, i_id = Some i\<rparr>,
      \<lparr>ch_kind = lit kind, ch_name = shown, ch_old = PNone,
       ch_new = obj ([(''id'', PStr i), (''name'', PStr (lit n)), (''tags'', strs tags)] @ rest)\<rparr>)"

definition sample_create :: "string \<Rightarrow> identity \<times> change" where
  "sample_create n =
     (let kind = the (map_of EXPECTED_RUNTIME_CREATE_KINDS n) in
      sample_pair kind n (if kind = ''plugin'' then lit n @ lit '' for route '' @ lit RUNTIME_ROUTE_NAME else lit n)
        (runtime_id n) [''fapi2-demo'', ''api'']
        (if kind = ''plugin'' then [(''route'', relation (runtime_id RUNTIME_ROUTE_NAME) (lit RUNTIME_ROUTE_NAME))]
         else if kind = ''route'' then [(''service'', relation (runtime_id RUNTIME_SERVICE_NAME) (lit RUNTIME_SERVICE_NAME))]
         else []))"

definition sample_delete :: "string \<Rightarrow> string \<Rightarrow> string \<Rightarrow> string \<Rightarrow> identity \<times> change" where
  "sample_delete i kind n t =
     (let s = (if t = ''route-a'' then ''fapi-mtls-service'' else ''fapi-pkj-mtls-service'');
          c = (if t = ''route-a'' then ''a'' else ''b'') in
      sample_pair kind n (if kind = ''plugin'' then lit n @ lit '' for service '' @ lit s else lit n) (lit i) [''fapi2-demo'', t]
        (if kind = ''service''
         then [(''client_certificate'', obj [(''id'', PStr (lit c))]), (''ca_certificates'', strs [SHARED_API_CA_ID])]
         else if kind = ''certificate'' then []
         else [(''service'', relation (lit (if t = ''route-a'' then ''l'' else ''m'')) (lit s))]))"

definition sample_changes :: "(identity \<times> change) per_op" where
  "sample_changes = \<lparr>
     creating = map sample_create [''openid-connect'', ''pre-function'', ''tls-handshake-modifier'', ''tls-metadata-headers'',
       ''fapi-api-resource-server-route'', ''fapi-api-resource-server''],
     updating = [],
     deleting =
       [sample_delete ''a'' ''certificate'' ''x'' ''route-a'', sample_delete ''b'' ''certificate'' ''x'' ''route-b'',
        sample_delete ''c'' ''plugin'' ''cors'' ''route-a'', sample_delete ''d'' ''plugin'' ''cors'' ''route-b'',
        sample_delete ''e'' ''plugin'' ''fapi-client-auth-bridge'' ''route-b'',
        sample_delete ''f'' ''plugin'' ''openid-connect'' ''route-a'', sample_delete ''g'' ''plugin'' ''openid-connect'' ''route-b'',
        sample_delete ''h'' ''plugin'' ''request-transformer'' ''route-a'', sample_delete ''i'' ''plugin'' ''request-transformer'' ''route-b'',
        sample_delete ''j'' ''route'' ''fapi-mtls-route'' ''route-a'', sample_delete ''k'' ''route'' ''fapi-pkj-mtls-route'' ''route-b'',
        sample_delete ''l'' ''service'' ''fapi-mtls-service'' ''route-a'',
        sample_delete ''m'' ''service'' ''fapi-pkj-mtls-service'' ''route-b'']\<rparr>"

lemma sample_kinds [simp]:
  "canonical_entity_kind (lit ''service'') = Some ''service''" "canonical_entity_kind (lit ''route'') = Some ''route''"
  "canonical_entity_kind (lit ''plugin'') = Some ''plugin''" "canonical_entity_kind (lit ''certificate'') = Some ''certificate''"
  by code_simp+

lemmas sample_defs = sample_create_def sample_delete_def sample_pair_def sample_changes_def Let_def
  EXPECTED_RUNTIME_CREATE_KINDS_def RUNTIME_ENTITY_IDS_def runtime_id_def RUNTIME_ROUTE_NAME_def RUNTIME_SERVICE_NAME_def
  relation_def relation_id_def certificate_relation_id_def obj_def dict_simps keys_are_def lits_def raise_if_def

lemma sample_creates: "list_all (\<lambda>p. check_create () p = Inr ()) (creating sample_changes)"
  by (simp add: sample_defs check_create_def)

lemma sample_sorted:
  "sorted (map sort_by (creating sample_changes))" "sorted (map sort_by (deleting sample_changes))"
  by (simp add: sample_defs sort_by_def, simp add: lit_def)+

lemma sample_read:
  "list_all (\<lambda>p. read_entry Creating (change_value (snd p)) = Inr p) (creating sample_changes)"
  "list_all (\<lambda>p. read_entry Deleting (change_value (snd p)) = Inr p) (deleting sample_changes)"
  by (simp_all add: sample_defs change_value_def read_entry_def entry_entity_def entry_id_def entry_name_def)

text \<open>The deletes, folded: what each kind of delete does to the state of the check.\<close>

definition legacy_tag :: "string \<Rightarrow> bool" where
  "legacy_tag t \<longleftrightarrow> t = ''route-a'' \<or> t = ''route-b''"

lemmas legacy_defs = legacy_route_tag_def legacy_service_def LEGACY_API_SERVICE_ROUTE_TAGS_def
  LEGACY_API_ROUTE_SERVICE_TAGS_def LEGACY_API_PLUGIN_ROUTE_TAGS_def

lemma sample_tag: "legacy_tag t \<Longrightarrow> legacy_route_tag (the_dict (ch_new (snd (sample_delete i kind n t)))) = Some (lit t)"
  by (auto simp: legacy_tag_def legacy_route_tag_def sample_delete_def sample_pair_def obj_def strs_def dict_simps Let_def)

lemma sample_unprotected [simp]: "length i = 1 \<Longrightarrow> lit i \<notin> protected_ids"
  by (auto simp: protected_ids_def SHARED_API_CA_ID_def INTROSPECTION_CERT_ID_def UPSTREAM_CERT_ID_def RUNTIME_ENTITY_IDS_def)

lemma sample_fields:
  "fst (sample_delete i kind n t) = \<lparr>i_kind = lit kind, i_name = lit n, i_id = Some (lit i)\<rparr>"
  "dget (the_dict (ch_new (snd (sample_delete i kind n t)))) ''id'' = PStr (lit i)"
  "dget (the_dict (ch_new (snd (sample_delete i kind n t)))) ''name'' = PStr (lit n)"
  by (simp_all add: sample_delete_def sample_pair_def obj_def dict_simps Let_def)

lemma sample_check_delete:
  assumes "legacy_tag t" "length i = 1" "kind \<in> {''certificate'', ''service'', ''route'', ''plugin''}"
  shows "check_delete st (sample_delete i kind n t) =
    (if kind = ''certificate''
     then Inr (st\<lparr>certificate_rows := certificate_rows st @ [(fst (sample_delete i kind n t), snd (sample_delete i kind n t), lit t)]\<rparr>)
     else check_named_delete st kind (lit n) (lit t) (fst (sample_delete i kind n t)) (snd (sample_delete i kind n t)))"
proof -
  obtain i' c' where d: "sample_delete i kind n t = (i', c')" by (cases "sample_delete i kind n t")
  note facts = sample_fields [of i kind n t] sample_tag [OF assms(1), of i kind n]
  show ?thesis using facts assms(2,3) unfolding d by (auto simp: check_delete_def Let_def)
qed

lemma sample_named_delete:
  "(n, t) \<in> set LEGACY_API_PLUGIN_ROUTE_TAGS \<Longrightarrow>
   check_named_delete st ''plugin'' (lit n) (lit t) (fst (sample_delete i ''plugin'' n t)) (snd (sample_delete i ''plugin'' n t))
     = Inr (st\<lparr>named_deletes := (''plugin'', lit n, lit t) # named_deletes st\<rparr>)"
  "(n, t) \<in> set LEGACY_API_ROUTE_SERVICE_TAGS \<Longrightarrow>
   check_named_delete st ''route'' (lit n) (lit t) (fst (sample_delete i ''route'' n t)) (snd (sample_delete i ''route'' n t))
     = Inr (st\<lparr>named_deletes := (''route'', lit n, lit t) # named_deletes st\<rparr>)"
  "(n, t) \<in> set LEGACY_API_SERVICE_ROUTE_TAGS \<Longrightarrow> map_of (services_by_route st) (lit t) = None \<Longrightarrow>
   check_named_delete st ''service'' (lit n) (lit t) (fst (sample_delete i ''service'' n t)) (snd (sample_delete i ''service'' n t))
     = Inr (st\<lparr>named_deletes := (''service'', lit n, lit t) # named_deletes st,
               services_by_route := (lit t, lit i) # services_by_route st\<rparr>)"
  by (auto simp: check_named_delete_def legacy_defs lits_def sample_delete_def sample_pair_def Let_def)

lemma sample_relations:
  assumes "legacy_tag t" "kind \<in> {''certificate'', ''service'', ''route'', ''plugin''}"
  shows "check_relations [(lit ''route-b'', lit ''m''), (lit ''route-a'', lit ''l'')]
    [(lit ''route-b'', lit ''b''), (lit ''route-a'', lit ''a'')] () (sample_delete i kind n t) = Inr ()"
proof -
  obtain i' c' where d: "sample_delete i kind n t = (i', c')" by (cases "sample_delete i kind n t")
  show ?thesis
    using assms sample_tag [OF assms(1), of i kind n] d
    by (auto simp: check_relations_def legacy_tag_def legacy_service_def LEGACY_API_SERVICE_ROUTE_TAGS_def sample_delete_def
        sample_pair_def relation_def relation_id_def certificate_relation_id_def obj_def strs_def dict_simps keys_are_def Let_def)
qed

lemma sample_deletes: "check_deletes (deleting sample_changes) = Inr ()"
proof -
  note steps = sample_check_delete sample_named_delete [unfolded sample_fields(1)] sample_relations sample_fields legacy_tag_def legacy_defs(3-5)
  let ?named = "[(''service'', lit ''fapi-pkj-mtls-service'', lit ''route-b''), (''service'', lit ''fapi-mtls-service'', lit ''route-a''),
     (''route'', lit ''fapi-pkj-mtls-route'', lit ''route-b''), (''route'', lit ''fapi-mtls-route'', lit ''route-a''),
     (''plugin'', lit ''request-transformer'', lit ''route-b''), (''plugin'', lit ''request-transformer'', lit ''route-a''),
     (''plugin'', lit ''openid-connect'', lit ''route-b''), (''plugin'', lit ''openid-connect'', lit ''route-a''),
     (''plugin'', lit ''fapi-client-auth-bridge'', lit ''route-b''), (''plugin'', lit ''cors'', lit ''route-b''),
     (''plugin'', lit ''cors'', lit ''route-a'')]"
  have "mset ?named = mset expected_named" by (simp add: expected_named_def legacy_defs)
  moreover have "{lit ''route-b'', lit ''route-a''} = {lit ''route-a'', lit ''route-b''}" by blast
  ultimately show ?thesis
    by (simp add: sample_changes_def check_deletes_def check_certificate_row_def steps)
qed

lemma sample_scope: "validate_runtime_diff_scope sample_changes = Inr ()"
proof -
  have "foldr_res check_create () (creating sample_changes) = Inr ()"
    using sample_creates by (simp add: foldr_unit_iff)
  moreover have "length (creating sample_changes) = 6" "updating sample_changes = []" "length (deleting sample_changes) = 13"
    "creating sample_changes \<noteq> []"
    by (simp_all add: sample_changes_def)
  moreover have "set (map (\<lambda>(i, _). (i_name i, i_id i)) (creating sample_changes))
      = set (map (\<lambda>(n, i). (lit n, Some (lit i))) RUNTIME_ENTITY_IDS)"
    by (auto simp: sample_changes_def sample_create_def sample_pair_def runtime_id_def RUNTIME_ENTITY_IDS_def Let_def)
  moreover have "distinct (map (i_id \<circ> fst) (creating sample_changes @ deleting sample_changes))"
    by (simp add: sample_defs sample_fields)
  ultimately show ?thesis using sample_deletes by (simp add: validate_runtime_diff_scope_def)
qed

definition sample_summary :: pydict where
  "sample_summary = the_dict EXPECTED_RUNTIME_MIGRATION_SUMMARY"

definition sample_report :: pydict where
  "sample_report = the_dict (canonical_report sample_summary sample_changes)"

lemma sample_operation:
  assumes "list_all (\<lambda>p. read_entry p' (change_value (snd p)) = Inr p) pairs" "sorted (map sort_by pairs)"
    "distinct (map fst pairs)" "dget s (op_name p') = PInt (int (length pairs))"
    "dget c (op_name p') = PList (map (change_value \<circ> snd) pairs)"
  shows "read_operation c s p' = Inr pairs"
proof -
  have "mapr (read_entry p') (map (change_value \<circ> snd) pairs) = Inr pairs"
    using assms(1) by (auto simp: mapr_eq_Inr_iff list.rel_map list_all_iff intro!: list.rel_refl_strong)
  then show ?thesis
    using assms sort_key_id_if_sorted [OF assms(2)] by (simp add: read_operation_def Let_def)
qed

lemma sample_read_changes: "read_changes (PDict sample_report) = Inr (sample_summary, sample_changes)"
proof -
  let ?c = "the_dict (dget sample_report ''changes'')"
  note d = sample_report_def canonical_report_def sample_summary_def EXPECTED_RUNTIME_MIGRATION_SUMMARY_def obj_def
    dict_simps op_name_def
  have lens: "length (creating sample_changes) = 6" "updating sample_changes = []" "length (deleting sample_changes) = 13"
    by (simp_all add: sample_changes_def)
  have "distinct (map (i_id \<circ> fst) (creating sample_changes @ deleting sample_changes))"
    by (simp add: sample_defs sample_fields)
  then have dist: "distinct (map fst (creating sample_changes))" "distinct (map fst (deleting sample_changes))"
    by (metis distinct_append distinct_map map_append map_map)+
  have "read_operation ?c sample_summary Creating = Inr (creating sample_changes)"
    by (rule sample_operation [OF sample_read(1) sample_sorted(1) dist(1)]) (simp_all add: d lens)
  moreover have "read_operation ?c sample_summary Deleting = Inr (deleting sample_changes)"
    by (rule sample_operation [OF sample_read(2) sample_sorted(2) dist(2)]) (simp_all add: d lens)
  moreover have "read_operation ?c sample_summary Updating = Inr []"
    by (rule sample_operation) (simp_all add: d lens)
  moreover have eta: "\<lparr>creating = creating sample_changes, updating = [], deleting = deleting sample_changes\<rparr> = sample_changes"
    using lens(2) by (cases sample_changes) simp
  ultimately show ?thesis
    using sample_scope lens by (simp add: read_changes_def d keys_are_def Let_def eta)
qed

theorem diff_scope_sound_witness: "migration sample_changes"
  using diff_scope_sound [OF sample_scope] by (simp add: sample_changes_def)

theorem accepted_report_is_approvable_witness:
  "validate_migration_approval_operations (PDict sample_summary) (identities sample_changes) = Inr ()"
  by (rule accepted_report_is_approvable [OF sample_read_changes])
     (simp_all add: sample_summary_def EXPECTED_RUNTIME_MIGRATION_SUMMARY_def obj_def sample_changes_def)

theorem canonical_report_roundtrip_witness:
  "read_changes (canonical_report sample_summary sample_changes) = Inr (sample_summary, sample_changes)"
  by (rule canonical_report_roundtrip [OF sample_read_changes])

definition sample_reversed :: pydict where
  "sample_reversed = the_dict (canonical_report sample_summary
     \<lparr>creating = rev (creating sample_changes), updating = [], deleting = rev (deleting sample_changes)\<rparr>)"

theorem diff_digest_order_independent_witness:
  "read_changes (PDict sample_reversed) = Inr (sample_summary, sample_changes)
   \<and> (\<forall>deps. report_result deps (PDict sample_reversed) = report_result deps (PDict sample_report))"
proof -
  have "updating sample_changes = []" by (simp add: sample_changes_def)
  then have "reordered sample_report sample_reversed"
    by (simp add: reordered_def sample_reversed_def sample_report_def canonical_report_def obj_def dict_simps op_name_def
        keys_are_def del: set_map)
  then show ?thesis using diff_digest_order_independent [OF sample_read_changes] by blast
qed

end
