(* ===== verification/Private_Files.thy ===== *)
theory Private_Files
  imports Deck_Diff
begin

text \<open>
  Files that must be private or unaltered: the approval receipts and the role inputs, read through a
  descriptor opened without following symbolic links (\<open>_read_private_approval_bytes\<close> and
  \<open>file_sha256\<close> of \<open>src/scripts/wp3_runtime.py\<close>, \<open>_read_wp5_approval_bytes\<close> and
  \<open>read_private_role_file\<close> of \<open>src/scripts/run-deck.py\<close>), and the receipt of the API runtime migration.

  The file system is a parameter: what opening a path gives, the type, permission bits and size that
  \<open>fstat\<close> reports of the descriptor, and what reading it then returns. A file may grow after
  \<open>fstat\<close>, so the content need not have the reported size.
\<close>

section \<open>Descriptors\<close>

record opened =
  od_regular :: bool
  od_mode :: nat
  od_size :: nat
  od_content :: "bytes res"

text \<open>
  \<open>open_file\<close> is \<open>os.open\<close> with \<open>O_RDONLY | O_NOFOLLOW\<close>; \<open>has_nofollow\<close> tells whether the platform
  defines \<open>O_NOFOLLOW\<close>.
\<close>

record local_files = repo +
  is_dir :: "string \<Rightarrow> bool"
  open_file :: "string \<Rightarrow> opened res"
  has_nofollow :: bool

text \<open>The mode bits \<open>0o600\<close>.\<close>

definition PRIVATE_MODE :: nat where "PRIVATE_MODE = 6 * 8 ^ 2"

definition MAX_RECEIPT_BYTES :: nat where "MAX_RECEIPT_BYTES = 16384"

definition MAX_ROLE_FILE_BYTES :: nat where "MAX_ROLE_FILE_BYTES = 1048576"

text \<open>The checks of \<open>fstat\<close>, then one read of one byte more than the limit.\<close>

definition read_limited :: "bool \<Rightarrow> nat \<Rightarrow> exn \<Rightarrow> opened \<Rightarrow> bytes res" where
  "read_limited private limit e f =
     (if \<not> od_regular f \<or> (private \<and> od_mode f \<noteq> PRIVATE_MODE) \<or> od_size f > limit then Inl e
      else rbind (od_content f) (\<lambda>c.
        let content = take (limit + 1) c in if length content > limit then Inl e else Inr content))"

lemma read_limited_iff:
  "read_limited private limit e f = Inr c \<longleftrightarrow>
     od_regular f \<and> (private \<longrightarrow> od_mode f = PRIVATE_MODE) \<and> od_size f \<le> limit \<and> od_content f = Inr c \<and> length c \<le> limit"
  by (cases "od_content f") (auto simp: read_limited_def Let_def)

text \<open>The 1 MiB chunks a file is digested in; the digest of the chunks is that of the whole file.\<close>

function read_chunks :: "nat \<Rightarrow> bytes \<Rightarrow> bytes list" where
  "read_chunks n c = (if n = 0 \<or> c = [] then [] else take n c # read_chunks n (drop n c))"
  by pat_completeness auto
termination by (relation "measure (length \<circ> snd)") auto

declare read_chunks.simps [simp del]

lemma concat_read_chunks: "0 < n \<Longrightarrow> concat (read_chunks n c) = c"
  by (induction n c rule: read_chunks.induct) (subst read_chunks.simps, auto)

definition CHUNK_BYTES :: nat where "CHUNK_BYTES = 1024 * 1024"

definition file_sha256 :: "wp3_deps \<Rightarrow> ('z local_files_scheme) \<Rightarrow> string \<Rightarrow> pystr res" where
  "file_sha256 deps files path =
     (if \<not> has_nofollow files then raiseV ''file digest cannot be computed safely on this platform''
      else rbind (recast_if isa_OSError (ValueError (lit ''file to digest is missing or unsafe'')) (open_file files path)) (\<lambda>f.
        if \<not> od_regular f then raiseV ''file to digest is missing or unsafe''
        else rbind (od_content f) (\<lambda>c. Inr (hexdigest (w3_sha256 deps (concat (read_chunks CHUNK_BYTES c)))))))"

lemma file_sha256_iff:
  "file_sha256 deps files path = Inr d \<longleftrightarrow>
     (\<exists>f c. has_nofollow files \<and> open_file files path = Inr f \<and> od_regular f \<and> od_content f = Inr c
        \<and> d = hexdigest (w3_sha256 deps c))"
  by (auto simp: file_sha256_def res_simps CHUNK_BYTES_def concat_read_chunks split: if_splits)

section \<open>Receipts\<close>

definition read_private_approval_bytes :: "('z local_files_scheme) \<Rightarrow> string \<Rightarrow> bytes res" where
  "read_private_approval_bytes files path =
     (if \<not> has_nofollow files
      then raiseV ''API runtime migration approval cannot be safely opened on this platform''
      else rbind (open_file files path) (read_limited True MAX_RECEIPT_BYTES
             (ValueError (lit ''API runtime migration approval receipt must be a regular mode-0600 file under 16 KiB''))))"

definition read_wp5_approval_bytes :: "('z local_files_scheme) \<Rightarrow> string \<Rightarrow> bytes res" where
  "read_wp5_approval_bytes files path =
     (if \<not> has_nofollow files
      then raiseV ''third-party runtime approval cannot be safely opened on this platform''
      else rbind (recast_if isa_OSError (ValueError (lit ''third-party runtime approval receipt is missing or unsafe''))
                   (open_file files path))
             (read_limited True MAX_RECEIPT_BYTES
               (ValueError (lit ''third-party runtime approval receipt must be a regular mode-0600 file under 16 KiB''))))"

text \<open>A private file: regular, mode 0600, with at most the given number of bytes, not behind a link.\<close>

definition private_file :: "('z local_files_scheme) \<Rightarrow> string \<Rightarrow> nat \<Rightarrow> bytes \<Rightarrow> bool" where
  "private_file files path limit c \<longleftrightarrow> has_nofollow files \<and>
     (\<exists>f. open_file files path = Inr f \<and> od_regular f \<and> od_mode f = PRIVATE_MODE \<and> od_content f = Inr c \<and> length c \<le> limit)"

lemma read_private_approval_bytes_private:
  "read_private_approval_bytes files path = Inr c \<Longrightarrow> private_file files path MAX_RECEIPT_BYTES c"
  by (auto simp: read_private_approval_bytes_def private_file_def res_simps read_limited_iff split: if_splits)

lemma read_wp5_approval_bytes_private:
  "read_wp5_approval_bytes files path = Inr c \<Longrightarrow> private_file files path MAX_RECEIPT_BYTES c"
  by (auto simp: read_wp5_approval_bytes_def private_file_def res_simps read_limited_iff split: if_splits)

text \<open>\<open>parent.is_symlink() or not parent.is_dir()\<close> for the two directories above a receipt.\<close>

definition safe_directories :: "('z local_files_scheme) \<Rightarrow> bool" where
  "safe_directories files \<longleftrightarrow>
     list_all (\<lambda>d. \<not> is_symlink files d \<and> is_dir files d) [''.generated'', ''.generated/evidence'']"

text \<open>\<open>json.loads(raw.decode("utf-8"), object_pairs_hook=unique_object)\<close>.\<close>

definition receipt_value :: "wp3_deps \<Rightarrow> bytes \<Rightarrow> pyval res" where
  "receipt_value deps raw =
     rbind (utf8_decode raw)
       (json_loads (unique_opts (w3_floats deps) (ValueError (lit ''duplicate receipt field''))) (w3_depth deps))"

text \<open>\<open>re.fullmatch(r"[0-9a-f]{64}", v)\<close> of a string.\<close>

fun hex64 :: "pyval \<Rightarrow> bool" where
  "hex64 (PStr s) = (length s = 64 \<and> list_all is_lower_hex s)"
| "hex64 _ = False"

definition MIGRATION_APPROVAL_RELATIVE :: string where
  "MIGRATION_APPROVAL_RELATIVE = ''.generated/evidence/wp3-api-runtime-migration-approval.json''"

definition MIGRATION_APPROVAL_FIELDS :: "string list" where
  "MIGRATION_APPROVAL_FIELDS =
     [''schema_version'', ''scope'', ''approved'', ''control_plane_id'', ''state_sha256'', ''role_inputs_sha256'',
      ''diff_sha256'', ''summary'', ''operations'']"

definition OPERATION_NAMES :: "string list" where
  "OPERATION_NAMES = [''creating'', ''updating'', ''deleting'']"

text \<open>One approved operation: three non-empty strings.\<close>

definition approved_entry :: "pyval \<Rightarrow> bool" where
  "approved_entry v \<longleftrightarrow>
     (case v of PDict e \<Rightarrow> keys_are e [''kind'', ''name'', ''id'']
        \<and> list_all (\<lambda>f. nonempty_str (dget e f)) [''kind'', ''name'', ''id''] | _ \<Rightarrow> False)"

definition entry_texts :: "string list \<Rightarrow> pyval \<Rightarrow> pystr list" where
  "entry_texts fs v = map (\<lambda>f. the_str (dget (the_dict v) f)) fs"

definition check_approved_entries :: "pydict \<Rightarrow> unit \<Rightarrow> pykey \<times> pyval \<Rightarrow> unit res" where
  "check_approved_entries summary u item =
     (case item of (operation, entries) \<Rightarrow>
      if \<not> is_list entries \<or> map_of summary operation \<noteq> Some (PInt (int (length (the_list entries))))
         \<or> \<not> list_all approved_entry (the_list entries)
      then raiseV ''API runtime migration approval operation identities are malformed''
      else raise_if (\<not> py_eq entries (PList (sort_key (entry_texts [''kind'', ''name'', ''id'']) (the_list entries))))
             (ValueError (lit ''API runtime migration approval operation identities are not canonical'')))"

definition approved_identity :: "pyval \<Rightarrow> identity" where
  "approved_identity v =
     \<lparr>i_kind = the_str (dget (the_dict v) ''kind''), i_name = the_str (dget (the_dict v) ''name''),
      i_id = Some (the_str (dget (the_dict v) ''id''))\<rparr>"

definition approved_operations :: "pydict \<Rightarrow> identity per_op" where
  "approved_operations ops =
     \<lparr>creating = map approved_identity (the_list (dget ops ''creating'')),
      updating = map approved_identity (the_list (dget ops ''updating'')),
      deleting = map approved_identity (the_list (dget ops ''deleting''))\<rparr>"

fun the_int :: "pyval \<Rightarrow> int" where
  "the_int (PInt i) = i"
| "the_int _ = 0"

definition check_approved_operations :: "pydict \<Rightarrow> unit res" where
  "check_approved_operations receipt =
     (let summary = dget receipt ''summary''; operations = dget receipt ''operations'' in
      if \<not> (is_dict summary \<and> keys_are (the_dict summary) (OPERATION_NAMES @ [''total'']))
         \<or> \<not> list_all (\<lambda>(_, v). is_int v \<and> 0 \<le> the_int v) (the_dict summary)
      then raiseV ''API runtime migration approval summary is malformed''
      else if \<not> (is_dict operations \<and> keys_are (the_dict operations) OPERATION_NAMES)
      then raiseV ''API runtime migration approval operation counts are malformed''
      else rbind (foldr_res (check_approved_entries (the_dict summary)) () (the_dict operations)) (\<lambda>_.
        let s = the_dict summary in
        if the_int (dget s ''total'') \<noteq> sum_list (map (\<lambda>n. the_int (dget s n)) OPERATION_NAMES)
        then raiseV ''API runtime migration approval total is malformed''
        else validate_migration_approval_operations summary (approved_operations (the_dict operations))))"

definition check_migration_binding ::
    "wp3_deps \<Rightarrow> ('z local_files_scheme) \<Rightarrow> pyval \<Rightarrow> pydict \<Rightarrow> pydict \<Rightarrow> unit res" where
  "check_migration_binding deps files control_plane_id role_values receipt =
     (if dget receipt ''schema_version'' \<noteq> PInt 1 \<or> \<not> py_eq (dget receipt ''scope'') (S ''api-runtime-migration'')
         \<or> dget receipt ''approved'' \<noteq> PBool True \<or> \<not> is_str control_plane_id
         \<or> \<not> py_eq (dget receipt ''control_plane_id'') control_plane_id
      then raiseV ''API runtime migration approval does not match the API target and scope''
      else if is_symlink files ''kong/api-gateway.yaml'' \<or> \<not> is_str (dget receipt ''state_sha256'')
      then raiseV ''API runtime migration approval does not match the current runtime state''
      else rbind (file_sha256 deps files ''kong/api-gateway.yaml'') (\<lambda>state_sha256.
        if dget receipt ''state_sha256'' \<noteq> PStr state_sha256
        then raiseV ''API runtime migration approval does not match the current runtime state''
        else if \<not> hex64 (dget receipt ''state_sha256'') \<or> \<not> hex64 (dget receipt ''diff_sha256'')
        then raiseV ''API runtime migration approval digest is malformed''
        else if \<not> hex64 (dget receipt ''role_inputs_sha256'')
        then raiseV ''API runtime migration approval does not match current certificate role inputs''
        else rbind (canonical_sha256 deps (PDict role_values)) (\<lambda>role_sha256.
          raise_if (dget receipt ''role_inputs_sha256'' \<noteq> PStr role_sha256)
            (ValueError (lit ''API runtime migration approval does not match current certificate role inputs'')))))"

definition read_migration_approval ::
    "wp3_deps \<Rightarrow> ('z local_files_scheme) \<Rightarrow> pyval \<Rightarrow> pydict \<Rightarrow> pydict res" where
  "read_migration_approval deps files control_plane_id role_values =
     (if \<not> safe_directories files
      then raiseV ''API runtime migration approval receipt directory is missing or unsafe''
      else rbind (recast_if isa_OSError (ValueError (lit ''API runtime migration approval receipt is missing or unsafe''))
             (recast_if (\<lambda>e. e = FileNotFoundError)
               (ValueError (lit ''API runtime sync requires the separately reviewed migration approval receipt''))
               (read_private_approval_bytes files MIGRATION_APPROVAL_RELATIVE))) (\<lambda>raw_receipt.
        rbind (recast_if (\<lambda>e. isa_UnicodeError e \<or> e = JSONDecodeError)
             (ValueError (lit ''API runtime migration approval receipt is malformed'')) (receipt_value deps raw_receipt)) (\<lambda>v.
        if \<not> (is_dict v \<and> keys_are (the_dict v) MIGRATION_APPROVAL_FIELDS)
        then raiseV ''API runtime migration approval receipt fields are malformed''
        else rbind (check_migration_binding deps files control_plane_id role_values (the_dict v)) (\<lambda>_.
          rbind (check_approved_operations (the_dict v)) (\<lambda>_. Inr (the_dict v))))))"

text \<open>
  What an accepted receipt binds: a private file, the target, the digests of the current state file
  and role inputs, and operations that pass the independent check.
\<close>

definition migration_bound :: "wp3_deps \<Rightarrow> ('z local_files_scheme) \<Rightarrow> pyval \<Rightarrow> pydict \<Rightarrow> pydict \<Rightarrow> bool" where
  "migration_bound deps files control_plane_id role_values receipt \<longleftrightarrow>
     dget receipt ''approved'' = PBool True \<and> py_eq (dget receipt ''control_plane_id'') control_plane_id
     \<and> \<not> is_symlink files ''kong/api-gateway.yaml''
     \<and> (\<exists>d. file_sha256 deps files ''kong/api-gateway.yaml'' = Inr d \<and> dget receipt ''state_sha256'' = PStr d)
     \<and> (\<exists>d. canonical_sha256 deps (PDict role_values) = Inr d \<and> dget receipt ''role_inputs_sha256'' = PStr d)
     \<and> hex64 (dget receipt ''diff_sha256'')
     \<and> validate_migration_approval_operations (dget receipt ''summary'')
         (approved_operations (the_dict (dget receipt ''operations''))) = Inr ()"

lemma read_migration_approval_bound:
  assumes "read_migration_approval deps files cp role_values = Inr receipt"
  shows "migration_bound deps files cp role_values receipt \<and> safe_directories files
    \<and> (\<exists>raw. private_file files MIGRATION_APPROVAL_RELATIVE MAX_RECEIPT_BYTES raw
             \<and> receipt_value deps raw = Inr (PDict receipt))"
proof -
  obtain raw v where parts: "safe_directories files" "read_private_approval_bytes files MIGRATION_APPROVAL_RELATIVE = Inr raw"
    "receipt_value deps raw = Inr v" "is_dict v" "receipt = the_dict v"
    and binding: "check_migration_binding deps files cp role_values receipt = Inr ()"
    and ops: "check_approved_operations receipt = Inr ()"
    using assms by (auto simp: read_migration_approval_def res_simps split: if_splits)
  have "migration_bound deps files cp role_values receipt"
    using binding ops
    by (auto simp: migration_bound_def check_migration_binding_def check_approved_operations_def res_simps Let_def split: if_splits)
  moreover have "v = PDict receipt" using parts by (cases v) auto
  ultimately show ?thesis using parts read_private_approval_bytes_private [OF parts(2)] by blast
qed

end
