(* ===== verification/Redaction.thy ===== *)
theory Redaction
  imports Py_Json "HOL-Library.Sublist"
begin

text \<open>
  \<open>sanitize_output\<close> of \<open>src/scripts/run-deck.py\<close>: PEM blocks and known secrets are removed from the text
  decK printed before any of it is shown. The theorem states when no secret is left.

  The regular expression for PEM blocks has no choice in what it matches: a header ends at the first
  dash or line break, and the body is the shortest one, so it is modelled by a scan. The order in which
  Python iterates over a set is a parameter.
\<close>

section \<open>PEM blocks\<close>

definition DASHES :: pystr where "DASHES = lit ''-----''"

definition header_char :: "nat \<Rightarrow> bool" where
  "header_char c \<longleftrightarrow> c \<noteq> 45 \<and> c \<noteq> 13 \<and> c \<noteq> 10"

text \<open>What follows \<open>-----WORD [^-\r\n]+-----\<close> at the start of a text.\<close>

definition after_header :: "string \<Rightarrow> pystr \<Rightarrow> pystr option" where
  "after_header word s =
     (let opening = DASHES @ lit word @ [32]; t = drop (length opening) s in
      if \<not> starts_with opening s then None
      else case span header_char t of (label, rest) \<Rightarrow>
        if label \<noteq> [] \<and> starts_with DASHES rest then Some (drop (length DASHES) rest) else None)"

fun after_end :: "pystr \<Rightarrow> pystr option" where
  "after_end [] = None"
| "after_end (c # s) = (case after_header ''END'' (c # s) of Some rest \<Rightarrow> Some rest | None \<Rightarrow> after_end s)"

definition after_pem :: "pystr \<Rightarrow> pystr option" where
  "after_pem s = (case after_header ''BEGIN'' s of None \<Rightarrow> None | Some body \<Rightarrow> after_end body)"

lemma span_length: "span P s = (a, b) \<Longrightarrow> length b \<le> length s"
  by (auto simp: span_def dest: sym) (metis length_append le_add2 takeWhile_dropWhile_id)

lemma after_header_shorter: "after_header word s = Some r \<Longrightarrow> length r < length s"
proof -
  assume some: "after_header word s = Some r"
  let ?opening = "DASHES @ lit word @ [32]"
  obtain label rest where parts: "starts_with ?opening s" "span header_char (drop (length ?opening) s) = (label, rest)"
    "r = drop (length DASHES) rest"
    using some by (auto simp: after_header_def Let_def split: if_splits prod.splits)
  then obtain t where "s = ?opening @ t" unfolding starts_with_iff by blast
  moreover have "length r \<le> length (drop (length ?opening) s)" using span_length [OF parts(2)] parts(3) by simp
  ultimately show ?thesis by simp
qed

lemma after_end_shorter: "after_end s = Some r \<Longrightarrow> length r < length s"
  by (induction s) (auto simp: less_Suc_eq dest: after_header_shorter split: option.splits)

lemma after_pem_shorter: "after_pem s = Some r \<Longrightarrow> length r < length s"
  by (auto simp: after_pem_def dest!: after_header_shorter after_end_shorter split: option.splits)

definition PEM_MARK :: pystr where "PEM_MARK = lit ''[REDACTED PEM]''"

function redact_pem :: "pystr \<Rightarrow> pystr" where
  "redact_pem [] = []"
| "redact_pem (c # s) =
     (case after_pem (c # s) of Some rest \<Rightarrow> PEM_MARK @ redact_pem rest | None \<Rightarrow> c # redact_pem s)"
  by pat_completeness auto
termination by (relation "measure length") (auto dest: after_pem_shorter)

section \<open>Secrets\<close>

definition MARK :: pystr where "MARK = lit ''[REDACTED]''"

definition safe_secrets :: "(pystr list \<Rightarrow> pystr list) \<Rightarrow> pystr list \<Rightarrow> pystr list" where
  "safe_secrets set_order secrets =
     sort_key (\<lambda>s. - int (length s)) (set_order (filter (\<lambda>s. 4 \<le> length s) secrets))"

definition sanitize_output :: "(pystr list \<Rightarrow> pystr list) \<Rightarrow> pystr \<Rightarrow> pystr list \<Rightarrow> pystr" where
  "sanitize_output set_order txt secrets =
     fold (\<lambda>secret t. py_replace secret MARK t) (safe_secrets set_order secrets) (redact_pem txt)"

section \<open>What replacement leaves\<close>

lemma sublist_around:
  assumes "c \<notin> set t"
  shows "sublist t (a @ c # b) \<longleftrightarrow> sublist t a \<or> sublist t b"
proof -
  have "suffix t1 a \<and> prefix t2 (c # b) \<longleftrightarrow> suffix t a \<and> t2 = []" if "t = t1 @ t2" for t1 t2
    using that assms by (cases t2) auto
  then have "(\<exists>t1 t2. t = t1 @ t2 \<and> suffix t1 a \<and> prefix t2 (c # b)) \<longleftrightarrow> suffix t a"
    by (metis append.right_neutral)
  moreover have "prefix t (c # b) \<longleftrightarrow> t = []" using assms by (cases t) auto
  ultimately show ?thesis by (auto simp: sublist_append sublist_Cons_right)
qed

lemma starts_with_prefix: "starts_with p s \<longleftrightarrow> prefix p s"
  by (auto simp: starts_with_iff prefix_def)

lemma replace_skip_drop: "replace_skip p q k s = replace_skip p q 0 (drop k s)"
  by (induction p q k s rule: replace_skip.induct) auto

lemma replace_none: "\<not> sublist p s \<Longrightarrow> py_replace p q s = s"
proof (induction s)
  case (Cons c s)
  then have "\<not> starts_with p (c # s)" "\<not> sublist p s" by (auto simp: starts_with_prefix sublist_Cons_right)
  then show ?case using Cons.IH by (simp add: py_replace_def)
qed (simp add: py_replace_def)

text \<open>The leftmost occurrence is replaced, and the scan goes on behind it.\<close>

lemma replace_first:
  assumes "p \<noteq> []" "\<not> sublist p (butlast (a @ p))"
  shows "py_replace p q (a @ p @ b) = a @ q @ py_replace p q b"
  using assms(2)
proof (induction a)
  case Nil
  obtain c p' where "p = c # p'" using assms(1) by (cases p) auto
  then show ?case by (simp add: py_replace_def replace_skip_drop [of _ _ "length p'"] starts_with_iff)
next
  case (Cons c a)
  have "\<not> starts_with p (c # a @ p @ b)"
  proof
    assume "starts_with p (c # a @ p @ b)"
    then have "prefix p ((c # a @ p) @ b)" by (simp add: starts_with_prefix)
    moreover have "prefix (c # a @ p) ((c # a @ p) @ b)" by (rule prefixI) (rule refl)
    ultimately have "prefix p (c # a @ p)" by (rule prefix_length_prefix) simp
    then obtain z where z: "c # a @ p = p @ z" by (auto simp: prefix_def)
    moreover have "length (c # a @ p) = length (p @ z)" by (simp only: z)
    ultimately have "z \<noteq> []" by auto
    then have "butlast (c # a @ p) = p @ butlast z" using z by (simp add: butlast_append)
    then show False using Cons.prems by (auto simp: sublist_def)
  qed
  moreover have "\<not> sublist p (butlast (a @ p))"
    using Cons.prems assms(1) by (auto simp: sublist_Cons_right)
  ultimately show ?case using Cons.IH by (simp add: py_replace_def)
qed

lemma first_occurrence:
  assumes "p \<noteq> []" "sublist p s"
  shows "\<exists>a b. s = a @ p @ b \<and> \<not> sublist p (butlast (a @ p))"
  using assms(2)
proof (induction s)
  case Nil
  then show ?case using assms(1) by simp
next
  case (Cons c s)
  show ?case
  proof (cases "prefix p (c # s)")
    case True
    have "length (butlast p) < length p" using assms(1) by simp
    then have "\<not> sublist p (butlast ([] @ p))" using sublist_length_le [of p "butlast p"] by auto
    moreover obtain b where "c # s = [] @ p @ b" using True by (auto simp: prefix_def)
    ultimately show ?thesis by blast
  next
    case False
    then obtain a b where ab: "s = a @ p @ b" "\<not> sublist p (butlast (a @ p))"
      using Cons by (auto simp: sublist_Cons_right)
    have "prefix (butlast (a @ p)) s"
      unfolding ab(1) using prefixeq_butlast [of "a @ p"] by (metis append.assoc prefix_prefix)
    then have "\<not> prefix p (c # butlast (a @ p))" using False by (meson prefix_order.trans Cons_prefix_Cons)
    then have "\<not> sublist p (butlast ((c # a) @ p))" using ab(2) assms(1) by (simp add: sublist_Cons_right)
    moreover have "c # s = (c # a) @ p @ b" using ab(1) by simp
    ultimately show ?thesis by blast
  qed
qed

text \<open>
  Whether a text can only occur on one side of \<open>r\<close> or inside it. Then a piece of the result is a piece
  of the replacement, or a piece of the original that holds no occurrence of what was replaced.
\<close>

definition separates :: "'a list \<Rightarrow> 'a list \<Rightarrow> bool" where
  "separates r t \<longleftrightarrow> (\<forall>a b. sublist t (a @ r @ b) \<longrightarrow> sublist t a \<or> sublist t r \<or> sublist t b)"

lemma replace_pieces:
  assumes "p \<noteq> []" "separates r t" "sublist t (py_replace p r s)"
  shows "sublist t r \<or> sublist t s \<and> \<not> sublist p t"
  using assms(3)
proof (induction s rule: length_induct)
  case (1 s)
  show ?case
  proof (cases "sublist p s")
    case False
    then show ?thesis using "1.prems" replace_none [of p s r] by (metis sublist_order.order.trans)
  next
    case True
    then obtain a b where ab: "s = a @ p @ b" "\<not> sublist p (butlast (a @ p))" using first_occurrence [OF assms(1)] by blast
    have "py_replace p r s = a @ r @ py_replace p r b"
      using replace_first [OF assms(1) ab(2), of r b] by (simp add: ab(1))
    then consider "sublist t a" | "sublist t r" | "sublist t (py_replace p r b)"
      using "1.prems" assms(2) unfolding separates_def by metis
    then show ?thesis
    proof cases
      case 1
      have "sublist a (butlast (a @ p))" using assms(1) by (simp add: butlast_append)
      then have "\<not> sublist p t" using 1 ab(2) by (meson sublist_order.order.trans)
      moreover have "sublist t s" using 1 by (auto simp: ab(1) sublist_append)
      ultimately show ?thesis by blast
    next
      case 3
      have "length b < length s" using assms(1) by (simp add: ab(1))
      then have "sublist t r \<or> sublist t b \<and> \<not> sublist p t" using "1.IH" 3 by blast
      then show ?thesis by (auto simp: ab(1) sublist_append)
    qed simp
  qed
qed

text \<open>Replacing one text after the other removes a text for good, if no replacement brings it back.\<close>

lemma replace_all_away:
  assumes "list_all (\<lambda>(p, r). p \<noteq> [] \<and> separates r t \<and> \<not> sublist t r) subs" "t \<in> fst ` set subs \<or> \<not> sublist t s"
  shows "\<not> sublist t (fold (\<lambda>(p, r) s. py_replace p r s) subs s)"
  using assms
proof (induction subs arbitrary: s)
  case (Cons sub subs)
  obtain p r where sub: "sub = (p, r)" by (cases sub)
  have "t \<in> fst ` set subs \<or> \<not> sublist t (py_replace p r s)"
    using Cons.prems replace_pieces [of p r t s] sub by auto
  then show ?case using Cons sub by simp
qed simp

lemma mark_separates:
  assumes "91 \<notin> set t" "93 \<notin> set t"
  shows "separates MARK t" "sublist t MARK \<longleftrightarrow> sublist t (lit ''REDACTED'')"
proof -
  have mark: "MARK = 91 # lit ''REDACTED'' @ [93]" by (simp add: MARK_def lit_def)
  have around: "sublist t (a @ MARK @ b) \<longleftrightarrow> sublist t a \<or> sublist t (lit ''REDACTED'') \<or> sublist t b" for a b
    using sublist_around [OF assms(1), of a "lit ''REDACTED'' @ 93 # b"] sublist_around [OF assms(2), of "lit ''REDACTED''" b]
    by (simp add: mark)
  from around [of "[]" "[]"] show inside: "sublist t MARK \<longleftrightarrow> sublist t (lit ''REDACTED'')" by auto
  show "separates MARK t" using around inside by (simp add: separates_def)
qed

lemma redaction_keeps:
  assumes "\<not> sublist secret (lit ''REDACTED'')" "91 \<notin> set secret" "93 \<notin> set secret" "[] \<notin> set ps"
    and "secret \<in> set ps \<or> \<not> sublist secret s"
  shows "\<not> sublist secret (fold (\<lambda>p t. py_replace p MARK t) ps s)"
proof -
  let ?subs = "map (\<lambda>p. (p, MARK)) ps"
  have "list_all (\<lambda>(p, r). p \<noteq> [] \<and> separates r secret \<and> \<not> sublist secret r) ?subs"
    using mark_separates [OF assms(2,3)] assms(1,4) by (auto simp: list_all_iff)
  moreover have "secret \<in> fst ` set ?subs \<or> \<not> sublist secret s" using assms(5) by force
  ultimately have "\<not> sublist secret (fold (\<lambda>(p, r) s. py_replace p r s) ?subs s)" by (rule replace_all_away)
  then show ?thesis by (simp add: fold_map comp_def)
qed

lemma redact_pem_unchanged: "\<not> sublist (lit ''-----BEGIN '') s \<Longrightarrow> redact_pem s = s"
proof (induction s)
  case (Cons c s)
  have "\<not> prefix (lit ''-----BEGIN '') (c # s)" "\<not> sublist (lit ''-----BEGIN '') s"
    using Cons.prems by (auto simp: sublist_Cons_right)
  moreover have "DASHES @ lit ''BEGIN'' @ [32] = lit ''-----BEGIN ''" by (simp add: DASHES_def lit_def)
  ultimately have "after_pem (c # s) = None" by (simp add: after_pem_def after_header_def starts_with_prefix Let_def)
  then show ?case using Cons.IH \<open>\<not> sublist (lit ''-----BEGIN '') s\<close> by simp
qed simp

lemma fold_replace_none: "list_all (\<lambda>p. \<not> sublist p s) ps \<Longrightarrow> fold (\<lambda>p t. py_replace p q t) ps s = s"
  by (induction ps) (simp_all add: replace_none)

text \<open>
  C29: Output shown after redaction contains none of the secrets of at least four characters, provided
  the secret holds no square bracket and is not itself a piece of the word that replaces it; and text
  without a PEM header and without any of the secrets is shown unchanged.
\<close>

theorem redaction_removes_secrets:
  assumes "\<And>xs. set (set_order xs) = set xs"
  shows "{secret \<in> set secrets. 4 \<le> length secret \<and> 91 \<notin> set secret \<and> 93 \<notin> set secret \<and> \<not> sublist secret (lit ''REDACTED'')}
      \<subseteq> {secret. \<not> sublist secret (sanitize_output set_order txt secrets)}
    \<and> (\<not> sublist (lit ''-----BEGIN '') txt \<and> (\<forall>secret \<in> set secrets. \<not> sublist secret txt)
       \<longrightarrow> sanitize_output set_order txt secrets = txt)"
proof -
  let ?ps = "safe_secrets set_order secrets"
  have ps: "set ?ps = {s \<in> set secrets. 4 \<le> length s}" by (simp add: safe_secrets_def assms)
  then have "[] \<notin> set ?ps" by auto
  then have "\<not> sublist secret (sanitize_output set_order txt secrets)"
    if "secret \<in> set secrets" "4 \<le> length secret" "91 \<notin> set secret" "93 \<notin> set secret" "\<not> sublist secret (lit ''REDACTED'')" for secret
    using redaction_keeps [OF that(5,3,4)] ps that(1,2) by (simp add: sanitize_output_def)
  moreover have "sanitize_output set_order txt secrets = txt"
    if "\<not> sublist (lit ''-----BEGIN '') txt" "\<forall>secret \<in> set secrets. \<not> sublist secret txt"
    using that ps by (simp add: sanitize_output_def redact_pem_unchanged fold_replace_none list_all_iff)
  ultimately show ?thesis by blast
qed

theorem redaction_removes_secrets_witness:
  "\<not> sublist (lit ''s3cret'') (sanitize_output (\<lambda>xs. xs) (lit ''token s3cret used'') [lit ''s3cret''])
   \<and> sanitize_output (\<lambda>xs. xs) (lit ''nothing here'') [lit ''s3cret''] = lit ''nothing here''"
proof -
  have order: "\<And>xs. set ((\<lambda>xs. xs) xs) = set xs" by simp
  have "\<not> sublist (lit ''s3cret'') (lit ''REDACTED'')" "\<not> sublist (lit ''s3cret'') (lit ''nothing here'')"
    "\<not> sublist (lit ''-----BEGIN '') (lit ''nothing here'')"
    by (simp_all add: lit_def sublist_Cons_right)
  moreover have "4 \<le> length (lit ''s3cret'')" "91 \<notin> set (lit ''s3cret'')" "93 \<notin> set (lit ''s3cret'')"
    by (simp_all add: lit_def)
  ultimately show ?thesis
    using redaction_removes_secrets [OF order, of "[lit ''s3cret'']" "lit ''token s3cret used''"]
      redaction_removes_secrets [OF order, of "[lit ''s3cret'']" "lit ''nothing here''"]
    by auto
qed

end
