(* ===== verification/Deck_Approval.thy ===== *)
theory Deck_Approval
  imports Private_Files Redaction
begin

text \<open>
  The third-party side of \<open>src/scripts/run-deck.py\<close>: the decK diff report with redacted names, the two
  scope checks, and the receipts a human leaves for the additive change (\<open>wp5\<close>) and for the backend
  runtime. \<open>set_order\<close> is the order in which Python iterates over a set of strings.
\<close>

section \<open>Reviewed identities\<close>

type_synonym identity_list = "(string \<times> string) list"

definition WP5_APPROVAL_RELATIVE :: string where
  "WP5_APPROVAL_RELATIVE = ''.generated/evidence/wp5-third-party-runtime-approval.json''"

definition WP5_APPROVAL_FIELDS :: "string list" where
  "WP5_APPROVAL_FIELDS =
     [''schema_version'', ''scope'', ''approved'', ''target_sha256'', ''state_sha256'', ''role_inputs_sha256'',
      ''diff_sha256'', ''summary'', ''operations'']"

definition WP5_EXPECTED_SUMMARY :: pyval where
  "WP5_EXPECTED_SUMMARY = obj [(''creating'', PInt 11), (''updating'', PInt 0), (''deleting'', PInt 0), (''total'', PInt 11)]"

definition WP5_EXPECTED_CREATE_KINDS :: "(string \<times> nat) list" where
  "WP5_EXPECTED_CREATE_KINDS = [(''service'', 2), (''route'', 2), (''plugin'', 7)]"

definition WP5_EXPECTED_CREATE_IDENTITIES :: identity_list where
  "WP5_EXPECTED_CREATE_IDENTITIES =
     [(''service'', ''third-party-route-a-api''), (''service'', ''third-party-route-b-api''),
      (''route'', ''third-party-route-a''), (''route'', ''third-party-route-b''),
      (''plugin'', ''cors for service third-party-route-a-api''),
      (''plugin'', ''openid-connect for service third-party-route-a-api''),
      (''plugin'', ''request-transformer for service third-party-route-a-api''),
      (''plugin'', ''cors for service third-party-route-b-api''),
      (''plugin'', ''fapi-client-auth-bridge for service third-party-route-b-api''),
      (''plugin'', ''openid-connect for service third-party-route-b-api''),
      (''plugin'', ''request-transformer for service third-party-route-b-api'')]"

definition BACKEND_APPROVAL_RELATIVE :: string where
  "BACKEND_APPROVAL_RELATIVE = ''.generated/evidence/third-party-backend-runtime-approval-v2.json''"

definition BACKEND_SCOPE :: string where "BACKEND_SCOPE = ''third-party-backend-runtime-v2''"

definition BACKEND_NEW_IDENTITIES :: identity_list where
  "BACKEND_NEW_IDENTITIES =
     [(''certificate'', ''742c3d79-850f-5761-9544-63864bab5cad''), (''service'', ''third-party-static-ui''),
      (''route'', ''third-party-static-ui''), (''plugin'', ''request-transformer for service third-party-static-ui'')]"

definition BACKEND_UPDATED_IDENTITIES :: identity_list where
  "BACKEND_UPDATED_IDENTITIES =
     [(''service'', ''third-party-route-a-api''), (''service'', ''third-party-route-b-api''),
      (''plugin'', ''openid-connect for service third-party-route-a-api''),
      (''plugin'', ''openid-connect for service third-party-route-b-api''),
      (''plugin'', ''cors for service third-party-route-a-api''),
      (''plugin'', ''cors for service third-party-route-b-api'')]"

definition BACKEND_RECOVERY_CREATE_IDENTITIES :: identity_list where
  "BACKEND_RECOVERY_CREATE_IDENTITIES =
     [(''route'', ''third-party-static-ui''), (''plugin'', ''request-transformer for service third-party-static-ui'')]"

definition BACKEND_RECOVERY_UPDATE_IDENTITIES :: identity_list where
  "BACKEND_RECOVERY_UPDATE_IDENTITIES =
     [(''plugin'', ''openid-connect for service third-party-route-a-api''),
      (''plugin'', ''openid-connect for service third-party-route-b-api''),
      (''plugin'', ''cors for service third-party-route-a-api''),
      (''plugin'', ''cors for service third-party-route-b-api'')]"

definition BACKEND_PLANS :: "(string \<times> (string \<times> string) per_op) list" where
  "BACKEND_PLANS =
     [(''migration'', \<lparr>creating = BACKEND_NEW_IDENTITIES, updating = BACKEND_UPDATED_IDENTITIES, deleting = []\<rparr>),
      (''bootstrap'', \<lparr>creating = WP5_EXPECTED_CREATE_IDENTITIES @ BACKEND_NEW_IDENTITIES, updating = [], deleting = []\<rparr>),
      (''noop'', \<lparr>creating = [], updating = [], deleting = []\<rparr>),
      (''migration-recovery'', \<lparr>creating = BACKEND_RECOVERY_CREATE_IDENTITIES,
          updating = BACKEND_RECOVERY_UPDATE_IDENTITIES, deleting = []\<rparr>)]"

definition of_op :: "op \<Rightarrow> 'a per_op \<Rightarrow> 'a list" where
  "of_op p r = (case p of Creating \<Rightarrow> creating r | Updating \<Rightarrow> updating r | Deleting \<Rightarrow> deleting r)"

definition OPS :: "op list" where "OPS = [Creating, Updating, Deleting]"

section \<open>The diff report with redacted names\<close>

definition DIFF_KINDS :: "string list" where
  "DIFF_KINDS = [''service'', ''route'', ''plugin'', ''certificate'', ''ca_certificate'']"

fun printable_name :: "pyval \<Rightarrow> bool" where
  "printable_name (PStr s) = (s \<noteq> [] \<and> length s \<le> 256 \<and> \<not> list_ex (\<lambda>c. c < 32 \<or> c = 127) s)"
| "printable_name _ = False"

definition diff_entry :: "pyval \<Rightarrow> bool" where
  "diff_entry v \<longleftrightarrow>
     (case v of PDict e \<Rightarrow>
        keys_are e [''kind'', ''name'', ''body''] \<and> dget e ''kind'' \<in> set (map S DIFF_KINDS) \<and> printable_name (dget e ''name'')
        \<and> (case dget e ''body'' of PDict b \<Rightarrow> keys_are b [''old'', ''new''] | _ \<Rightarrow> False)
      | _ \<Rightarrow> False)"

definition check_diff_body :: "op \<Rightarrow> pyval \<Rightarrow> pyval \<Rightarrow> unit res" where
  "check_diff_body p old new =
     (case p of
        Creating \<Rightarrow> raise_if (old \<noteq> PNone \<or> \<not> is_dict new) (ValueError (lit ''third-party runtime diff create body is malformed''))
      | Updating \<Rightarrow> raise_if (\<not> is_dict old \<or> \<not> is_dict new) (ValueError (lit ''third-party runtime diff update body is malformed''))
      | Deleting \<Rightarrow> raise_if (old \<noteq> PNone \<or> \<not> is_dict new) (ValueError (lit ''third-party runtime diff delete body is malformed'')))"

text \<open>One entry; the state holds the entries accepted so far with their redacted identities.\<close>

definition read_safe_entry ::
    "(pystr \<Rightarrow> pystr) \<Rightarrow> op \<Rightarrow> ((pystr \<times> pystr) \<times> pyval) list \<Rightarrow> pyval \<Rightarrow> ((pystr \<times> pystr) \<times> pyval) list res" where
  "read_safe_entry redact p seen v =
     (if \<not> diff_entry v then raiseV ''third-party runtime diff entity is malformed''
      else let e = the_dict v; body = the_dict (dget e ''body'');
               safe = (the_str (dget e ''kind''), redact (the_str (dget e ''name''))) in
        rbind (check_diff_body p (dget body ''old'') (dget body ''new'')) (\<lambda>_.
        if safe \<in> set (map fst seen) then raiseV ''third-party runtime diff contains duplicate operation identities''
        else Inr (seen @ [(safe, v)])))"

definition read_safe_operation ::
    "(pystr \<Rightarrow> pystr) \<Rightarrow> pydict \<Rightarrow> pydict \<Rightarrow> op \<Rightarrow> ((pystr \<times> pystr) \<times> pyval) list res" where
  "read_safe_operation redact changes summary p =
     (let entries = dget changes (op_name p) in
      if \<not> is_list entries then raiseV ''third-party runtime diff operation list is malformed''
      else rbind (foldr_res (read_safe_entry redact p) [] (the_list entries)) (\<lambda>seen.
        if dget summary (op_name p) \<noteq> PInt (int (length seen))
        then raiseV ''third-party runtime diff summary does not match its operation identities''
        else Inr seen))"

definition read_safe_changes :: "(pystr \<Rightarrow> pystr) \<Rightarrow> pyval \<Rightarrow> ((pystr \<times> pystr) \<times> pyval) per_op res" where
  "read_safe_changes redact report =
     (if \<not> (case report of PDict r \<Rightarrow> keys_are r [''changes'', ''summary'', ''warnings'', ''errors'']
               \<and> py_eq (dget r ''warnings'') (PList []) \<and> py_eq (dget r ''errors'') (PList []) | _ \<Rightarrow> False)
      then raiseV ''third-party runtime diff report contains errors, warnings, or unexpected fields''
      else let changes = dget (the_dict report) ''changes''; summary = dget (the_dict report) ''summary'' in
        if \<not> (is_dict changes \<and> keys_are (the_dict changes) OPERATION_NAMES
              \<and> is_dict summary \<and> keys_are (the_dict summary) (OPERATION_NAMES @ [''total'']))
        then raiseV ''third-party runtime diff report structure is malformed''
        else let c = the_dict changes; s = the_dict summary in
          rbind (read_safe_operation redact c s Creating) (\<lambda>cs.
          rbind (read_safe_operation redact c s Updating) (\<lambda>us.
          rbind (read_safe_operation redact c s Deleting) (\<lambda>ds.
          if dget s ''total'' \<noteq> PInt (int (length cs + length us + length ds))
          then raiseV ''third-party runtime diff total is malformed''
          else Inr \<lparr>creating = cs, updating = us, deleting = ds\<rparr>))))"

definition counts_value :: "'a per_op \<Rightarrow> pyval" where
  "counts_value r = obj
     [(''creating'', PInt (int (length (creating r)))), (''updating'', PInt (int (length (updating r)))),
      (''deleting'', PInt (int (length (deleting r)))),
      (''total'', PInt (int (length (creating r) + length (updating r) + length (deleting r))))]"

definition per_op_value :: "(op \<Rightarrow> pyval list) \<Rightarrow> pyval" where
  "per_op_value f = obj [(''creating'', PList (f Creating)), (''updating'', PList (f Updating)), (''deleting'', PList (f Deleting))]"

definition safe_identity_value :: "pystr \<times> pystr \<Rightarrow> pyval" where
  "safe_identity_value i = obj [(''kind'', PStr (fst i)), (''name'', PStr (snd i))]"

text \<open>What is shown and compared with the receipt, and the report that is digested.\<close>

definition safe_view :: "((pystr \<times> pystr) \<times> pyval) per_op \<Rightarrow> pyval" where
  "safe_view r = obj
     [(''summary'', counts_value r),
      (''operations'', per_op_value (\<lambda>p. map safe_identity_value (sort (map fst (of_op p r)))))]"

definition normalized_report :: "((pystr \<times> pystr) \<times> pyval) per_op \<Rightarrow> pyval" where
  "normalized_report r = obj
     [(''changes'', per_op_value (\<lambda>p. sort_key (entry_texts [''kind'', ''name'']) (map snd (of_op p r)))),
      (''summary'', counts_value r), (''warnings'', PList []), (''errors'', PList [])]"

definition parse_sanitized_runtime_diff ::
    "wp3_deps \<Rightarrow> (pystr list \<Rightarrow> pystr list) \<Rightarrow> pystr \<Rightarrow> pystr list \<Rightarrow> (pyval \<times> pystr) res" where
  "parse_sanitized_runtime_diff deps set_order raw_output secrets =
     rbind (recast_if isa_ValueError (ValueError (lit ''third-party runtime diff did not return valid JSON''))
         (json_loads \<lparr>fcodec = w3_floats deps, hook = unique_object (ValueError (lit ''duplicate decK runtime diff report field'')),
             constants = (\<lambda>_. raiseV ''non-finite JSON number'')\<rparr> (w3_depth deps) raw_output)) (\<lambda>report.
     rbind (read_safe_changes (\<lambda>name. sanitize_output set_order name secrets) report) (\<lambda>r.
     rbind (canonical_sha256 deps (normalized_report r)) (\<lambda>digest. Inr (safe_view r, digest))))"

section \<open>Scopes\<close>

abbreviation not_additive :: "'a res" where
  "not_additive \<equiv> raiseV ''third-party runtime diff is not the reviewed additive 11/0/0 change; inspect with read-only diff; sync was not attempted''"

definition expected_kinds :: "pyval list" where
  "expected_kinds = concat (map (\<lambda>(k, n). replicate n (S k)) WP5_EXPECTED_CREATE_KINDS)"

definition create_kinds :: "pyval list \<Rightarrow> pyval list" where
  "create_kinds entries = map (\<lambda>e. dget (the_dict e) ''kind'') (filter is_dict entries)"

definition named_identity :: "pyval \<Rightarrow> (pyval \<times> pyval) res" where
  "named_identity v =
     rbind (ditem (the_dict v) ''kind'') (\<lambda>kind.
     rbind (ditem (the_dict v) ''name'') (\<lambda>name.
     if hashable kind \<and> hashable name then Inr (kind, name) else Inl TypeError))"

definition validate_wp5_additive_scope :: "pyval \<Rightarrow> unit res" where
  "validate_wp5_additive_scope operations =
     (let summary = dget (the_dict operations) ''summary''; changes = dget (the_dict operations) ''operations'' in
      if \<not> py_eq summary WP5_EXPECTED_SUMMARY \<or> \<not> (is_dict changes \<and> keys_are (the_dict changes) OPERATION_NAMES)
         \<or> py_true (dget (the_dict changes) ''updating'') \<or> py_true (dget (the_dict changes) ''deleting'')
      then not_additive
      else let entries = dget (the_dict changes) ''creating'' in
        if \<not> is_list entries then not_additive
        else let kinds = create_kinds (the_list entries) in
          if \<not> list_all hashable kinds then Inl TypeError
          else if mset kinds \<noteq> mset expected_kinds \<or> length (the_list entries) \<noteq> 11 then not_additive
          else rbind (mapr named_identity (the_list entries)) (\<lambda>identities.
            raise_if (set identities \<noteq> set (map (\<lambda>(k, n). (S k, S n)) WP5_EXPECTED_CREATE_IDENTITIES))
              (ValueError (lit ''third-party runtime diff create identities differ from the reviewed fixed 11-entity scope; sync was not attempted''))))"

definition scope_entry :: "pyval \<Rightarrow> bool" where
  "scope_entry v \<longleftrightarrow>
     (case v of PDict e \<Rightarrow> keys_are e [''kind'', ''name''] \<and> is_str (dget e ''kind'') \<and> is_str (dget e ''name'') | _ \<Rightarrow> False)"

definition entry_pair :: "pyval \<Rightarrow> pystr \<times> pystr" where
  "entry_pair v = (the_str (dget (the_dict v) ''kind''), the_str (dget (the_dict v) ''name''))"

definition check_scope_operation :: "pydict \<Rightarrow> (string \<times> string) per_op \<Rightarrow> unit \<Rightarrow> op \<Rightarrow> unit res" where
  "check_scope_operation actual expected u p =
     (let entries = dget actual (op_name p) in
      if \<not> is_list entries \<or> \<not> list_all scope_entry (the_list entries)
      then raiseV ''backend runtime operation identities are malformed''
      else let identities = map entry_pair (the_list entries) in
        raise_if (length identities \<noteq> length (of_op p expected) \<or> set identities \<noteq> set (lits (of_op p expected))
                  \<or> identities \<noteq> sort identities)
          (ValueError (lit ''backend runtime identities differ from the exact reviewed scope'')))"

definition validate_backend_scope :: "pyval \<Rightarrow> pyval \<Rightarrow> unit res" where
  "validate_backend_scope operations plan_type =
     (case map_of (map (\<lambda>(n, plan). (S n, plan)) BACKEND_PLANS) plan_type of
        None \<Rightarrow> raiseV ''backend runtime operation scope is invalid''
      | Some expected \<Rightarrow>
          if \<not> (is_dict operations \<and> keys_are (the_dict operations) [''summary'', ''operations''])
          then raiseV ''backend runtime operation scope is invalid''
          else let actual = dget (the_dict operations) ''operations''; summary = dget (the_dict operations) ''summary'' in
            if \<not> (is_dict actual \<and> keys_are (the_dict actual) OPERATION_NAMES)
            then raiseV ''backend runtime operation identities are malformed''
            else rbind (foldr_res (check_scope_operation (the_dict actual) expected) () OPS) (\<lambda>_.
              raise_if (\<not> is_dict summary \<or> \<not> py_eq summary (counts_value expected)
                        \<or> list_ex (\<lambda>(_, v). \<not> is_int v) (the_dict summary))
                (ValueError (lit ''backend runtime summary differs from the exact reviewed scope''))))"

section \<open>Receipts\<close>

text \<open>The fields of a receipt that must equal a digest of the current inputs.\<close>

definition input_digests ::
    "wp3_deps \<Rightarrow> ('z local_files_scheme) \<Rightarrow> string \<Rightarrow> pydict \<Rightarrow> pydict \<Rightarrow> (string \<times> pystr) list res" where
  "input_digests deps files state target role_values =
     rbind (canonical_sha256 deps (PDict target)) (\<lambda>target_sha256.
     rbind (file_sha256 deps files state) (\<lambda>state_sha256.
     rbind (canonical_sha256 deps (PDict role_values)) (\<lambda>role_inputs_sha256.
     Inr [(''target_sha256'', target_sha256), (''state_sha256'', state_sha256), (''role_inputs_sha256'', role_inputs_sha256)])))"

definition wp5_entry :: "pyval \<Rightarrow> bool" where
  "wp5_entry v \<longleftrightarrow>
     (case v of PDict e \<Rightarrow> keys_are e [''kind'', ''name'']
        \<and> dget e ''kind'' \<in> set (map S [''service'', ''route'', ''plugin'']) \<and> printable_name (dget e ''name'') | _ \<Rightarrow> False)"

definition check_wp5_operations :: "pydict \<Rightarrow> unit res" where
  "check_wp5_operations receipt =
     (let summary = dget receipt ''summary''; operations = dget receipt ''operations''; ops = the_dict operations;
          entries = the_list (dget ops ''creating'') in
      if \<not> (is_dict summary \<and> keys_are (the_dict summary) (OPERATION_NAMES @ [''total'']))
         \<or> list_ex (\<lambda>(_, v). \<not> is_int v) (the_dict summary) \<or> \<not> py_eq summary WP5_EXPECTED_SUMMARY
         \<or> \<not> (is_dict operations \<and> keys_are ops OPERATION_NAMES)
      then raiseV ''third-party runtime approval is not bound to the reviewed additive 11/0/0 change''
      else if list_ex (\<lambda>n. \<not> is_list (dget ops n)) OPERATION_NAMES
         \<or> py_true (dget ops ''updating'') \<or> py_true (dget ops ''deleting'') \<or> length entries \<noteq> 11
      then raiseV ''third-party runtime approval operation identities are malformed''
      else if \<not> list_all wp5_entry entries \<or> mset (create_kinds entries) \<noteq> mset expected_kinds
      then raiseV ''third-party runtime approval operation identities are malformed''
      else if \<not> py_eq operations
           (PDict (map (\<lambda>(k, v). (k, PList (sort_key (entry_texts [''kind'', ''name'']) (the_list v)))) ops))
      then raiseV ''third-party runtime approval operation identities are not canonical''
      else if \<not> distinct (map entry_pair entries)
      then raiseV ''third-party runtime approval contains duplicate operation identities''
      else raise_if (set (map entry_pair entries) \<noteq> set (lits WP5_EXPECTED_CREATE_IDENTITIES))
             (ValueError (lit ''third-party runtime approval identities differ from the fixed additive scope'')))"

definition read_wp5_runtime_approval ::
    "wp3_deps \<Rightarrow> ('z local_files_scheme) \<Rightarrow> pydict \<Rightarrow> string \<Rightarrow> pydict \<Rightarrow> pydict res" where
  "read_wp5_runtime_approval deps files target state role_values =
     (if \<not> safe_directories files
      then raiseV ''third-party runtime approval receipt directory is missing or unsafe''
      else rbind (recast_if isa_OSError (ValueError (lit ''third-party runtime approval receipt is missing or unsafe''))
             (recast_if (\<lambda>e. e = FileNotFoundError)
               (ValueError (lit ''third-party runtime sync requires a private Root review receipt''))
               (read_wp5_approval_bytes files WP5_APPROVAL_RELATIVE))) (\<lambda>raw_receipt.
        rbind (recast_if isa_ValueError (ValueError (lit ''third-party runtime approval receipt is malformed''))
             (receipt_value deps raw_receipt)) (\<lambda>v.
        let receipt = the_dict v in
        if \<not> (is_dict v \<and> keys_are receipt WP5_APPROVAL_FIELDS)
        then raiseV ''third-party runtime approval receipt fields are malformed''
        else if dget receipt ''schema_version'' \<noteq> PInt 1 \<or> \<not> py_eq (dget receipt ''scope'') (S ''third-party-runtime'')
           \<or> dget receipt ''approved'' \<noteq> PBool True
        then raiseV ''third-party runtime approval receipt scope is invalid''
        else rbind (input_digests deps files state target role_values) (\<lambda>digests.
          if list_ex (\<lambda>(field, expected). \<not> hex64 (dget receipt field) \<or> dget receipt field \<noteq> PStr expected) digests
          then raiseV ''third-party runtime approval does not match current target, state, or role inputs''
          else if \<not> hex64 (dget receipt ''diff_sha256'')
          then raiseV ''third-party runtime approval diff digest is malformed''
          else rbind (check_wp5_operations receipt) (\<lambda>_. Inr receipt)))))"

definition read_backend_runtime_approval ::
    "wp3_deps \<Rightarrow> ('z local_files_scheme) \<Rightarrow> pydict \<Rightarrow> string \<Rightarrow> pydict \<Rightarrow> pydict res" where
  "read_backend_runtime_approval deps files target state role_values =
     (if \<not> safe_directories files
      then raiseV ''backend runtime approval receipt directory is missing or unsafe''
      else rbind (recast_if isa_ValueError (ValueError (lit ''backend runtime approval receipt is missing, unsafe, or malformed''))
             (rbind (read_wp5_approval_bytes files BACKEND_APPROVAL_RELATIVE) (receipt_value deps))) (\<lambda>v.
        let receipt = the_dict v in
        if \<not> (is_dict v \<and> keys_are receipt (WP5_APPROVAL_FIELDS @ [''plan_type'']))
        then raiseV ''backend runtime approval receipt fields are malformed''
        else if dget receipt ''schema_version'' \<noteq> PInt 2 \<or> \<not> py_eq (dget receipt ''scope'') (S BACKEND_SCOPE)
           \<or> dget receipt ''approved'' \<noteq> PBool True
        then raiseV ''backend runtime approval receipt scope is invalid; old WP5 approval is not accepted''
        else rbind (input_digests deps files state target role_values) (\<lambda>digests.
          if list_ex (\<lambda>(field, expected). dget receipt field \<noteq> PStr expected) digests
          then raiseV ''backend runtime approval does not match current target, state, or role inputs''
          else if \<not> hex64 (dget receipt ''diff_sha256'')
          then raiseV ''backend runtime approval diff digest is malformed''
          else rbind (validate_backend_scope
                 (obj [(''summary'', dget receipt ''summary''), (''operations'', dget receipt ''operations'')])
                 (dget receipt ''plan_type'')) (\<lambda>_. Inr receipt))))"

section \<open>What the checks accept\<close>

text \<open>The entries of an operation, in canonical order, are exactly the reviewed ones.\<close>

definition exact_entries :: "pydict \<Rightarrow> (string \<times> string) per_op \<Rightarrow> op \<Rightarrow> bool" where
  "exact_entries actual plan p \<longleftrightarrow>
     (\<exists>entries. dget actual (op_name p) = PList entries \<and> list_all scope_entry entries
        \<and> map entry_pair entries = sort (lits (of_op p plan)))"

lemma inj_lits: "distinct xs \<Longrightarrow> distinct (lits xs)"
  by (auto simp: lits_def distinct_map intro!: inj_onI)

lemma plan_distinct: "(n, plan) \<in> set BACKEND_PLANS \<Longrightarrow> distinct (lits (of_op p plan))"
  by (rule inj_lits, cases p)
     (auto simp: BACKEND_PLANS_def of_op_def BACKEND_NEW_IDENTITIES_def BACKEND_UPDATED_IDENTITIES_def
        WP5_EXPECTED_CREATE_IDENTITIES_def BACKEND_RECOVERY_CREATE_IDENTITIES_def BACKEND_RECOVERY_UPDATE_IDENTITIES_def)

lemma sort_exact:
  assumes "distinct xs"
  shows "length ys = length xs \<and> set ys = set xs \<and> ys = sort ys \<longleftrightarrow> ys = sort (xs :: 'a :: linorder list)"
proof
  assume a: "length ys = length xs \<and> set ys = set xs \<and> ys = sort ys"
  then have "distinct ys" using assms by (metis card_distinct distinct_card)
  moreover have "sorted ys" using a by (metis sorted_sort)
  ultimately show "ys = sort xs" using a assms by (intro sorted_distinct_set_unique) auto
qed (auto simp: sorted_sort_id)

lemma check_scope_operation_iff:
  assumes "(n, plan) \<in> set BACKEND_PLANS"
  shows "check_scope_operation actual plan u p = Inr () \<longleftrightarrow> exact_entries actual plan p"
proof -
  have "length (of_op p plan) = length (lits (of_op p plan))" by (simp add: lits_def)
  then have "check_scope_operation actual plan u p = Inr () \<longleftrightarrow>
      is_list (dget actual (op_name p)) \<and> list_all scope_entry (the_list (dget actual (op_name p)))
      \<and> map entry_pair (the_list (dget actual (op_name p))) = sort (lits (of_op p plan))"
    using sort_exact [OF plan_distinct [OF assms], of "map entry_pair (the_list (dget actual (op_name p)))" p]
    by (auto simp: check_scope_operation_def Let_def raise_if_eq_Inr_iff)
  then show ?thesis by (auto simp: exact_entries_def is_list_iff)
qed

text \<open>
  C30: The scope check of the backend runtime accepts exactly the four reviewed plans: the operations
  are those of the named plan, entity by entity and in canonical order, with nothing added, left out
  or repeated, and the summary counts them.
\<close>

theorem backend_scope_exact:
  "validate_backend_scope operations plan_type = Inr () \<longleftrightarrow>
   (\<exists>n plan doc actual summary. (n, plan) \<in> set BACKEND_PLANS \<and> plan_type = S n \<and> operations = PDict doc
      \<and> keys_are doc [''summary'', ''operations''] \<and> dget doc ''operations'' = PDict actual \<and> dget doc ''summary'' = PDict summary
      \<and> keys_are actual OPERATION_NAMES
      \<and> exact_entries actual plan Creating \<and> exact_entries actual plan Updating \<and> exact_entries actual plan Deleting
      \<and> py_eq (PDict summary) (counts_value plan) \<and> list_all (\<lambda>(_, v). is_int v) summary)"
proof -
  have dist: "distinct (map fst (map (\<lambda>(n, plan). (S n, plan)) BACKEND_PLANS))" by (simp add: BACKEND_PLANS_def)
  have found: "map_of (map (\<lambda>(n, plan). (S n, plan)) BACKEND_PLANS) plan_type = Some plan
      \<longleftrightarrow> (\<exists>n. (n, plan) \<in> set BACKEND_PLANS \<and> plan_type = S n)" for plan
    by (auto simp: map_of_eq_Some_iff [OF dist])
  have ops: "foldr_res (check_scope_operation actual plan) () OPS = Inr () \<longleftrightarrow>
      exact_entries actual plan Creating \<and> exact_entries actual plan Updating \<and> exact_entries actual plan Deleting"
    if "(n, plan) \<in> set BACKEND_PLANS" for n plan actual
    by (simp add: OPS_def rbind_eq_Inr_iff check_scope_operation_iff [OF that])
  have ints: "\<not> list_ex (\<lambda>(_, v). \<not> is_int v) d \<longleftrightarrow> list_all (\<lambda>(_, v). is_int v) d" for d :: pydict
    by (auto simp: list_ex_iff list_all_iff)
  have "validate_backend_scope operations plan_type = Inr () \<longleftrightarrow>
    (\<exists>plan. map_of (map (\<lambda>(n, plan). (S n, plan)) BACKEND_PLANS) plan_type = Some plan
      \<and> is_dict operations \<and> keys_are (the_dict operations) [''summary'', ''operations'']
      \<and> is_dict (dget (the_dict operations) ''operations'')
      \<and> keys_are (the_dict (dget (the_dict operations) ''operations'')) OPERATION_NAMES
      \<and> foldr_res (check_scope_operation (the_dict (dget (the_dict operations) ''operations'')) plan) () OPS = Inr ()
      \<and> is_dict (dget (the_dict operations) ''summary'') \<and> py_eq (dget (the_dict operations) ''summary'') (counts_value plan)
      \<and> list_all (\<lambda>(_, v). is_int v) (the_dict (dget (the_dict operations) ''summary'')))"
    by (auto simp: validate_backend_scope_def Let_def rbind_eq_Inr_iff raise_if_eq_Inr_iff ints simp del: py_eq.simps
        split: option.splits if_splits)
  then show ?thesis unfolding found is_dict_iff using ops by (auto simp del: py_eq.simps)
qed

text \<open>What an accepted backend receipt binds.\<close>

lemma read_backend_runtime_approval_bound:
  assumes "read_backend_runtime_approval deps files target state role_values = Inr receipt"
  shows "dget receipt ''approved'' = PBool True \<and> dget receipt ''scope'' = S BACKEND_SCOPE
    \<and> (\<exists>d. canonical_sha256 deps (PDict target) = Inr d \<and> dget receipt ''target_sha256'' = PStr d)
    \<and> (\<exists>d. file_sha256 deps files state = Inr d \<and> dget receipt ''state_sha256'' = PStr d)
    \<and> (\<exists>d. canonical_sha256 deps (PDict role_values) = Inr d \<and> dget receipt ''role_inputs_sha256'' = PStr d)
    \<and> (\<exists>raw. private_file files BACKEND_APPROVAL_RELATIVE MAX_RECEIPT_BYTES raw \<and> receipt_value deps raw = Inr (PDict receipt))"
proof -
  obtain raw v where parts: "read_wp5_approval_bytes files BACKEND_APPROVAL_RELATIVE = Inr raw" "receipt_value deps raw = Inr v"
    "is_dict v" "receipt = the_dict v"
    and scope: "dget receipt ''approved'' = PBool True" "dget receipt ''scope'' = S BACKEND_SCOPE"
    and digests: "\<exists>ds. input_digests deps files state target role_values = Inr ds
      \<and> \<not> list_ex (\<lambda>(field, expected). dget receipt field \<noteq> PStr expected) ds"
    using assms by (auto simp: read_backend_runtime_approval_def res_simps Let_def split: if_splits)
  have "v = PDict receipt" using parts by (cases v) auto
  then show ?thesis
    using scope digests parts(2) read_wp5_approval_bytes_private [OF parts(1)]
    by (auto simp: input_digests_def rbind_eq_Inr_iff)
qed

end
