(* ===== verification/Schema_Sync.thy ===== *)
theory Schema_Sync
  imports Konnect_Api "HOL-Library.List_Lexorder"
begin

text \<open>
  The inventory of custom plugin schemas of a control plane: the pagination loop
  \<open>request_schema_pages\<close> of \<open>src/scripts/wp1_target.py\<close>, the validation of recorded pages
  \<open>collect_schema_pages\<close> and the drift check \<open>compare_schema_hashes\<close> of \<open>src/scripts/wp1.py\<close>, and
  the commands \<open>check_schemas\<close> and \<open>sync_schemas\<close>.
\<close>

section \<open>Requesting pages\<close>

record pager =
  pg_cursor :: "pystr option"
  pg_pages :: "pyval list"
  pg_seen :: "pystr list"
  pg_count :: "int option"
  pg_observed :: int

definition page_record :: "pyval list \<Rightarrow> pydict \<Rightarrow> pystr option \<Rightarrow> pyval" where
  "page_record items info cursor =
     PDict [(K ''items'', PList items), (K ''page'', PDict info),
            (K ''request_cursor'', case cursor of None \<Rightarrow> PNone | Some c \<Rightarrow> PStr c)]"

definition empty_inventory :: pyval where
  "empty_inventory =
     page_record [] [(K ''total_count'', PInt 0), (K ''has_next_page'', PBool False), (K ''next_cursor'', PNone)] None"

fun bad_total :: "pyval \<Rightarrow> int option \<Rightarrow> bool" where
  "bad_total (PInt t) count = (t < 0 \<or> (count \<noteq> None \<and> count \<noteq> Some t))"
| "bad_total _ count = True"

definition blank_cursor :: "pyval \<Rightarrow> bool" where
  "blank_cursor v \<longleftrightarrow> (case v of PStr c \<Rightarrow> py_strip c = [] | _ \<Rightarrow> True)"

fun the_int :: "pyval \<Rightarrow> int" where
  "the_int (PInt i) = i"
| "the_int _ = 0"

text \<open>
  The body of the loop on one response: \<open>Inl pages\<close> to return, \<open>Inr st\<close> to go on with the next
  page.
\<close>

definition page_step :: "pager \<Rightarrow> int \<times> pyval \<Rightarrow> (pyval list + pager) res" where
  "page_step st response =
     (case response of (status, page) \<Rightarrow>
      if status \<noteq> 200 then Inl (ValueError (lit ''schema list request failed with HTTP '' @ show_int status))
      else if pg_pages st = [] \<and> pg_cursor st = None \<and> py_eq page (PDict []) then Inr (Inl [empty_inventory])
      else if \<not> is_dict page then raiseV ''schema list response is malformed''
      else let items = dget (the_dict page) ''items''; page_info = dget (the_dict page) ''page'' in
        if \<not> is_list items \<or> \<not> is_dict page_info
        then raiseV ''schema list response is missing items or pagination metadata''
        else let info = the_dict page_info; total = dget info ''total_count'';
                 has_next = dget info ''has_next_page''; next_cursor = dget info ''next_cursor'' in
          if bad_total total (pg_count st)
          then raiseV ''schema list total_count is missing or changed during pagination''
          else if \<not> is_bool has_next then raiseV ''schema list has_next_page is malformed''
          else if has_next = PBool True \<and> blank_cursor next_cursor
          then raiseV ''schema list next_cursor is missing or malformed''
          else let pages = pg_pages st @ [page_record (the_list items) info (pg_cursor st)];
                   observed = pg_observed st + int (length (the_list items)) in
            if observed > the_int total then raiseV ''schema list returned more items than page.total_count''
            else if has_next = PBool False
            then (if observed \<noteq> the_int total then raiseV ''schema pagination ended before page.total_count''
                  else Inr (Inl pages))
            else if observed \<ge> the_int total \<or> the_list items = []
            then raiseV ''schema pagination made no progress''
            else if the_str next_cursor \<in> set (pg_seen st) \<or> Some (the_str next_cursor) = pg_cursor st
            then raiseV ''schema page cursor did not advance''
            else Inr (Inr \<lparr>pg_cursor = Some (the_str next_cursor), pg_pages = pages,
                          pg_seen = the_str next_cursor # pg_seen st, pg_count = Some (the_int total),
                          pg_observed = observed\<rparr>))"

definition page_params :: "pystr option \<Rightarrow> (string \<times> pystr) list" where
  "page_params cursor =
     [(''page[size]'', lit ''100'')]
     @ (case cursor of None \<Rightarrow> [] | Some c \<Rightarrow> if c = [] then [] else [(''page[after]'', c)])"

text \<open>The loop over \<open>range(n)\<close>; the source runs it with \<open>n = 1000\<close>.\<close>

fun page_loop :: "konnect \<Rightarrow> pystr \<Rightarrow> nat \<Rightarrow> pager \<Rightarrow> pyval list act" where
  "page_loop k url 0 st = pure (raiseV ''schema pagination exceeded its safety limit'')"
| "page_loop k url (Suc n) st =
     abind (request_json k (get_request url (page_params (pg_cursor st)))) (\<lambda>response.
     abind (pure (page_step st response)) (\<lambda>outcome.
     case outcome of Inl pages \<Rightarrow> pure (Inr pages) | Inr st' \<Rightarrow> page_loop k url n st'))"

definition start_pager :: pager where
  "start_pager = \<lparr>pg_cursor = None, pg_pages = [], pg_seen = [], pg_count = None, pg_observed = 0\<rparr>"

definition request_schema_pages :: "konnect \<Rightarrow> pystr \<Rightarrow> pyval list act" where
  "request_schema_pages k url = page_loop k url 1000 start_pager"

section \<open>Validating recorded pages\<close>

type_synonym inventory = "(pystr \<times> pystr) list"

definition collect_item :: "inventory \<Rightarrow> pyval \<Rightarrow> inventory res" where
  "collect_item found item =
     (if \<not> is_dict item then raiseV ''schema list item is malformed''
      else let name = dget (the_dict item) ''name''; source = dget (the_dict item) ''lua_schema'' in
        if \<not> nonempty_str name \<or> \<not> nonempty_str source
        then raiseV ''schema list item is missing name or original lua_schema''
        else if map_of found (the_str name) \<noteq> None
        then Inl (ValueError (lit ''duplicate schema entry: '' @ the_str name))
        else Inr (found @ [(the_str name, the_str source)]))"

record collected =
  cl_found :: inventory
  cl_total :: "int option"
  cl_cursors :: "pystr list"

text \<open>One page; \<open>last\<close> says whether it is the last one recorded.\<close>

definition collect_page :: "bool \<Rightarrow> collected \<Rightarrow> pyval \<Rightarrow> collected res" where
  "collect_page is_last st page =
     (if \<not> is_dict page \<or> \<not> is_list (dget (the_dict page) ''items'')
      then raiseV ''schema page is missing items''
      else let p = the_dict page; items = the_list (dget p ''items'');
               meta = the_dict (dget p ''page'');
               total = (if is_dict (dget p ''page'') then dget meta ''total_count'' else PNone) in
        if \<not> is_int total \<or> the_int total < 0 then raiseV ''schema page is missing page.total_count''
        else let has_next = dget meta ''has_next_page''; cursor = dget meta ''next_cursor'' in
          if \<not> is_bool has_next then raiseV ''schema page has_next_page is malformed''
          else if has_next = PBool True \<and> blank_cursor cursor
          then raiseV ''schema page next_cursor is missing or malformed''
          else if cl_total st \<noteq> None \<and> cl_total st \<noteq> Some (the_int total)
          then raiseV ''schema page total_count changed during pagination''
          else rbind (foldr_res collect_item (cl_found st) items) (\<lambda>found.
            if has_next = PBool True \<and> is_last then raiseV ''schema pagination is incomplete''
            else if has_next = PBool False \<and> \<not> is_last
            then raiseV ''schema pages continue after total_count was reached''
            else if has_next = PBool True \<and> int (length found) \<ge> the_int total
            then raiseV ''schema pagination continues past page.total_count''
            else if has_next = PBool True \<and> the_str cursor \<in> set (cl_cursors st)
            then raiseV ''schema pagination cursor repeated''
            else if has_next = PBool True \<and> py_eq (dget p ''request_cursor'') cursor
            then raiseV ''schema page cursor did not advance''
            else if has_next = PBool True \<and> items = [] then raiseV ''schema pagination made no progress''
            else Inr \<lparr>cl_found = found, cl_total = Some (the_int total),
                      cl_cursors = (if has_next = PBool True then the_str cursor # cl_cursors st
                                    else cl_cursors st)\<rparr>))"

fun collect_pages :: "collected \<Rightarrow> pyval list \<Rightarrow> collected res" where
  "collect_pages st [] = Inr st"
| "collect_pages st (p # ps) = rbind (collect_page (ps = []) st p) (\<lambda>st'. collect_pages st' ps)"

definition collect_schema_pages :: "pyval list \<Rightarrow> pystr list \<Rightarrow> inventory res" where
  "collect_schema_pages pages expected_names =
     rbind (collect_pages \<lparr>cl_found = [], cl_total = None, cl_cursors = []\<rparr> pages) (\<lambda>st.
     if cl_total st \<noteq> Some (int (length (cl_found st)))
     then raiseV ''schema pagination item count does not match page.total_count''
     else let missing = filter (\<lambda>n. map_of (cl_found st) n = None) expected_names in
       if missing \<noteq> []
       then Inl (ValueError (lit ''missing schema: '' @ join (lit '', '') (sort (remdups missing))))
       else Inr (map (\<lambda>n. (n, the (map_of (cl_found st) n))) expected_names))"

section \<open>Drift\<close>

definition compare_entry ::
    "(bytes \<Rightarrow> bytes) \<Rightarrow> inventory \<Rightarrow> inventory \<Rightarrow> pystr \<Rightarrow> (pystr \<times> pystr \<times> pystr) res" where
  "compare_entry sha expected observed name =
     rbind (schema_hash sha (PStr (the (map_of expected name)))) (\<lambda>want.
     rbind (schema_hash sha (PStr (the (map_of observed name)))) (\<lambda>got.
     if want \<noteq> got
     then Inl (ValueError (lit ''schema drift for '' @ name @ lit '': expected '' @ want
                           @ lit '', observed '' @ got))
     else Inr (name, want, got)))"

definition compare_schema_hashes ::
    "(bytes \<Rightarrow> bytes) \<Rightarrow> inventory \<Rightarrow> inventory \<Rightarrow> (pystr \<times> pystr \<times> pystr) list res" where
  "compare_schema_hashes sha expected observed =
     (if set (map fst expected) \<noteq> set (map fst observed)
      then raiseV ''schema inventory is incomplete or contains unexpected entries''
      else mapr (compare_entry sha expected observed) (sort (map fst expected)))"

section \<open>The commands\<close>

definition schemas_url :: "pystr \<Rightarrow> pydict \<Rightarrow> pystr" where
  "schemas_url base target =
     base @ lit ''/v2/control-planes/'' @ the_str (dget target ''control_plane_id'')
     @ lit ''/core-entities/plugin-schemas''"

definition check_schemas ::
    "konnect \<Rightarrow> (bytes \<Rightarrow> bytes) \<Rightarrow> inventory res \<Rightarrow> pystr \<Rightarrow> pystr \<Rightarrow> pydict \<Rightarrow> pystr list act" where
  "check_schemas k sha plugin_files gateway base target =
     (if gateway = lit ''api''
      then pure (Inr [lit ''api foundation has no custom plugin entities; schema inventory check skipped''])
      else abind (pure plugin_files) (\<lambda>expected.
        abind (request_schema_pages k (schemas_url base target)) (\<lambda>pages.
        abind (pure (collect_schema_pages pages (map fst expected))) (\<lambda>observed.
        abind (pure (compare_schema_hashes sha expected observed)) (\<lambda>hashes.
        pure (Inr (map (\<lambda>(name, want, got). name @ lit '': CP '' @ the_str (dget target ''control_plane_id'')
                          @ lit '' schema hash matches '' @ want) hashes)))))))"

definition page_items :: "pyval \<Rightarrow> pyval list" where
  "page_items page = the_list (dget (the_dict page) ''items'')"

definition inventory_item :: "inventory \<Rightarrow> pyval \<Rightarrow> inventory res" where
  "inventory_item present item =
     (if \<not> is_dict item then raiseV ''schema inventory contains a malformed item''
      else let name = dget (the_dict item) ''name''; source = dget (the_dict item) ''lua_schema'' in
        if \<not> nonempty_str name \<or> \<not> nonempty_str source
        then raiseV ''schema inventory item is missing a valid name or lua_schema''
        else if map_of present (the_str name) \<noteq> None then raiseV ''duplicate schema name in CP inventory''
        else Inr (present @ [(the_str name, the_str source)]))"

text \<open>The names to write: missing ones and those whose hash differs.\<close>

fun changed_names :: "(bytes \<Rightarrow> bytes) \<Rightarrow> inventory \<Rightarrow> inventory \<Rightarrow> pystr list res" where
  "changed_names sha present [] = Inr []"
| "changed_names sha present ((name, source) # payload) =
     rbind (case map_of present name of
              None \<Rightarrow> Inr True
            | Some old \<Rightarrow> rbind (schema_hash sha (PStr source)) (\<lambda>a.
                           rbind (schema_hash sha (PStr old)) (\<lambda>b. Inr (a \<noteq> b)))) (\<lambda>differs.
     rbind (changed_names sha present payload) (\<lambda>rest.
     Inr (if differs then name # rest else rest)))"

definition write_request :: "pystr \<Rightarrow> inventory \<Rightarrow> inventory \<Rightarrow> pystr \<Rightarrow> api_request" where
  "write_request url present payload name =
     (let body = Some (PDict [(K ''lua_schema'', PStr (the (map_of payload name)))])
      in if map_of present name \<noteq> None
         then \<lparr>rq_method = PUT, rq_url = url @ lit ''/'' @ name, rq_query = [], rq_body = body\<rparr>
         else \<lparr>rq_method = POST, rq_url = url, rq_query = [], rq_body = body\<rparr>)"

definition sync_schemas ::
    "konnect \<Rightarrow> (bytes \<Rightarrow> bytes) \<Rightarrow> inventory res \<Rightarrow> pystr \<Rightarrow> pydict \<Rightarrow> pystr act" where
  "sync_schemas k sha plugin_files base target =
     abind (pure plugin_files) (\<lambda>expected.
     let url = schemas_url base target in
     abind (request_schema_pages k url) (\<lambda>pages.
     abind (pure (foldr_res inventory_item [] (concat (map page_items pages)))) (\<lambda>present.
     if \<not> list_all (\<lambda>(name, source). name \<noteq> [] \<and> source \<noteq> []) present
     then pure (raiseV ''schema inventory contains malformed source'')
     else abind (pure (changed_names sha present expected)) (\<lambda>changed.
       abind (each (\<lambda>name. abind (request_json k (write_request url present expected name))
                              (\<lambda>_. pure (Inr ()))) changed) (\<lambda>_.
       pure (Inr (lit ''Synchronized custom schema names: ''
                  @ (if changed = [] then lit ''already current'' else join (lit '', '') changed))))))))"

section \<open>Complete page sequences\<close>

text \<open>
  What the pagination loop guarantees of the pages it returns, and what the validation of recorded
  pages needs: constant total, fresh cursors, progress on every page, and exactly the announced
  number of items at the end.
\<close>

fun complete_pages :: "int \<Rightarrow> pystr list \<Rightarrow> pystr option \<Rightarrow> int \<Rightarrow> pyval list \<Rightarrow> bool" where
  "complete_pages tot seen cursor observed [] = False"
| "complete_pages tot seen cursor observed (page # pages) =
     (\<exists>items info. page = page_record items info cursor
        \<and> dget info ''total_count'' = PInt tot \<and> 0 \<le> tot
        \<and> (dget info ''has_next_page'' = PBool False \<and> pages = [] \<and> observed + int (length items) = tot
           \<or> (\<exists>c. dget info ''has_next_page'' = PBool True \<and> dget info ''next_cursor'' = PStr c
               \<and> py_strip c \<noteq> [] \<and> c \<notin> set seen \<and> Some c \<noteq> cursor \<and> items \<noteq> []
               \<and> observed + int (length items) < tot
               \<and> complete_pages tot (c # seen) (Some c) (observed + int (length items)) pages)))"

lemma page_record_fields [simp]:
  "is_dict (page_record items info cursor)"
  "the_dict (page_record items info cursor)
   = [(K ''items'', PList items), (K ''page'', PDict info),
      (K ''request_cursor'', case cursor of None \<Rightarrow> PNone | Some c \<Rightarrow> PStr c)]"
  by (simp_all add: page_record_def)

lemma blank_cursor_iff: "\<not> blank_cursor v \<longleftrightarrow> (\<exists>c. v = PStr c \<and> py_strip c \<noteq> [])"
  by (cases v) (auto simp: blank_cursor_def)

lemma bad_total_iff: "\<not> bad_total v count \<longleftrightarrow> (\<exists>t. v = PInt t \<and> 0 \<le> t \<and> (count = None \<or> count = Some t))"
  by (cases v) auto

text \<open>The two ways a step succeeds on a populated response.\<close>

lemma page_step_Inr:
  assumes "page_step st (status, page) = Inr outcome"
    and "\<not> (pg_pages st = [] \<and> pg_cursor st = None \<and> py_eq page (PDict []))"
  obtains items info total where "0 \<le> total" "dget info ''total_count'' = PInt total"
    "pg_count st = None \<or> pg_count st = Some total"
    "dget info ''has_next_page'' = PBool False" "pg_observed st + int (length items) = total"
    "outcome = Inl (pg_pages st @ [page_record items info (pg_cursor st)])"
  | items info total c where "0 \<le> total" "dget info ''total_count'' = PInt total"
    "pg_count st = None \<or> pg_count st = Some total"
    "dget info ''has_next_page'' = PBool True" "dget info ''next_cursor'' = PStr c" "py_strip c \<noteq> []"
    "c \<notin> set (pg_seen st)" "Some c \<noteq> pg_cursor st" "items \<noteq> []"
    "pg_observed st + int (length items) < total"
    "outcome = Inr \<lparr>pg_cursor = Some c, pg_pages = pg_pages st @ [page_record items info (pg_cursor st)],
        pg_seen = c # pg_seen st, pg_count = Some total, pg_observed = pg_observed st + int (length items)\<rparr>"
proof -
  obtain d where d: "page = PDict d" using assms by (cases page) (auto simp: page_step_def split: if_splits)
  obtain items where items: "dget d ''items'' = PList items"
    using assms d by (cases "dget d ''items''") (auto simp: page_step_def Let_def split: if_splits)
  obtain info where info: "dget d ''page'' = PDict info"
    using assms d items by (cases "dget d ''page''") (auto simp: page_step_def Let_def split: if_splits)
  obtain total where total: "dget info ''total_count'' = PInt total" "0 \<le> total"
    "pg_count st = None \<or> pg_count st = Some total" "\<not> bad_total (PInt total) (pg_count st)"
    using assms d items info bad_total_iff [of "dget info ''total_count''" "pg_count st"]
    by (auto simp: page_step_def Let_def split: if_splits)
  obtain b where b: "dget info ''has_next_page'' = PBool b"
    using assms d items info total
    by (cases "dget info ''has_next_page''") (auto simp: page_step_def Let_def split: if_splits)
  show thesis
  proof (cases b)
    case False
    then show thesis using assms d items info total b that(1)
      by (auto simp: page_step_def Let_def split: if_splits)
  next
    case True
    then obtain c where "dget info ''next_cursor'' = PStr c" "py_strip c \<noteq> []"
      using assms d items info total b blank_cursor_iff [of "dget info ''next_cursor''"]
      by (auto simp: page_step_def Let_def split: if_splits)
    then show thesis using assms d items info total b True that(2) [of total info c items] blank_cursor_iff
      by (auto simp: page_step_def Let_def split: if_splits)
  qed
qed

lemma page_loop_complete:
  "page_loop k url n st h = (Inr pages, h') \<Longrightarrow> pg_cursor st \<noteq> None \<Longrightarrow> pg_count st = Some tot \<Longrightarrow>
   \<exists>ps new. pages = pg_pages st @ ps \<and> complete_pages tot (pg_seen st) (pg_cursor st) (pg_observed st) ps
     \<and> h' = h @ new \<and> length new = length ps \<and> length new \<le> n
     \<and> list_all (\<lambda>r. rq_method r = GET \<and> rq_url r = url) new"
proof (induction n arbitrary: st h)
  case 0
  then show ?case by (simp add: pure_def)
next
  case (Suc n)
  let ?rq = "get_request url (page_params (pg_cursor st))"
  from Suc.prems(1) obtain response h1 outcome where
    req: "request_json k ?rq h = (Inr response, h1)"
    and step: "page_step st response = Inr outcome"
    and rest: "(case outcome of Inl pages \<Rightarrow> pure (Inr pages) | Inr st' \<Rightarrow> page_loop k url n st') h1
      = (Inr pages, h')"
    by (auto simp: abind_Inr_iff)
  have h1: "h1 = h @ [?rq]" using request_json_Inr [OF req] .
  have rq: "rq_method ?rq = GET \<and> rq_url ?rq = url" by (simp add: get_request_def)
  obtain status page where response: "response = (status, page)" by (cases response)
  have "\<not> (pg_pages st = [] \<and> pg_cursor st = None \<and> py_eq page (PDict []))" using Suc.prems(2) by simp
  from page_step_Inr [OF step [unfolded response] this] show ?case
  proof cases
    case (1 items info total)
    then have "pages = pg_pages st @ [page_record items info (pg_cursor st)] \<and> h' = h1"
      using rest by auto
    moreover have "complete_pages tot (pg_seen st) (pg_cursor st) (pg_observed st)
        [page_record items info (pg_cursor st)]"
      using 1 Suc.prems(3) by auto
    ultimately show ?thesis using h1 rq by auto
  next
    case (2 items info total c)
    let ?st = "\<lparr>pg_cursor = Some c, pg_pages = pg_pages st @ [page_record items info (pg_cursor st)],
        pg_seen = c # pg_seen st, pg_count = Some total, pg_observed = pg_observed st + int (length items)\<rparr>"
    have total: "total = tot" using 2(3) Suc.prems(3) by simp
    have "page_loop k url n ?st h1 = (Inr pages, h')" using rest 2 by simp
    from Suc.IH [OF this] total obtain ps new where
      ps: "pages = pg_pages ?st @ ps" "complete_pages tot (pg_seen ?st) (pg_cursor ?st) (pg_observed ?st) ps"
      and new: "h' = h1 @ new" "length new = length ps" "length new \<le> n"
        "list_all (\<lambda>r. rq_method r = GET \<and> rq_url r = url) new"
      by auto
    have "complete_pages tot (pg_seen st) (pg_cursor st) (pg_observed st)
        (page_record items info (pg_cursor st) # ps)"
      using 2 total ps(2) by auto
    then show ?thesis
      using ps(1) new h1 rq
      by (intro exI [of _ "page_record items info (pg_cursor st) # ps"] exI [of _ "?rq # new"]) simp
  qed
qed

lemma complete_pages_count:
  "complete_pages tot seen cursor observed ps \<Longrightarrow>
   observed + int (length (concat (map page_items ps))) = tot"
proof (induction ps arbitrary: seen cursor observed)
  case (Cons page ps)
  then obtain items info where page: "page = page_record items info cursor" by auto
  have items: "page_items page = items" by (simp add: page page_items_def dict_simps)
  from Cons.prems have "observed + int (length items) = tot \<and> ps = []
      \<or> (\<exists>c. complete_pages tot (c # seen) (Some c) (observed + int (length items)) ps)"
    unfolding page by (auto simp: page_record_def)
  then show ?case
  proof (elim disjE exE conjE)
    fix c
    assume "complete_pages tot (c # seen) (Some c) (observed + int (length items)) ps"
    from Cons.IH [OF this] show ?case using items by simp
  qed (use items in simp)
qed simp

lemma request_schema_pages_run:
  assumes "request_schema_pages k url h = (Inr pages, h')"
  shows "\<exists>tot new. complete_pages tot [] None 0 pages
    \<and> h' = h @ new \<and> length new = length pages \<and> length new \<le> 1000
    \<and> list_all (\<lambda>r. rq_method r = GET \<and> rq_url r = url) new"
proof -
  have thousand: "(1000 :: nat) = Suc 999" by simp
  let ?rq = "get_request url (page_params None)"
  from assms obtain status page h1 outcome where
    req: "request_json k ?rq h = (Inr (status, page), h1)"
    and step: "page_step start_pager (status, page) = Inr outcome"
    and rest: "(case outcome of Inl pages \<Rightarrow> pure (Inr pages) | Inr st' \<Rightarrow> page_loop k url 999 st') h1
      = (Inr pages, h')"
    unfolding request_schema_pages_def thousand page_loop.simps
    by (auto simp: abind_Inr_iff start_pager_def)
  have h1: "h1 = h @ [?rq]" using request_json_Inr [OF req] .
  have rq: "rq_method ?rq = GET \<and> rq_url ?rq = url" by (simp add: get_request_def)
  show ?thesis
  proof (cases "py_eq page (PDict [])")
    case True
    then have "pages = [empty_inventory]" "h' = h1"
      using step rest by (auto simp: page_step_def start_pager_def split: if_splits)
    moreover have "complete_pages 0 [] None 0 [empty_inventory]"
      by (auto simp: empty_inventory_def dict_simps)
    ultimately show ?thesis using h1 rq by (intro exI [of _ 0] exI [of _ "[?rq]"]) simp
  next
    case False
    then have "\<not> (pg_pages start_pager = [] \<and> pg_cursor start_pager = None \<and> py_eq page (PDict []))" by simp
    from page_step_Inr [OF step this] show ?thesis
    proof cases
      case (1 items info total)
      then have "pages = [page_record items info None] \<and> h' = h1" using rest by (auto simp: start_pager_def)
      moreover have "complete_pages total [] None 0 [page_record items info None]"
        using 1 by (auto simp: start_pager_def)
      ultimately show ?thesis using h1 rq by (intro exI [of _ total] exI [of _ "[?rq]"]) simp
    next
      case (2 items info total c)
      let ?st = "\<lparr>pg_cursor = Some c, pg_pages = [page_record items info None],
        pg_seen = [c], pg_count = Some total, pg_observed = int (length items)\<rparr>"
      have "page_loop k url 999 ?st h1 = (Inr pages, h')" using rest 2 by (simp add: start_pager_def)
      from page_loop_complete [OF this] obtain ps new where
        ps: "pages = [page_record items info None] @ ps" "complete_pages total [c] (Some c) (int (length items)) ps"
        and new: "h' = h1 @ new" "length new = length ps" "length new \<le> 999"
          "list_all (\<lambda>r. rq_method r = GET \<and> rq_url r = url) new"
        by auto
      have "complete_pages total [] None 0 (page_record items info None # ps)"
        using 2 ps(2) by (auto simp: start_pager_def)
      then show ?thesis
        using ps(1) new h1 rq by (intro exI [of _ total] exI [of _ "?rq # new"]) simp
    qed
  qed
qed

text \<open>
  C14: The pagination loop is bounded and complete: when it returns, it has sent between one and a
  thousand requests, all of them reads of the collection and one per page; the pages carry fresh
  cursors and one constant total, and together hold exactly that number of items.
\<close>

theorem request_schema_pages_complete:
  assumes "request_schema_pages k url h = (Inr pages, h')"
  shows "\<exists>tot new. complete_pages tot [] None 0 pages \<and> int (length (concat (map page_items pages))) = tot
    \<and> h' = h @ new \<and> length new = length pages \<and> length new \<le> 1000
    \<and> list_all (\<lambda>r. rq_method r = GET \<and> rq_url r = url) new"
  using request_schema_pages_run [OF assms] complete_pages_count [of _ "[]" None 0 pages] by auto

section \<open>Reading the items of an inventory\<close>

definition item_name :: "pyval \<Rightarrow> pystr" where
  "item_name item = the_str (dget (the_dict item) ''name'')"

definition item_entry :: "pyval \<Rightarrow> pystr \<times> pystr" where
  "item_entry item = (item_name item, the_str (dget (the_dict item) ''lua_schema''))"

definition well_formed :: "pyval \<Rightarrow> bool" where
  "well_formed item \<longleftrightarrow>
     is_dict item \<and> nonempty_str (dget (the_dict item) ''name'') \<and> nonempty_str (dget (the_dict item) ''lua_schema'')"

text \<open>
  The contract both readers of an inventory follow: an item is added when it is well formed and its
  name is new; nothing else succeeds.
\<close>

locale item_reader =
  fixes read :: "inventory \<Rightarrow> pyval \<Rightarrow> inventory res"
  assumes read_iff: "read found item = Inr r \<longleftrightarrow>
    well_formed item \<and> map_of found (item_name item) = None \<and> r = found @ [item_entry item]"
begin

lemma read_all_iff:
  "foldr_res read found items = Inr r \<longleftrightarrow>
     list_all well_formed items \<and> distinct (map item_name items)
     \<and> set (map fst found) \<inter> set (map item_name items) = {} \<and> r = found @ map item_entry items"
proof (induction items arbitrary: found)
  case Nil
  then show ?case by auto
next
  case (Cons item items)
  have fst: "fst (item_entry item) = item_name item" by (simp add: item_entry_def)
  show ?case
    unfolding foldr_res.simps rbind_eq_Inr_iff read_iff
    using Cons [of "found @ [item_entry item]"] fst by (auto simp: map_of_eq_None_iff)
qed

lemma read_all_length: "foldr_res read found items = Inr r \<Longrightarrow> length r = length found + length items"
  by (simp add: read_all_iff)

end

interpretation collect: item_reader collect_item
  by unfold_locales
    (auto simp: collect_item_def well_formed_def item_entry_def item_name_def Let_def)

interpretation inventory: item_reader inventory_item
  by unfold_locales
    (auto simp: inventory_item_def well_formed_def item_entry_def item_name_def Let_def)

section \<open>The two pagination checks agree\<close>

lemma collect_complete_page:
  assumes "complete_pages tot seen cursor observed (page # ps)"
    and "cl_total st = None \<or> cl_total st = Some tot" "cl_cursors st = seen"
    and "int (length (cl_found st)) = observed"
    and read: "foldr_res collect_item (cl_found st) (page_items page) = Inr found"
  shows "\<exists>seen'. collect_page (ps = []) st page = Inr \<lparr>cl_found = found, cl_total = Some tot, cl_cursors = seen'\<rparr>
    \<and> (ps \<noteq> [] \<longrightarrow> (\<exists>c. seen' = c # seen
         \<and> complete_pages tot seen' (Some c) (observed + int (length (page_items page))) ps))"
proof -
  obtain items info where page: "page = page_record items info cursor"
    and tot: "dget info ''total_count'' = PInt tot" "0 \<le> tot"
    and cases: "dget info ''has_next_page'' = PBool False \<and> ps = [] \<and> observed + int (length items) = tot
      \<or> (\<exists>c. dget info ''has_next_page'' = PBool True \<and> dget info ''next_cursor'' = PStr c
               \<and> py_strip c \<noteq> [] \<and> c \<notin> set seen \<and> Some c \<noteq> cursor \<and> items \<noteq> []
               \<and> observed + int (length items) < tot
               \<and> complete_pages tot (c # seen) (Some c) (observed + int (length items)) ps)"
    using assms(1) unfolding complete_pages.simps by blast
  have items: "page_items page = items" by (simp add: page page_items_def dict_simps)
  have len: "int (length found) = observed + int (length items)"
    using collect.read_all_length [OF read] assms(4) items by simp
  have cursor: "\<not> py_eq (case cursor of None \<Rightarrow> PNone | Some c \<Rightarrow> PStr c) (PStr c)" if "Some c \<noteq> cursor" for c
    using that by (auto split: option.split)
  show ?thesis
    using cases
  proof (elim disjE exE conjE)
    assume "dget info ''has_next_page'' = PBool False" "ps = []"
    then show ?thesis
      using tot assms(2) read items by (simp add: collect_page_def page dict_simps Let_def)
  next
    fix c
    assume c: "dget info ''has_next_page'' = PBool True" "dget info ''next_cursor'' = PStr c" "py_strip c \<noteq> []"
      "c \<notin> set seen" "Some c \<noteq> cursor" "items \<noteq> []" "observed + int (length items) < tot"
      and rest: "complete_pages tot (c # seen) (Some c) (observed + int (length items)) ps"
    have "ps \<noteq> []" using rest by (cases ps) auto
    then have "collect_page (ps = []) st page
        = Inr \<lparr>cl_found = found, cl_total = Some tot, cl_cursors = c # seen\<rparr>"
      using c tot assms(2,3) read items len cursor [OF c(5)]
      by (simp add: collect_page_def page dict_simps Let_def blank_cursor_def)
    then show ?thesis using rest items by auto
  qed
qed

lemma collect_complete_pages:
  assumes "complete_pages tot seen cursor observed ps"
    and "cl_total st = None \<or> cl_total st = Some tot" "cl_cursors st = seen"
    and "int (length (cl_found st)) = observed"
    and "foldr_res collect_item (cl_found st) (concat (map page_items ps)) = Inr found"
  shows "\<exists>seen'. collect_pages st ps = Inr \<lparr>cl_found = found, cl_total = Some tot, cl_cursors = seen'\<rparr>"
  using assms
proof (induction ps arbitrary: st seen cursor observed)
  case (Cons page ps)
  from Cons.prems(5) obtain found1 where
    read: "foldr_res collect_item (cl_found st) (page_items page) = Inr found1"
    and rest: "foldr_res collect_item found1 (concat (map page_items ps)) = Inr found"
    by (auto simp: foldr_res_append rbind_eq_Inr_iff)
  obtain seen' where
    step: "collect_page (ps = []) st page = Inr \<lparr>cl_found = found1, cl_total = Some tot, cl_cursors = seen'\<rparr>"
    and more: "ps \<noteq> [] \<longrightarrow> (\<exists>c. seen' = c # seen
         \<and> complete_pages tot seen' (Some c) (observed + int (length (page_items page))) ps)"
    using collect_complete_page [OF Cons.prems(1-4) read] by blast
  show ?case
  proof (cases "ps = []")
    case True
    then show ?thesis using step rest by simp
  next
    case False
    then obtain c where c: "complete_pages tot seen' (Some c) (observed + int (length (page_items page))) ps"
      using more by blast
    have "int (length found1) = observed + int (length (page_items page))"
      using collect.read_all_length [OF read] Cons.prems(4) by simp
    then have "\<exists>s. collect_pages \<lparr>cl_found = found1, cl_total = Some tot, cl_cursors = seen'\<rparr> ps
        = Inr \<lparr>cl_found = found, cl_total = Some tot, cl_cursors = s\<rparr>"
      using Cons.IH [OF c] rest by simp
    then show ?thesis using step by simp
  qed
qed simp

text \<open>
  The recorded-page validation accepts whatever the pagination loop returned: if the items are
  well formed, their names distinct and the expected ones among them, it yields the source of every
  expected schema.
\<close>

theorem collect_requested_pages:
  assumes "request_schema_pages k url h = (Inr pages, h')"
    and "list_all well_formed (concat (map page_items pages))"
    and "distinct (map item_name (concat (map page_items pages)))"
    and "set expected \<subseteq> set (map item_name (concat (map page_items pages)))"
  shows "collect_schema_pages pages expected
    = Inr (map (\<lambda>n. (n, the (map_of (map item_entry (concat (map page_items pages))) n))) expected)"
proof -
  let ?items = "concat (map page_items pages)"
  obtain tot where complete: "complete_pages tot [] None 0 pages"
    using request_schema_pages_run [OF assms(1)] by blast
  have read: "foldr_res collect_item [] ?items = Inr (map item_entry ?items)"
    using assms(2,3) by (simp add: collect.read_all_iff)
  obtain seen where run: "collect_pages \<lparr>cl_found = [], cl_total = None, cl_cursors = []\<rparr> pages
      = Inr \<lparr>cl_found = map item_entry ?items, cl_total = Some tot, cl_cursors = seen\<rparr>"
    using collect_complete_pages [OF complete, of "\<lparr>cl_found = [], cl_total = None, cl_cursors = []\<rparr>"] read
    by auto
  have "tot = int (length (map item_entry ?items))" using complete_pages_count [OF complete] by simp
  moreover have keys: "fst ` set (map item_entry ?items) = set (map item_name ?items)"
    by (simp add: image_image item_entry_def)
  then have "map_of (map item_entry ?items) n \<noteq> None" if "n \<in> set expected" for n
    using that assms(4) by (metis map_of_eq_None_iff subsetD)
  then have "filter (\<lambda>n. map_of (map item_entry ?items) n = None) expected = []"
    by (simp add: filter_empty_conv)
  ultimately show ?thesis by (simp add: collect_schema_pages_def run del: length_map)
qed

section \<open>Synchronisation\<close>

definition differs :: "(bytes \<Rightarrow> bytes) \<Rightarrow> inventory \<Rightarrow> pystr \<times> pystr \<Rightarrow> bool" where
  "differs sha present entry =
     (case map_of present (fst entry) of None \<Rightarrow> True
      | Some old \<Rightarrow> schema_hash sha (PStr (snd entry)) \<noteq> schema_hash sha (PStr old))"

lemma changed_names_eq:
  "changed_names sha present payload = Inr ch \<Longrightarrow> ch = map fst (filter (differs sha present) payload)"
proof (induction payload arbitrary: ch)
  case (Cons e payload)
  obtain name source where e: "e = (name, source)" by (cases e)
  from Cons.prems obtain rest where rest: "changed_names sha present payload = Inr rest"
    and ch: "ch = (if differs sha present e then name # rest else rest)"
    unfolding e by (auto simp: differs_def rbind_eq_Inr_iff split: option.splits if_splits)
  show ?case using Cons.IH [OF rest] ch e by simp
qed simp

lemma changed_names_none:
  assumes "\<And>e. e \<in> set payload \<Longrightarrow>
    \<exists>old a. map_of present (fst e) = Some old \<and> schema_hash sha (PStr (snd e)) = Inr a
      \<and> schema_hash sha (PStr old) = Inr a"
  shows "changed_names sha present payload = Inr []"
  using assms
proof (induction payload)
  case (Cons e payload)
  obtain name source where e: "e = (name, source)" by (cases e)
  have "changed_names sha present payload = Inr []" using Cons by simp
  then show ?case using Cons.prems [of e] e by auto
qed simp

lemma each_requests:
  "each (\<lambda>n. abind (request_json k (f n)) (\<lambda>_. pure (Inr ()))) xs h = (Inr u, h') \<Longrightarrow> h' = h @ map f xs"
proof (induction xs arbitrary: h)
  case (Cons x xs)
  from Cons.prems obtain y h1 where
    one: "request_json k (f x) h = (Inr y, h1)"
    and rest: "each (\<lambda>n. abind (request_json k (f n)) (\<lambda>_. pure (Inr ()))) xs h1 = (Inr u, h')"
    by (auto simp: abind_Inr_iff)
  show ?case using Cons.IH [OF rest] request_json_Inr [OF one] by simp
qed simp

text \<open>
  What the service answered: \<open>answered_pages k url h cursor pages reads\<close> says that the requests
  \<open>reads\<close>, sent after the history \<open>h\<close>, ask for the page at \<open>cursor\<close> and then each time for the one at
  the \<open>next_cursor\<close> of the answer before, and that \<open>pages\<close> holds the answers in order. A first answer
  \<open>{}\<close> counts as an empty inventory.
\<close>

definition page_of_answer :: "pystr option \<Rightarrow> pyval \<Rightarrow> pyval" where
  "page_of_answer cursor v =
     (if cursor = None \<and> py_eq v (PDict []) then empty_inventory
      else page_record (page_items v) (the_dict (dget (the_dict v) ''page'')) cursor)"

definition next_cursor :: "pyval \<Rightarrow> pystr" where
  "next_cursor page = the_str (dget (the_dict (dget (the_dict page) ''page'')) ''next_cursor'')"

fun answered_pages :: "konnect \<Rightarrow> pystr \<Rightarrow> history \<Rightarrow> pystr option \<Rightarrow> pyval list \<Rightarrow> api_request list \<Rightarrow> bool" where
  "answered_pages k url h cursor [] reads = (reads = [])"
| "answered_pages k url h cursor (p # ps) reads =
     (\<exists>v rest. reads = get_request url (page_params cursor) # rest
        \<and> fst (request_json k (get_request url (page_params cursor)) h) = Inr (200, v)
        \<and> p = page_of_answer cursor v
        \<and> answered_pages k url (h @ [get_request url (page_params cursor)]) (Some (next_cursor p)) ps rest)"

lemma page_step_answer:
  assumes "page_step st (status, v) = Inr outcome" and "pg_pages st = [] \<longleftrightarrow> pg_cursor st = None"
  shows "status = 200" and
    "outcome = Inl (pg_pages st @ [page_of_answer (pg_cursor st) v])
     \<or> (\<exists>st'. outcome = Inr st' \<and> pg_pages st' = pg_pages st @ [page_of_answer (pg_cursor st) v]
           \<and> pg_cursor st' = Some (next_cursor (page_of_answer (pg_cursor st) v)))"
proof -
  show "status = 200" using assms(1) by (simp add: page_step_def split: if_splits)
  show "outcome = Inl (pg_pages st @ [page_of_answer (pg_cursor st) v])
     \<or> (\<exists>st'. outcome = Inr st' \<and> pg_pages st' = pg_pages st @ [page_of_answer (pg_cursor st) v]
           \<and> pg_cursor st' = Some (next_cursor (page_of_answer (pg_cursor st) v)))"
  proof (cases "pg_cursor st = None \<and> py_eq v (PDict [])")
    case True
    then show ?thesis using assms by (auto simp: page_step_def page_of_answer_def split: if_splits)
  next
    case False
    have cur: "next_cursor (page_record items info c) = the_str (dget info ''next_cursor'')" for items info c
      by (simp add: next_cursor_def dict_simps)
    show ?thesis
      using False assms unfolding page_step_def page_of_answer_def Let_def
      by (auto simp: cur page_items_def split: if_splits)
  qed
qed

lemma page_loop_answered:
  "page_loop k url n st h = (Inr pages, h') \<Longrightarrow> pg_pages st = [] \<longleftrightarrow> pg_cursor st = None \<Longrightarrow>
   \<exists>ps new. pages = pg_pages st @ ps \<and> h' = h @ new \<and> answered_pages k url h (pg_cursor st) ps new"
proof (induction n arbitrary: st h)
  case (Suc n)
  let ?rq = "get_request url (page_params (pg_cursor st))"
  from Suc.prems(1) obtain status v h1 outcome where
    req: "request_json k ?rq h = (Inr (status, v), h1)"
    and step: "page_step st (status, v) = Inr outcome"
    and rest: "(case outcome of Inl ps \<Rightarrow> pure (Inr ps) | Inr st' \<Rightarrow> page_loop k url n st') h1 = (Inr pages, h')"
    by (auto simp: abind_Inr_iff)
  note answer = page_step_answer [OF step Suc.prems(2)]
  have h1: "h1 = h @ [?rq]" using request_json_Inr [OF req] .
  have fst: "fst (request_json k ?rq h) = Inr (200, v)" using req answer(1) by simp
  from answer(2) show ?case
  proof (elim disjE exE conjE)
    assume "outcome = Inl (pg_pages st @ [page_of_answer (pg_cursor st) v])"
    then show ?thesis using rest h1 fst
      by (intro exI [of _ "[page_of_answer (pg_cursor st) v]"] exI [of _ "[?rq]"]) simp
  next
    fix st'
    assume st': "outcome = Inr st'" "pg_pages st' = pg_pages st @ [page_of_answer (pg_cursor st) v]"
      "pg_cursor st' = Some (next_cursor (page_of_answer (pg_cursor st) v))"
    then have "page_loop k url n st' h1 = (Inr pages, h')" using rest by simp
    from Suc.IH [OF this] st' obtain ps new where
      "pages = pg_pages st' @ ps" "h' = h1 @ new" "answered_pages k url h1 (pg_cursor st') ps new"
      by auto
    then show ?thesis using st' h1 fst
      by (intro exI [of _ "page_of_answer (pg_cursor st) v # ps"] exI [of _ "?rq # new"]) simp
  qed
qed simp

lemma request_schema_pages_answered:
  "request_schema_pages k url h = (Inr pages, h') \<Longrightarrow>
   \<exists>new. h' = h @ new \<and> answered_pages k url h None pages new"
  using page_loop_answered [of k url 1000 start_pager h pages h']
  by (auto simp: request_schema_pages_def start_pager_def)


text \<open>
  C13: Synchronisation converges in one run. Once the inventory holds the written sources, with every
  other schema as before, the next run finds nothing to write and the drift check passes.
\<close>

theorem schema_sync_converges:
  assumes "changed_names sha present expected = Inr changed" and "distinct (map fst expected)"
    and hashed: "\<And>n src. (n, src) \<in> set expected \<Longrightarrow> \<exists>d. schema_hash sha (PStr src) = Inr d"
    and written: "\<And>n. map_of stored n = (if n \<in> set changed then map_of expected n else map_of present n)"
  shows "changed_names sha stored expected = Inr []
    \<and> (\<exists>hs. compare_schema_hashes sha expected (map (\<lambda>n. (n, the (map_of stored n))) (map fst expected)) = Inr hs)"
proof -
  have same: "\<exists>old a. map_of stored (fst e) = Some old \<and> schema_hash sha (PStr (snd e)) = Inr a
      \<and> schema_hash sha (PStr old) = Inr a" if "e \<in> set expected" for e
  proof -
    obtain n src where e: "e = (n, src)" by (cases e)
    have src: "map_of expected n = Some src" using assms(2) that e by simp
    have mem: "(n, src) \<in> set expected" using that e by simp
    obtain d where d: "schema_hash sha (PStr src) = Inr d" using hashed [OF mem] by blast
    have ch: "changed = map fst (filter (differs sha present) expected)" by (rule changed_names_eq [OF assms(1)])
    show ?thesis
    proof (cases "n \<in> set changed")
      case True
      then show ?thesis using written [of n] src d e by simp
    next
      case False
      then have "\<not> differs sha present e" using ch that e by force
      then show ?thesis using written [of n] False d e by (auto simp: differs_def split: option.splits)
    qed
  qed
  have "changed_names sha stored expected = Inr []" using same by (rule changed_names_none)
  moreover have "\<exists>hs. compare_schema_hashes sha expected (map (\<lambda>n. (n, the (map_of stored n))) (map fst expected)) = Inr hs"
  proof -
    let ?obs = "map (\<lambda>n. (n, the (map_of stored n))) (map fst expected)"
    have obs: "map_of ?obs n = Some (the (map_of stored n))" if "n \<in> set (map fst expected)" for n
      using that by (induction expected) auto
    have "\<exists>y. compare_entry sha expected ?obs n = Inr y" if n: "n \<in> set (map fst expected)" for n
    proof -
      from n obtain src where e: "(n, src) \<in> set expected" by auto
      then have "map_of expected n = Some src" using assms(2) by simp
      then show ?thesis using same [OF e] obs [OF n] by (auto simp: compare_entry_def)
    qed
    then have "\<exists>hs. mapr (compare_entry sha expected ?obs) (sort (map fst expected)) = Inr hs"
      by (intro mapr_total) simp
    moreover have "set (map fst ?obs) = set (map fst expected)" by (auto simp: image_image)
    ultimately show ?thesis by (simp add: compare_schema_hashes_def)
  qed
  ultimately show ?thesis by blast
qed

section \<open>A concrete control plane\<close>

definition sample_items :: "pyval list" where
  "sample_items = [PDict [(K ''name'', S ''b''), (K ''lua_schema'', S ''old'')]]"

definition sample_info :: pydict where
  "sample_info = [(K ''total_count'', PInt 1), (K ''has_next_page'', PBool False), (K ''next_cursor'', PNone)]"

definition sample_page :: pyval where
  "sample_page = PDict [(K ''items'', PList sample_items), (K ''page'', PDict sample_info)]"

definition sample_konnect :: konnect where
  "sample_konnect =
     \<lparr>answer = (\<lambda>_ _. Answer 200 (json_body \<lparr>of_text = (\<lambda>_. FNan), to_text = (\<lambda>_. [])\<rparr> sample_page)),
      kn_floats = \<lparr>of_text = (\<lambda>_. FNan), to_text = (\<lambda>_. [])\<rparr>, kn_depth = 10,
      kn_wide = (\<lambda>_. Inl UnicodeDecodeError)\<rparr>"

definition sample_expected :: inventory where
  "sample_expected = [(lit ''a'', lit ''new''), (lit ''b'', lit ''new'')]"

lemma sample_request: "request_json sample_konnect rq h = (Inr (200, sample_page), h @ [rq])"
proof -
  let ?fc = "\<lparr>of_text = (\<lambda>_. FNan), to_text = (\<lambda>_. [])\<rparr>"
  have "json_plain sample_page"
    by (simp add: sample_page_def sample_items_def sample_info_def lit_scalar show_nat.simps)
  moreover have "json_depth sample_page \<le> kn_depth sample_konnect"
    by (simp add: sample_page_def sample_items_def sample_info_def sample_konnect_def)
  ultimately have "response_value sample_konnect (json_body ?fc sample_page) = Inr sample_page"
    by (rule response_value_body)
  moreover have "json_body ?fc sample_page \<noteq> []"
    by (simp add: json_body_def json_dumps_def sample_page_def)
  moreover have "answer sample_konnect h rq = Answer 200 (json_body ?fc sample_page)"
    by (simp add: sample_konnect_def)
  ultimately show ?thesis by (simp add: request_json_def)
qed

lemma sample_pages:
  "request_schema_pages sample_konnect url []
   = (Inr [page_record sample_items sample_info None], [get_request url (page_params None)])"
proof -
  have thousand: "(1000 :: nat) = Suc 999" by simp
  have "page_step start_pager (200, sample_page)
      = Inr (Inl [page_record sample_items sample_info None])"
    by (simp add: page_step_def start_pager_def dict_simps sample_page_def sample_info_def sample_items_def Let_def)
  then show ?thesis
    unfolding request_schema_pages_def thousand page_loop.simps
    by (simp add: abind_def sample_request pure_def start_pager_def)
qed

lemma sample_page_items: "concat (map page_items [page_record sample_items sample_info None]) = sample_items"
  by (simp add: page_items_def dict_simps)

theorem request_schema_pages_complete_witness:
  "\<exists>pages h'. request_schema_pages sample_konnect (lit ''u'') [] = (Inr pages, h')
    \<and> int (length (concat (map page_items pages))) = 1 \<and> length h' \<le> 1000"
proof -
  let ?pages = "[page_record sample_items sample_info None]"
  obtain new where "[get_request (lit ''u'') (page_params None)] = [] @ new" "length new \<le> 1000"
    using request_schema_pages_complete [OF sample_pages [of "lit ''u''"]] by blast
  moreover have "int (length (concat (map page_items ?pages))) = 1"
    unfolding sample_page_items by (simp add: sample_items_def)
  ultimately show ?thesis using sample_pages [of "lit ''u''"] by (metis append_Nil)
qed

theorem collect_requested_pages_witness:
  "collect_schema_pages [page_record sample_items sample_info None] [lit ''b''] = Inr [(lit ''b'', lit ''old'')]"
proof -
  have "list_all well_formed sample_items" "distinct (map item_name sample_items)"
    "set [lit ''b''] \<subseteq> set (map item_name sample_items)"
    by (simp_all add: sample_items_def well_formed_def item_name_def dict_simps)
  then show ?thesis
    using collect_requested_pages [OF sample_pages [of "lit ''u''"], unfolded sample_page_items, of "[lit ''b'']"]
    by (simp add: sample_items_def item_entry_def item_name_def dict_simps)
qed

lemma sample_hash:
  "schema_hash id (S ''new'') = Inr (lit ''6e6577'')" "schema_hash id (S ''old'') = Inr (lit ''6f6c64'')"
  by (simp_all add: schema_hash_def normalize_schema_def py_replace_def ends_with_def utf8_encode_def
      utf8_cp_def is_scalar_def is_surrogate_def hexdigest_def hex_digit_def lit_def Let_def starts_with_def)

lemma sample_changed:
  "changed_names id [(lit ''b'', lit ''old'')] sample_expected = Inr [lit ''a'', lit ''b'']"
  by (simp add: sample_expected_def sample_hash)

lemma sample_sync:
  "\<exists>msg h'. sync_schemas sample_konnect id (Inr sample_expected) base target [] = (Inr msg, h')"
proof -
  have "foldr_res inventory_item [] sample_items = Inr [(lit ''b'', lit ''old'')]"
    by (simp add: sample_items_def inventory_item_def dict_simps Let_def)
  then show ?thesis
    by (simp add: sync_schemas_def abind_def pure_def sample_pages sample_changed sample_request Let_def
        page_items_def dict_simps)
qed

lemma page_record_inject:
  "page_record items info None = page_record items' info' None \<longleftrightarrow> items = items' \<and> info = info'"
  by (auto simp: page_record_def)

lemma sample_inventory:
  "answered_pages sample_konnect url [] None pages reads \<Longrightarrow> complete_pages tot [] None 0 pages \<Longrightarrow>
   pages = [page_record sample_items sample_info None] \<and> reads = [get_request url (page_params None)]"
proof -
  have fresh: "page_of_answer None sample_page = page_record sample_items sample_info None"
    by (simp add: page_of_answer_def sample_page_def page_items_def dict_simps)
  assume "answered_pages sample_konnect url [] None pages reads" "complete_pages tot [] None 0 pages"
  then show ?thesis
    by (cases pages) (auto simp: sample_request fresh page_record_inject sample_info_def dict_simps)
qed


theorem schema_sync_converges_witness:
  "changed_names id sample_expected sample_expected = Inr []"
proof -
  have "\<exists>d. schema_hash id (PStr src) = Inr d" if "(n, src) \<in> set sample_expected" for n src
    using that by (auto simp: sample_expected_def sample_hash)
  moreover have "map_of sample_expected n
      = (if n \<in> set [lit ''a'', lit ''b''] then map_of sample_expected n else map_of [(lit ''b'', lit ''old'')] n)" for n
    by (simp add: sample_expected_def)
  moreover have "distinct (map fst sample_expected)" by (simp add: sample_expected_def)
  ultimately show ?thesis using schema_sync_converges [OF sample_changed, of sample_expected] by blast
qed

end
