(* ===== verification/Wp1_Main.thy ===== *)
theory Wp1_Main
  imports Api_Runtime Schema_Sync
begin

text \<open>
  The command \<open>src/scripts/wp1_target.py\<close>: the configuration file readers, the local manifest
  checks, the read-only checks of the remote control plane and of the shared CA, the certificate
  inputs of the gateways, and \<open>main\<close>. The theorems say which requests a run can send and what a
  successful run has checked.
\<close>

section \<open>Configuration files\<close>

definition is_quote :: "nat \<Rightarrow> bool" where
  "is_quote c \<longleftrightarrow> c = 34 \<or> c = 39"

definition unquote :: "pystr \<Rightarrow> pystr" where
  "unquote v = py_rstrip is_quote (py_lstrip is_quote (py_strip v))"

type_synonym env = "(pystr \<times> pystr) list"

definition read_line :: "(pystr \<Rightarrow> bool) \<Rightarrow> pystr \<Rightarrow> env \<Rightarrow> env" where
  "read_line keep raw env =
     (let line = py_strip raw in
      if line = [] \<or> starts_with [35] line \<or> 61 \<notin> set line then env
      else case py_partition 61 line of (key, _, v) \<Rightarrow>
        if keep key then AList.update key (unquote v) env else env)"

definition read_assignments :: "(pystr \<Rightarrow> bool) \<Rightarrow> ('z repo_scheme) \<Rightarrow> string \<Rightarrow> env res" where
  "read_assignments keep files path =
     (if \<not> file_exists files path then Inr []
      else rbind (read_text files path) (\<lambda>source. Inr (fold (read_line keep) (splitlines source) [])))"

definition CONFIG_KEYS :: "string list" where
  "CONFIG_KEYS = [''TF_VAR_control_plane_name'', ''TF_VAR_third_party_control_plane_name'', ''KONNECT_SERVER_URL'']"

definition read_config :: "('z repo_scheme) \<Rightarrow> env res" where
  "read_config files = read_assignments (\<lambda>key. key \<in> set (map lit CONFIG_KEYS)) files ''.env''"

definition is_env_name :: "pystr \<Rightarrow> bool" where
  "is_env_name key \<longleftrightarrow> key \<noteq> [] \<and> (is_alpha (hd key) \<or> hd key = 95)
     \<and> list_all (\<lambda>c. is_alpha c \<or> is_digit c \<or> c = 95) (tl key)"

definition read_env :: "('z repo_scheme) \<Rightarrow> string \<Rightarrow> env res" where
  "read_env = read_assignments is_env_name"

definition env_get :: "env \<Rightarrow> string \<Rightarrow> pystr \<Rightarrow> pystr" where
  "env_get env k dflt = (case map_of env (lit k) of None \<Rightarrow> dflt | Some v \<Rightarrow> v)"

definition expected_names :: "env \<Rightarrow> (string \<times> pystr) list" where
  "expected_names env =
     [(''api'', env_get env ''TF_VAR_control_plane_name'' (lit ''keycloak-fapi2-demo'')),
      (''third-party'', env_get env ''TF_VAR_third_party_control_plane_name'' (lit ''keycloak-fapi2-third-party-demo''))]"

section \<open>The local manifest\<close>

record manifest_info =
  mi_server_url :: pystr
  mi_targets :: "(string \<times> pydict) list"
  mi_target :: pydict

text \<open>What the interpreter supplies: URL checks, float conversions and the recursion limit.\<close>

record interp =
  ip_url :: url_checks
  ip_floats :: float_codec
  ip_depth :: nat

definition gateway_key :: "pystr \<Rightarrow> string" where
  "gateway_key gateway = (if gateway = lit ''api'' then ''api'' else ''third-party'')"

definition check_local_states ::
    "('z repo_scheme) \<Rightarrow> string \<Rightarrow> pystr option \<Rightarrow> string \<Rightarrow> unit res" where
  "check_local_states files gateway stage operation =
     rbind (if operation = ''validate'' \<and> gateway = ''api'' \<and> file_exists files ''kong/api-gateway.yaml''
            then rbind (validate_api_runtime_state files) (\<lambda>_. Inr ()) else Inr ()) (\<lambda>_.
     rbind (if operation = ''validate'' \<and> gateway = ''third-party'' \<and> stage = Some (lit ''runtime'')
            then rbind (validate_third_party_runtime_state files) (\<lambda>_. Inr ()) else Inr ()) (\<lambda>_.
     if operation \<in> {''diff'', ''sync''}
     then rbind (if stage = Some (lit ''runtime'')
                 then (if gateway = ''api'' then rbind (validate_api_runtime_state files) (\<lambda>_. Inr ())
                       else rbind (validate_third_party_runtime_state files) (\<lambda>_. Inr ()))
                 else Inr ()) (\<lambda>_.
       let state = the (map_of (if stage = Some (lit ''foundation'') then FOUNDATION_FILES else RUNTIME_FILES) gateway)
       in raise_if (\<not> is_file files state)
            (ValueError (the stage @ lit '' state is missing: '' @ lit state)))
     else Inr ()))"

definition read_manifest :: "interp \<Rightarrow> ('z repo_scheme) \<Rightarrow> string \<Rightarrow> manifest_info res" where
  "read_manifest ip files gateway =
     (let path = ''.generated/gateway_targets.json'' in
      if \<not> is_file files path
      then raiseV ''generated gateway target manifest is missing; render it after provisioning''
      else rbind (rbind (read_text files path) (json_loads (plain_opts (ip_floats ip)) (ip_depth ip))) (\<lambda>manifest.
        rbind (set_of manifest) (\<lambda>fields.
        if set fields \<noteq> {K ''konnect_server_url'', K ''targets''}
        then raiseV ''gateway target manifest fields are malformed''
        else rbind (read_config files) (\<lambda>config.
          rbind (subscript manifest ''targets'') (\<lambda>raw_targets.
          rbind (validate_targets (ip_url ip) (expected_names config) raw_targets) (\<lambda>targets.
          rbind (subscript manifest ''konnect_server_url'') (\<lambda>region_url.
          rbind (endpoint_host (ip_url ip) region_url) (\<lambda>region_host.
          rbind (endpoint_host (ip_url ip)
                   (PStr (py_rstrip (\<lambda>c. c = 47) (env_get config ''KONNECT_SERVER_URL'' (lit ''https://us.api.konghq.com'')))))
            (\<lambda>env_host.
          if region_host \<noteq> env_host
          then raiseV ''Konnect region URL does not match the rendered target manifest''
          else Inr \<lparr>mi_server_url = the_str region_url, mi_targets = targets,
                    mi_target = the (map_of targets gateway)\<rparr>)))))))))"

definition local_manifest ::
    "interp \<Rightarrow> ('z repo_scheme) \<Rightarrow> pystr \<Rightarrow> pystr option \<Rightarrow> string \<Rightarrow> manifest_info option res" where
  "local_manifest ip files gateway stage operation =
     (let selector_operation = (if starts_with ''schema-'' operation then ''schema'' else operation);
          gw = gateway_key gateway in
      rbind (validate_selector gateway stage (lit selector_operation)) (\<lambda>_.
      rbind (validate_foundation_state files gw) (\<lambda>_.
      rbind (check_local_states files gw stage operation) (\<lambda>_.
      if operation \<in> {''diff'', ''sync'', ''schema-check'', ''schema-sync''}
      then rbind (read_manifest ip files gw) (\<lambda>info. Inr (Some info))
      else Inr None))))"

section \<open>Remote checks\<close>

definition control_plane_url :: "pystr \<Rightarrow> pydict \<Rightarrow> pystr" where
  "control_plane_url base target =
     base @ lit ''/v2/control-planes/'' @ the_str (dget target ''control_plane_id'')"

text \<open>\<open>response.get("data", response)\<close>.\<close>

definition unwrap_data :: "pydict \<Rightarrow> pyval" where
  "unwrap_data d = (if dhas d ''data'' then dget d ''data'' else PDict d)"

definition remote_matches :: "pydict \<Rightarrow> pyval \<Rightarrow> bool" where
  "remote_matches target remote \<longleftrightarrow>
     (case remote of PDict r \<Rightarrow>
        py_eq (dget r ''id'') (dget target ''control_plane_id'')
        \<and> py_eq (dget r ''name'') (dget target ''control_plane_name'')
        \<and> (case dget r ''config'' of PDict c \<Rightarrow>
             py_eq (dget c ''control_plane_endpoint'') (dget target ''control_plane_endpoint'')
             \<and> py_eq (dget c ''telemetry_endpoint'') (dget target ''telemetry_endpoint'')
           | _ \<Rightarrow> False)
      | _ \<Rightarrow> False)"

definition verify_remote_target :: "konnect \<Rightarrow> pystr \<Rightarrow> pydict \<Rightarrow> unit act" where
  "verify_remote_target k base target =
     abind (request_json k (get_request (control_plane_url base target) [])) (\<lambda>(status, response).
     pure (if \<not> is_dict response then Inl AttributeError
           else raise_if (status \<noteq> 200 \<or> \<not> remote_matches target (unwrap_data (the_dict response)))
             (ValueError (lit ''read-only control plane metadata does not match local target ID, name, or endpoints''))))"

section \<open>Certificate inputs\<close>

definition ascii_space :: "nat \<Rightarrow> bool" where
  "ascii_space c \<longleftrightarrow> c \<in> {9, 10, 11, 12, 13, 32}"

definition is_pem_char :: "nat \<Rightarrow> bool" where
  "is_pem_char c \<longleftrightarrow> is_alpha c \<or> is_digit c \<or> c = 43 \<or> c = 47 \<or> c = 61"

text \<open>\<open>\r?\n\<close>.\<close>

definition drop_newline :: "pystr \<Rightarrow> pystr option" where
  "drop_newline s =
     (if starts_with [13, 10] s then Some (drop 2 s) else if starts_with [10] s then Some (tl s) else None)"

lemma drop_newline_shorter: "drop_newline s = Some t \<Longrightarrow> length t < length s"
  by (cases s) (auto simp: drop_newline_def starts_with_def split: if_splits)

definition PEM_BEGIN :: pystr where "PEM_BEGIN = lit ''-----BEGIN CERTIFICATE-----''"
definition PEM_END :: pystr where "PEM_END = lit ''-----END CERTIFICATE-----''"

function pem_lines :: "pystr \<Rightarrow> bool" where
  "pem_lines s =
     (if takeWhile is_pem_char s = [] then False
      else case drop_newline (dropWhile is_pem_char s) of
        None \<Rightarrow> False
      | Some t \<Rightarrow>
          if starts_with PEM_END t then list_all ascii_space (drop (length PEM_END) t) else pem_lines t)"
  by pat_completeness auto
termination
proof (relation "measure length")
  fix s t
  assume "drop_newline (dropWhile is_pem_char s) = Some t"
  then have "length t < length (dropWhile is_pem_char s)" by (rule drop_newline_shorter)
  then show "(t, s) \<in> measure length" using length_dropWhile_le [of is_pem_char s] by simp
qed simp

declare pem_lines.simps [simp del]

definition single_certificate_pem :: "pystr \<Rightarrow> bool" where
  "single_certificate_pem s =
     (let body = dropWhile ascii_space s in
      starts_with PEM_BEGIN body
      \<and> (case drop_newline (drop (length PEM_BEGIN) body) of None \<Rightarrow> False | Some t \<Rightarrow> pem_lines t))"

text \<open>
  \<open>openssl x509\<close> is a parameter: it fails to run or times out (\<open>None\<close>), or gives an exit status and
  its output.
\<close>

type_synonym openssl = "bytes \<Rightarrow> (int \<times> bytes) option"

abbreviation bad_certificate :: "'a res" where
  "bad_certificate \<equiv> raiseV ''role-scoped certificate input is missing or malformed''"

definition certificate_der :: "openssl \<Rightarrow> pyval \<Rightarrow> bytes res" where
  "certificate_der x509 v =
     (if \<not> nonempty_str v then bad_certificate
      else let pem = py_replace [92, 110] [10] (the_str v) in
        if \<not> single_certificate_pem pem then bad_certificate
        else case ascii_encode pem of
          Inl _ \<Rightarrow> bad_certificate
        | Inr data \<Rightarrow> (case x509 data of
            None \<Rightarrow> bad_certificate
          | Some (code, out) \<Rightarrow> if code \<noteq> 0 \<or> out = [] then bad_certificate else Inr out))"

definition ROLE_CERTIFICATES :: "string \<Rightarrow> string list" where
  "ROLE_CERTIFICATES gateway =
     (if gateway = ''api''
      then [''DECK_FAPI_CA_CERT_YAML'', ''DECK_API_INTROSPECTION_CERT_YAML'', ''DECK_API_UPSTREAM_CERT_YAML'']
      else [''DECK_FAPI_CA_CERT_YAML'', ''DECK_ROUTE_A_TLS_CERT_YAML'', ''DECK_ROUTE_B_TLS_CERT_YAML'',
            ''DECK_BACKEND_HOP_CERT_YAML''])"

definition ROLE_KEYS :: "string \<Rightarrow> string list" where
  "ROLE_KEYS gateway =
     (if gateway = ''api'' then [''API_INTROSPECTION_KEY'', ''API_UPSTREAM_KEY'']
      else [''ROUTE_A_TLS_KEY'', ''ROUTE_B_TLS_KEY'', ''BACKEND_HOP_KEY''])"

definition private_key_text :: "pyval \<Rightarrow> bool" where
  "private_key_text v \<longleftrightarrow>
     (case v of PStr s \<Rightarrow> starts_with (lit ''-----BEGIN '') s \<and> contains_sub (lit ''PRIVATE KEY-----'') s | _ \<Rightarrow> False)"

definition validate_role_values :: "openssl \<Rightarrow> string \<Rightarrow> pyval \<Rightarrow> pydict res" where
  "validate_role_values x509 gateway role_values =
     (let d = the_dict role_values in
      if \<not> is_dict role_values then raiseV ''role-scoped decK input is malformed''
      else if \<not> keys_are d (ROLE_CERTIFICATES gateway @ ROLE_KEYS gateway)
      then raiseV ''role-scoped decK input fields are malformed''
      else rbind (mapr (\<lambda>name. certificate_der x509 (dget d name)) (ROLE_CERTIFICATES gateway)) (\<lambda>_.
        if \<not> list_all (\<lambda>name. private_key_text (dget d name)) (ROLE_KEYS gateway)
        then raiseV ''role-scoped decK input fields are malformed''
        else Inr d))"

definition shared_ca_metadata :: "pyval \<Rightarrow> bool" where
  "shared_ca_metadata remote \<longleftrightarrow>
     (case remote of PDict r \<Rightarrow>
        py_eq (dget r ''id'') (S SHARED_API_CA_ID)
        \<and> (case dget r ''tags'' of PList [PStr tag] \<Rightarrow> tag = lit ''fapi2-demo'' | _ \<Rightarrow> False)
      | _ \<Rightarrow> False)"

definition shared_ca_url :: "pystr \<Rightarrow> pydict \<Rightarrow> pystr" where
  "shared_ca_url base target =
     control_plane_url base target @ lit ''/core-entities/ca_certificates/'' @ lit SHARED_API_CA_ID"

definition verify_shared_api_ca :: "konnect \<Rightarrow> openssl \<Rightarrow> pystr \<Rightarrow> pydict \<Rightarrow> pyval \<Rightarrow> unit act" where
  "verify_shared_api_ca k x509 base target role_certificate =
     abind (request_json k (get_request (shared_ca_url base target) [])) (\<lambda>(status, response).
     pure (if status \<noteq> 200 \<or> \<not> is_dict response then raiseV ''required shared API CA could not be verified''
           else let remote = unwrap_data (the_dict response) in
             if \<not> shared_ca_metadata remote then raiseV ''required shared API CA metadata does not match''
             else rbind (recast_if isa_ValueError (ValueError (lit ''required shared API CA certificate is malformed''))
                    (rbind (certificate_der x509 (dget (the_dict remote) ''cert'')) (\<lambda>remote_der.
                     rbind (certificate_der x509 role_certificate) (\<lambda>expected_der. Inr (remote_der, expected_der)))))
                  (\<lambda>(remote_der, expected_der).
               raise_if (remote_der \<noteq> expected_der)
                 (ValueError (lit ''required shared API CA certificate does not match runtime input'')))))"

section \<open>The command\<close>

definition OPERATIONS :: "string list" where
  "OPERATIONS = [''validate'', ''preflight'', ''deck-validate'', ''deck-diff'', ''deck-sync'', ''schema-check'', ''schema-sync'']"

definition removeprefix :: "string \<Rightarrow> string \<Rightarrow> string" where
  "removeprefix p s = (if starts_with p s then drop (length p) s else s)"

definition plugin_files :: "('z repo_scheme) \<Rightarrow> inventory res" where
  "plugin_files files =
     mapr (\<lambda>(name, path). rbind (read_text files path) (\<lambda>source. Inr (lit name, source)))
       [(''fapi-as-mtls-transport'', ''kong/plugins/fapi-as-mtls-transport/schema.lua''),
        (''fapi-client-auth-bridge'', ''kong/plugins/fapi-client-auth-bridge/schema.lua'')]"

text \<open>
  \<open>api token\<close> is the Konnect API as a caller with that token sees it; \<open>approved\<close> is the process
  environment's \<open>SCHEMA_SYNC_APPROVED\<close>. A successful run returns the lines it prints.
\<close>

definition main_remote ::
    "(bytes \<Rightarrow> bytes) \<Rightarrow> ('z repo_scheme) \<Rightarrow> konnect \<Rightarrow> pystr option \<Rightarrow> pystr \<Rightarrow> string \<Rightarrow> pystr \<Rightarrow> pydict
     \<Rightarrow> pystr list act" where
  "main_remote sha files k approved gateway operation base target =
     abind (verify_remote_target k base target) (\<lambda>_.
     if operation = ''diff'' then pure (Inr [])
     else if operation = ''schema-check'' then check_schemas k sha (plugin_files files) gateway base target
     else if operation = ''schema-sync''
     then (if approved \<noteq> Some (lit ''YES'')
           then pure (raiseV ''schema sync is a separate Konnect write; set SCHEMA_SYNC_APPROVED=YES only after explicit approval'')
           else abind (sync_schemas k sha (plugin_files files) base target) (\<lambda>msg. pure (Inr [msg])))
     else if operation = ''sync'' then pure (Inr [])
     else pure (raiseV ''unsupported WP1 operation''))"

definition wp1_main ::
    "interp \<Rightarrow> (bytes \<Rightarrow> bytes) \<Rightarrow> ('z repo_scheme) \<Rightarrow> (pystr \<Rightarrow> konnect) \<Rightarrow> pystr option \<Rightarrow> string \<Rightarrow> pystr
     \<Rightarrow> pystr option \<Rightarrow> pystr list act" where
  "wp1_main ip sha files api approved command gateway stage =
     (let operation = removeprefix ''deck-'' command in
      abind (pure (local_manifest ip files gateway stage operation)) (\<lambda>info.
      if operation \<in> {''preflight'', ''validate''} then pure (Inr [])
      else if gateway = lit ''api'' \<and> operation = ''schema-sync''
      then pure (raiseV ''API foundation must not register custom schemas'')
      else abind (pure (read_env files ''.env'')) (\<lambda>env.
        let token = env_get env ''KONNECT_TOKEN'' [] in
        if token = [] then pure (raiseV ''KONNECT_TOKEN is required after local target validation'')
        else case info of
          None \<Rightarrow> pure (Inl KeyError)
        | Some mi \<Rightarrow>
            main_remote sha files (api token) approved gateway operation
              (py_rstrip (\<lambda>c. c = 47) (mi_server_url mi)) (mi_target mi))))"

text \<open>The exit status: an exception, caught at the top level or not, gives 1.\<close>

definition exit_status :: "'a res \<Rightarrow> int" where
  "exit_status r = (case r of Inl _ \<Rightarrow> 1 | Inr _ \<Rightarrow> 0)"

section \<open>Which requests a run can send\<close>

lemma sends_page_loop: "sends (\<lambda>rq. rq_method rq = GET \<and> rq_url rq = url) (page_loop k url n st)"
  by (induction n arbitrary: st) (auto intro!: sends_abind simp: get_request_def split: sum.split)

lemma sends_request_schema_pages:
  "sends (\<lambda>rq. rq_method rq = GET \<and> rq_url rq = url) (request_schema_pages k url)"
  unfolding request_schema_pages_def by (rule sends_page_loop)

lemma sends_check_schemas:
  "sends (\<lambda>rq. rq_method rq = GET \<and> rq_url rq = schemas_url base target) (check_schemas k sha ps gateway base target)"
  unfolding check_schemas_def by (intro sends_if sends_abind sends_pure sends_request_schema_pages)

lemma sends_sync_schemas:
  "sends (\<lambda>rq. \<exists>suffix. rq_url rq = schemas_url base target @ suffix) (sync_schemas k sha ps base target)"
proof -
  have pages: "sends (\<lambda>rq. \<exists>suffix. rq_url rq = schemas_url base target @ suffix)
      (request_schema_pages k (schemas_url base target))"
    by (rule sends_mono [OF sends_request_schema_pages]) auto
  show ?thesis
    unfolding sync_schemas_def Let_def
    by (intro sends_abind sends_if sends_pure pages sends_each sends_request)
      (simp add: write_request_def Let_def)
qed

definition within_plane :: "pystr \<Rightarrow> pydict \<Rightarrow> api_request \<Rightarrow> bool" where
  "within_plane base target rq \<longleftrightarrow> (\<exists>suffix. rq_url rq = control_plane_url base target @ suffix)"

lemma schemas_url_within: "schemas_url base target @ s = control_plane_url base target @ lit ''/core-entities/plugin-schemas'' @ s"
  by (simp add: schemas_url_def control_plane_url_def)

lemma sends_verify_remote_target:
  "sends (\<lambda>rq. rq_method rq = GET \<and> within_plane base target rq) (verify_remote_target k base target)"
  unfolding verify_remote_target_def
  by (auto intro!: sends_abind simp: get_request_def within_plane_def)

lemma sends_main_remote:
  "sends (\<lambda>rq. within_plane base target rq
            \<and> (rq_method rq = GET \<or> operation = ''schema-sync'' \<and> approved = Some (lit ''YES'')))
     (main_remote sha files k approved gateway operation base target)"
proof -
  let ?P = "\<lambda>rq. within_plane base target rq
            \<and> (rq_method rq = GET \<or> operation = ''schema-sync'' \<and> approved = Some (lit ''YES''))"
  have verify: "sends ?P (verify_remote_target k base target)"
    by (rule sends_mono [OF sends_verify_remote_target]) simp
  have check: "sends ?P (check_schemas k sha (plugin_files files) gateway base target)"
    using schemas_url_within [of base target "[]"]
    by (intro sends_mono [OF sends_check_schemas]) (auto simp: within_plane_def)
  have sync: "sends ?P (sync_schemas k sha (plugin_files files) base target)"
    if "operation = ''schema-sync''" "approved = Some (lit ''YES'')"
    using that schemas_url_within
    by (intro sends_mono [OF sends_sync_schemas]) (auto simp: within_plane_def)
  have sync': "sends ?P (abind (sync_schemas k sha (plugin_files files) base target) (\<lambda>msg. pure (Inr [msg])))"
    if "operation = ''schema-sync''" "approved = Some (lit ''YES'')"
    by (rule sends_abind [OF sync [OF that]]) (rule sends_pure)
  show ?thesis
    unfolding main_remote_def
  proof (rule sends_abind [OF verify], intro sends_if sends_pure check)
    assume "operation = ''schema-sync''" "\<not> approved \<noteq> Some (lit ''YES'')"
    then show "sends ?P (abind (sync_schemas k sha (plugin_files files) base target) (\<lambda>msg. pure (Inr [msg])))"
      using sync' by blast
  qed
qed

text \<open>
  C19: A run of the command sends requests only after the local manifest has been validated, and only
  to the control plane that the manifest names for the selected gateway. Every one of them is a
  read, unless the command is \<open>schema-sync\<close> for the third-party gateway with
  \<open>SCHEMA_SYNC_APPROVED=YES\<close>.
\<close>

theorem wp1_main_requests:
  assumes "wp1_main ip sha files api approved command gateway stage h = (r, h')" "command \<in> set OPERATIONS"
  shows "\<exists>new. h' = h @ new \<and> (new = [] \<or>
    (\<exists>mi. local_manifest ip files gateway stage (removeprefix ''deck-'' command) = Inr (Some mi)
      \<and> list_all (\<lambda>rq. within_plane (py_rstrip (\<lambda>c. c = 47) (mi_server_url mi)) (mi_target mi) rq
          \<and> (rq_method rq = GET
             \<or> command = ''schema-sync'' \<and> gateway = lit ''third-party'' \<and> approved = Some (lit ''YES''))) new))"
proof -
  let ?op = "removeprefix ''deck-'' command"
  have op: "?op = ''schema-sync'' \<longleftrightarrow> command = ''schema-sync''"
    using assms(2) by (auto simp: OPERATIONS_def removeprefix_def starts_with_def)
  show ?thesis
  proof (cases "local_manifest ip files gateway stage ?op")
    case (Inl e)
    then show ?thesis using assms by (auto simp: wp1_main_def abind_def pure_def Let_def)
  next
    case (Inr info)
    have gw: "gateway = lit ''api'' \<or> gateway = lit ''third-party''"
      using Inr by (auto simp: local_manifest_def validate_selector_def Let_def rbind_eq_Inr_iff split: if_splits)
    consider (none) "h' = h" | (remote) mi env where "info = Some mi" "\<not> (gateway = lit ''api'' \<and> ?op = ''schema-sync'')"
      "main_remote sha files (api (env_get env ''KONNECT_TOKEN'' [])) approved gateway ?op
         (py_rstrip (\<lambda>c. c = 47) (mi_server_url mi)) (mi_target mi) h = (r, h')"
      using assms(1) Inr
      by (auto simp: wp1_main_def abind_def pure_def Let_def split: if_splits sum.splits option.splits)
    then show ?thesis
    proof cases
      case (remote mi env)
      from sends_main_remote [unfolded sends_def, rule_format, OF remote(3)]
      obtain new where new: "h' = h @ new"
        "list_all (\<lambda>rq. within_plane (py_rstrip (\<lambda>c. c = 47) (mi_server_url mi)) (mi_target mi) rq
            \<and> (rq_method rq = GET \<or> ?op = ''schema-sync'' \<and> approved = Some (lit ''YES''))) new"
        by blast
      then show ?thesis using remote(1,2) Inr gw op by (auto simp: list_all_iff)
    qed simp
  qed
qed

section \<open>What a successful run has checked\<close>

lemma verify_remote_target_Inr:
  assumes "verify_remote_target k base target h = (Inr u, h')"
  shows "\<exists>d. request_json k (get_request (control_plane_url base target) []) h = (Inr (200, PDict d), h')
    \<and> remote_matches target (unwrap_data d)"
proof -
  obtain status response where run: "request_json k (get_request (control_plane_url base target) []) h = (Inr (status, response), h')"
    and ok: "(if \<not> is_dict response then Inl AttributeError
           else raise_if (status \<noteq> 200 \<or> \<not> remote_matches target (unwrap_data (the_dict response)))
             (ValueError (lit ''read-only control plane metadata does not match local target ID, name, or endpoints''))) = Inr u"
    using assms unfolding verify_remote_target_def abind_Inr_iff by (auto simp only: pure_Inr_iff prod.case)
  then obtain d where "response = PDict d" by (auto simp: is_dict_iff split: if_splits)
  then show ?thesis using run ok by (auto simp: raise_if_eq_Inr_iff)
qed

text \<open>
  When a deck or schema command succeeds, the foundation state of the gateway and, in the
  runtime stage, its runtime state were accepted, the manifest named the target, a token was
  configured, and the first request read the control plane's metadata, which carried status 200 and
  the identifier, name and endpoints of the target.
\<close>

theorem wp1_main_verified:
  assumes "wp1_main ip sha files api approved command gateway stage h = (Inr out, h')"
    and "command \<in> {''deck-diff'', ''deck-sync'', ''schema-check'', ''schema-sync''}"
  shows "\<exists>mi env d h1. local_manifest ip files gateway stage (removeprefix ''deck-'' command) = Inr (Some mi)
    \<and> validate_foundation_state files (gateway_key gateway) = Inr ()
    \<and> check_local_states files (gateway_key gateway) stage (removeprefix ''deck-'' command) = Inr ()
    \<and> read_env files ''.env'' = Inr env \<and> env_get env ''KONNECT_TOKEN'' [] \<noteq> []
    \<and> request_json (api (env_get env ''KONNECT_TOKEN'' []))
        (get_request (control_plane_url (py_rstrip (\<lambda>c. c = 47) (mi_server_url mi)) (mi_target mi)) []) h
      = (Inr (200, PDict d), h1)
    \<and> remote_matches (mi_target mi) (unwrap_data d)"
proof -
  let ?op = "removeprefix ''deck-'' command"
  have op: "?op \<notin> {''preflight'', ''validate''}"
    using assms(2) by (auto simp: removeprefix_def starts_with_def)
  obtain mi env where info: "local_manifest ip files gateway stage ?op = Inr (Some mi)"
    and env: "read_env files ''.env'' = Inr env" "env_get env ''KONNECT_TOKEN'' [] \<noteq> []"
    and run: "main_remote sha files (api (env_get env ''KONNECT_TOKEN'' [])) approved gateway ?op
         (py_rstrip (\<lambda>c. c = 47) (mi_server_url mi)) (mi_target mi) h = (Inr out, h')"
    using assms(1) op
    by (auto simp: wp1_main_def abind_Inr_iff Let_def split: if_splits option.splits)
  have local: "validate_foundation_state files (gateway_key gateway) = Inr ()"
    "check_local_states files (gateway_key gateway) stage ?op = Inr ()"
    using info by (auto simp: local_manifest_def Let_def rbind_eq_Inr_iff)
  obtain u h1 where "verify_remote_target (api (env_get env ''KONNECT_TOKEN'' []))
      (py_rstrip (\<lambda>c. c = 47) (mi_server_url mi)) (mi_target mi) h = (Inr u, h1)"
    using run unfolding main_remote_def abind_Inr_iff by blast
  from verify_remote_target_Inr [OF this] show ?thesis using info env local by blast
qed

section \<open>The certificate pattern\<close>

definition newline :: "pystr \<Rightarrow> bool" where
  "newline n \<longleftrightarrow> n = [10] \<or> n = [13, 10]"

definition pem_row :: "pystr \<times> pystr \<Rightarrow> bool" where
  "pem_row r \<longleftrightarrow> fst r \<noteq> [] \<and> list_all is_pem_char (fst r) \<and> newline (snd r)"

definition pem_rows :: "(pystr \<times> pystr) list \<Rightarrow> pystr" where
  "pem_rows rows = concat (map (\<lambda>(l, n). l @ n) rows)"

lemma drop_newline_iff: "drop_newline s = Some t \<longleftrightarrow> (\<exists>n. newline n \<and> s = n @ t)"
  by (cases s) (auto simp: drop_newline_def newline_def starts_with_iff)

lemma newline_head: "newline n \<Longrightarrow> \<exists>c m. n = c # m \<and> \<not> is_pem_char c"
  by (auto simp: newline_def is_pem_char_def is_alpha_def is_digit_def)

lemma pem_run:
  assumes "list_all is_pem_char l" "newline n"
  shows "takeWhile is_pem_char (l @ n @ rest) = l" "dropWhile is_pem_char (l @ n @ rest) = n @ rest"
  using assms newline_head [OF assms(2)] by (auto simp: takeWhile_append dropWhile_append list_all_iff)

lemma PEM_END_head: "\<exists>m. PEM_END = 45 # m" "\<not> is_pem_char 45"
  by (simp_all add: PEM_END_def lit_def is_pem_char_def is_alpha_def is_digit_def)

lemma pem_lines_iff:
  "pem_lines s \<longleftrightarrow>
   (\<exists>rows z. rows \<noteq> [] \<and> list_all pem_row rows \<and> s = pem_rows rows @ PEM_END @ z \<and> list_all ascii_space z)"
proof (induction s rule: pem_lines.induct)
  case (1 s)
  let ?l = "takeWhile is_pem_char s"
  let ?d = "dropWhile is_pem_char s"
  show ?case (is "_ \<longleftrightarrow> (\<exists>rows z. ?P rows z)")
  proof
    assume lines: "pem_lines s"
    then have l: "?l \<noteq> []" by (subst (asm) pem_lines.simps) (auto split: if_splits)
    obtain t where t: "drop_newline ?d = Some t" using lines l
      by (subst (asm) pem_lines.simps) (auto split: option.splits)
    then obtain n where n: "newline n" "?d = n @ t" by (auto simp: drop_newline_iff)
    have row: "pem_row (?l, n)" using l n(1) by (auto simp: pem_row_def list_all_iff dest: set_takeWhileD)
    have s: "s = ?l @ n @ t" using n(2) by (metis takeWhile_dropWhile_id)
    show "\<exists>rows z. ?P rows z"
    proof (cases "starts_with PEM_END t")
      case True
      then obtain z where z: "t = PEM_END @ z" by (auto simp: starts_with_iff)
      have "list_all ascii_space z" using lines l t True z by (subst (asm) pem_lines.simps) simp
      then have "?P [(?l, n)] z" using row s z by (simp add: pem_rows_def)
      then show ?thesis by blast
    next
      case False
      then have "pem_lines t" using lines l t by (subst (asm) pem_lines.simps) simp
      then obtain rows z where "rows \<noteq> []" "list_all pem_row rows" "t = pem_rows rows @ PEM_END @ z" "list_all ascii_space z"
        using "1.IH" [OF l t False] by blast
      then have "?P ((?l, n) # rows) z" using row s by (simp add: pem_rows_def)
      then show ?thesis by blast
    qed
  next
    assume "\<exists>rows z. ?P rows z"
    then obtain row rows z where P: "?P (row # rows) z" by (metis neq_Nil_conv)
    define t where "t = pem_rows rows @ PEM_END @ z"
    obtain l n where row: "row = (l, n)" "l \<noteq> []" "list_all is_pem_char l" "newline n"
      using P by (cases row) (auto simp: pem_row_def)
    have s: "s = l @ n @ t" using P row(1) by (simp add: pem_rows_def t_def)
    note run = pem_run [OF row(3,4), of t, folded s]
    have t: "drop_newline ?d = Some t" using run(2) row(4) by (auto simp: drop_newline_iff)
    show "pem_lines s"
    proof (cases rows)
      case Nil
      then have "t = PEM_END @ z" by (simp add: t_def pem_rows_def)
      then show ?thesis using P run(1) t row(2) by (subst pem_lines.simps) simp
    next
      case (Cons r rs)
      then obtain c m where "t = c # m" "is_pem_char c" using P
        by (cases r; cases "fst r") (auto simp: t_def pem_rows_def pem_row_def)
      moreover obtain e where "PEM_END = 45 # e" using PEM_END_head(1) by blast
      ultimately have no_end: "\<not> starts_with PEM_END t" using PEM_END_head(2) by (metis starts_with_Cons)
      have "pem_lines t" using "1.IH" [OF _ t no_end] run(1) row(2) P Cons by (auto simp: t_def)
      then show ?thesis using no_end run(1) t row(2) by (subst pem_lines.simps) simp
    qed
  qed
qed

text \<open>
  The certificate pattern accepts exactly the texts of one PEM block: white space, the begin
  line, at least one line of base64 characters, the end line, white space.
\<close>

theorem single_certificate_pem_iff:
  "single_certificate_pem s \<longleftrightarrow>
   (\<exists>w n rows z. s = w @ PEM_BEGIN @ n @ pem_rows rows @ PEM_END @ z
      \<and> list_all ascii_space w \<and> newline n \<and> rows \<noteq> [] \<and> list_all pem_row rows \<and> list_all ascii_space z)"
  (is "_ \<longleftrightarrow> ?r")
proof
  assume pem: "single_certificate_pem s"
  let ?b = "dropWhile ascii_space s"
  obtain t where b: "starts_with PEM_BEGIN ?b" and t: "drop_newline (drop (length PEM_BEGIN) ?b) = Some t" "pem_lines t"
    using pem by (auto simp: single_certificate_pem_def Let_def split: option.splits)
  obtain n where n: "newline n" "drop (length PEM_BEGIN) ?b = n @ t" using t(1) by (auto simp: drop_newline_iff)
  have "?b = PEM_BEGIN @ n @ t" using b n(2) by (auto simp: starts_with_iff)
  then have "s = takeWhile ascii_space s @ PEM_BEGIN @ n @ t" by (metis takeWhile_dropWhile_id)
  moreover have "list_all ascii_space (takeWhile ascii_space s)" by (auto simp: list_all_iff dest: set_takeWhileD)
  moreover obtain rows z where "rows \<noteq> []" "list_all pem_row rows" "t = pem_rows rows @ PEM_END @ z" "list_all ascii_space z"
    using t(2) unfolding pem_lines_iff by blast
  ultimately show ?r using n(1) by blast
next
  assume ?r
  then obtain w n rows z where s: "s = w @ PEM_BEGIN @ n @ pem_rows rows @ PEM_END @ z"
    and ok: "list_all ascii_space w" "newline n" "rows \<noteq> []" "list_all pem_row rows" "list_all ascii_space z"
    by blast
  have "\<not> ascii_space (hd (PEM_BEGIN @ x))" "PEM_BEGIN @ x \<noteq> []" for x
    by (simp_all add: PEM_BEGIN_def lit_def ascii_space_def)
  then have "dropWhile ascii_space (PEM_BEGIN @ x) = PEM_BEGIN @ x" for x by (simp add: dropWhile_eq_self_iff)
  then have b: "dropWhile ascii_space s = PEM_BEGIN @ n @ pem_rows rows @ PEM_END @ z"
    using ok(1) s by (simp add: dropWhile_append2 list_all_iff)
  have "drop_newline (n @ pem_rows rows @ PEM_END @ z) = Some (pem_rows rows @ PEM_END @ z)"
    using ok(2) by (auto simp: drop_newline_iff)
  moreover have "pem_lines (pem_rows rows @ PEM_END @ z)" unfolding pem_lines_iff using ok by blast
  ultimately show "single_certificate_pem s" by (simp add: single_certificate_pem_def b)
qed

section \<open>A concrete run\<close>

definition demo_floats :: float_codec where
  "demo_floats = \<lparr>of_text = (\<lambda>_. FNan), to_text = (\<lambda>_. [])\<rparr>"

definition demo_interp :: interp where
  "demo_interp = \<lparr>ip_url = no_checks, ip_floats = demo_floats, ip_depth = 10\<rparr>"

definition demo_certificate :: "string \<Rightarrow> string \<Rightarrow> string \<Rightarrow> ynode" where
  "demo_certificate i cert_env key_ref = YMap
     [(YScalar (S ''id''), YScalar (S i)), (YScalar (S ''cert''), YScalar (foundation_template cert_env)),
      (YScalar (S ''key''), YScalar (S key_ref)),
      (YScalar (S ''tags''), YSeq [YScalar (S ''fapi2-demo''), YScalar (S ''fapi2-foundation'')])]"

definition demo_foundation :: ynode where
  "demo_foundation = YMap
     [(YScalar (S ''_format_version''), YScalar (S ''3.0'')),
      (YScalar (S ''_info''), YMap [(YScalar (S ''select_tags''),
         YSeq [YScalar (S ''fapi2-demo''), YScalar (S ''fapi2-foundation'')])]),
      (YScalar (S ''certificates''), YSeq
         [demo_certificate ''44444444-4444-4444-8444-444444444444'' ''DECK_API_INTROSPECTION_CERT_YAML''
            ''{vault://env/API_INTROSPECTION_KEY}'',
          demo_certificate ''55555555-5555-4555-8555-555555555555'' ''DECK_API_UPSTREAM_CERT_YAML''
            ''{vault://env/API_UPSTREAM_KEY}''])]"

definition demo_manifest :: pyval where
  "demo_manifest = PDict
     [(K ''konnect_server_url'', S ''https://us.api.konghq.com''),
      (K ''targets'', PDict
         [(K ''api'', PDict (sample_target UPPER_ID ''keycloak-fapi2-demo'')),
          (K ''third-party'', PDict (sample_target LOWER_ID ''keycloak-fapi2-third-party-demo''))])]"

text \<open>The files of the demonstration; \<open>z\<close> stands for what a larger file model adds.\<close>

definition demo_more :: "'z \<Rightarrow> 'z repo_scheme" where
  "demo_more z =
     \<lparr>is_file = (\<lambda>_. True), is_symlink = (\<lambda>_. False), file_exists = (\<lambda>_. True),
      read_text = (\<lambda>path. if path = ''.env'' then Inr (lit ''KONNECT_TOKEN=t'')
        else if path = ''.generated/gateway_targets.json'' then Inr (json_dumps demo_floats demo_manifest)
        else Inr []),
      compose = (\<lambda>_. Inr demo_foundation), \<dots> = z\<rparr>"

abbreviation demo_files :: repo where
  "demo_files \<equiv> demo_more ()"

definition demo_remote :: pydict where
  "demo_remote =
     [(K ''id'', S UPPER_ID), (K ''name'', S ''keycloak-fapi2-demo''),
      (K ''config'', PDict [(K ''control_plane_endpoint'', S ''https://cp.example''),
                            (K ''telemetry_endpoint'', S ''https://tp.example'')])]"

definition demo_api :: "pystr \<Rightarrow> konnect" where
  "demo_api token =
     \<lparr>answer = (\<lambda>_ _. if token = lit ''t'' then Answer 200 (json_body demo_floats (PDict demo_remote)) else HTTPError 401),
      kn_floats = demo_floats, kn_depth = 10, kn_wide = (\<lambda>_. Inl UnicodeDecodeError)\<rparr>"

definition demo_entity :: "string \<Rightarrow> string \<Rightarrow> string \<Rightarrow> pyval" where
  "demo_entity i cert_env key_ref = PDict
     [(K ''id'', S i), (K ''cert'', foundation_template cert_env), (K ''key'', S key_ref), (K ''tags'', FOUNDATION_TAGS)]"

lemma demo_entity:
  "construct_object (demo_certificate i e k) = Inr (demo_entity i e k)" "certificate_entity i e k (demo_entity i e k)"
  by (simp_all add: demo_certificate_def demo_entity_def has_key_def FOUNDATION_TAGS_def strs_def
      certificate_entity_def keys_are_def dict_simps)

lemma demo_validate_foundation: "validate_foundation_state (demo_more z) ''api'' = Inr ()"
proof -
  let ?a = "demo_entity ''44444444-4444-4444-8444-444444444444'' ''DECK_API_INTROSPECTION_CERT_YAML''
    ''{vault://env/API_INTROSPECTION_KEY}''"
  let ?b = "demo_entity ''55555555-5555-4555-8555-555555555555'' ''DECK_API_UPSTREAM_CERT_YAML''
    ''{vault://env/API_UPSTREAM_KEY}''"
  let ?d = "[(K ''_format_version'', S ''3.0''), (K ''_info'', obj [(''select_tags'', FOUNDATION_TAGS)]),
    (K ''certificates'', PList [?a, ?b])]"
  have parsed: "parse_foundation (demo_more z) ''kong/foundation/api.yaml'' = Inr ?d"
    by (simp add: parse_foundation_def parse_deck_state_def demo_more_def yaml_load_def contains_sub_iff
        demo_foundation_def demo_entity has_key_def obj_def strs_def FOUNDATION_TAGS_def)
  have "in_some_order
      (certificate_entity ''44444444-4444-4444-8444-444444444444'' ''DECK_API_INTROSPECTION_CERT_YAML''
         ''{vault://env/API_INTROSPECTION_KEY}'')
      (certificate_entity ''55555555-5555-4555-8555-555555555555'' ''DECK_API_UPSTREAM_CERT_YAML''
         ''{vault://env/API_UPSTREAM_KEY}'') [?a, ?b]"
    by (intro in_some_orderI(1) conjI demo_entity(2))
  moreover have "py_eq (obj [(''select_tags'', FOUNDATION_TAGS)]) (obj [(''select_tags'', FOUNDATION_TAGS)])"
    by (simp add: obj_def FOUNDATION_TAGS_def)
  ultimately have "api_foundation ?d"
    by (simp add: api_foundation_def foundation_header_def keys_within_def dict_simps del: py_eq.simps)
  then show ?thesis
    using parsed
    by (simp add: validate_foundation_state_def FOUNDATION_FILES_def check_api_iff demo_more_def)
qed

lemma demo_target_step:
  assumes "canonical_uuid (py_lower (lit i))" "lit i \<notin> set (ids seen)" "lit nm \<notin> set (names seen)"
    and "nm \<in> {''keycloak-fapi2-demo'', ''keycloak-fapi2-third-party-demo''}" "i \<in> {UPPER_ID, LOWER_ID}"
    and "map_of expected gateway = Some (lit nm)"
    and "dget ts gateway = PDict (sample_target i nm)" "dhas ts gateway"
  shows "\<exists>n. dget n ''control_plane_id'' = S i \<and> dget n ''control_plane_name'' = S nm
    \<and> dget n ''control_plane_endpoint'' = S ''https://cp.example'' \<and> dget n ''telemetry_endpoint'' = S ''https://tp.example''
    \<and> validate_target no_checks expected (PDict ts) seen gateway
    = Inr \<lparr>ids = lit i # ids seen, names = lit nm # names seen, normalized = normalized seen @ [(gateway, n)]\<rparr>"
proof -
  have "\<not> blank (S nm)" "\<not> blank (S i)"
    using assms(4,5) by (auto simp: blank_def UPPER_ID_def LOWER_ID_def lit_def py_strip_def py_lstrip_def
        py_rstrip_def py_isspace_def)
  moreover have "keys_are (sample_target i nm) TARGET_FIELDS"
    by (auto simp: sample_target_def keys_are_def TARGET_FIELDS_def)
  moreover have "dget (sample_target i nm) ''control_plane_id'' = S i"
    "dget (sample_target i nm) ''control_plane_name'' = S nm"
    "dget (sample_target i nm) ''control_plane_endpoint'' = S ''https://cp.example''"
    "dget (sample_target i nm) ''telemetry_endpoint'' = S ''https://tp.example''"
    by (simp_all add: sample_target_def dict_simps)
  ultimately show ?thesis
    using assms by (simp add: validate_target_def ditem_dget sample_hosts name_differs_def dmerge_def dict_simps)
qed

lemma demo_targets:
  fixes ts :: pydict
  defines "ts \<equiv> [(K ''api'', PDict (sample_target UPPER_ID ''keycloak-fapi2-demo'')),
      (K ''third-party'', PDict (sample_target LOWER_ID ''keycloak-fapi2-third-party-demo''))]"
  shows "\<exists>n m. dget n ''control_plane_id'' = S UPPER_ID \<and> dget n ''control_plane_name'' = S ''keycloak-fapi2-demo''
    \<and> dget n ''control_plane_endpoint'' = S ''https://cp.example'' \<and> dget n ''telemetry_endpoint'' = S ''https://tp.example''
    \<and> validate_targets no_checks (expected_names [(lit ''KONNECT_TOKEN'', x)]) (PDict ts) = Inr [(''api'', n), (''third-party'', m)]"
proof -
  let ?exp = "expected_names [(lit ''KONNECT_TOKEN'', x)]"
  have exp: "map_of ?exp ''api'' = Some (lit ''keycloak-fapi2-demo'')"
    "map_of ?exp ''third-party'' = Some (lit ''keycloak-fapi2-third-party-demo'')"
    by (simp_all add: expected_names_def env_get_def)
  have ts: "dget ts ''api'' = PDict (sample_target UPPER_ID ''keycloak-fapi2-demo'')" "dhas ts ''api''"
    "dget ts ''third-party'' = PDict (sample_target LOWER_ID ''keycloak-fapi2-third-party-demo'')" "dhas ts ''third-party''"
    by (simp_all add: ts_def dict_simps)
  obtain n where n: "dget n ''control_plane_id'' = S UPPER_ID" "dget n ''control_plane_name'' = S ''keycloak-fapi2-demo''"
    "dget n ''control_plane_endpoint'' = S ''https://cp.example''" "dget n ''telemetry_endpoint'' = S ''https://tp.example''"
    "validate_target no_checks ?exp (PDict ts) \<lparr>ids = [], names = [], normalized = []\<rparr> ''api''
     = Inr \<lparr>ids = [lit UPPER_ID], names = [lit ''keycloak-fapi2-demo''], normalized = [(''api'', n)]\<rparr>"
    using demo_target_step [OF sample_ids(1) _ _ _ _ exp(1) ts(1,2), of "\<lparr>ids = [], names = [], normalized = []\<rparr>"]
    by auto
  obtain m where m: "validate_target no_checks ?exp (PDict ts)
      \<lparr>ids = [lit UPPER_ID], names = [lit ''keycloak-fapi2-demo''], normalized = [(''api'', n)]\<rparr> ''third-party''
     = Inr \<lparr>ids = [lit LOWER_ID, lit UPPER_ID],
            names = [lit ''keycloak-fapi2-third-party-demo'', lit ''keycloak-fapi2-demo''],
            normalized = [(''api'', n), (''third-party'', m)]\<rparr>"
    using demo_target_step [OF sample_ids(2) _ _ _ _ exp(2) ts(3,4),
        of "\<lparr>ids = [lit UPPER_ID], names = [lit ''keycloak-fapi2-demo''], normalized = [(''api'', n)]\<rparr>"]
    by (auto simp: UPPER_ID_def LOWER_ID_def)
  have "set_of (PDict ts) = Inr [K ''api'', K ''third-party'']" by (simp add: ts_def)
  then have "validate_targets no_checks ?exp (PDict ts) = Inr [(''api'', n), (''third-party'', m)]"
    by (simp add: validate_targets_def n(5) m)
  then show ?thesis using n by blast
qed

lemma demo_env:
  "splitlines (lit ''KONNECT_TOKEN=t'') = [lit ''KONNECT_TOKEN=t'']"
  "read_env (demo_more z) ''.env'' = Inr [(lit ''KONNECT_TOKEN'', lit ''t'')]"
  "read_config (demo_more z) = Inr []"
proof -
  show lines: "splitlines (lit ''KONNECT_TOKEN=t'') = [lit ''KONNECT_TOKEN=t'']"
    by (simp add: splitlines_def lit_def is_line_end_def)
  have strip: "py_strip (lit ''KONNECT_TOKEN=t'') = lit ''KONNECT_TOKEN=t''" "unquote (lit ''t'') = lit ''t''"
    by (simp_all add: unquote_def py_strip_def py_lstrip_def py_rstrip_def py_isspace_def is_quote_def lit_def)
  have part: "py_partition 61 (lit ''KONNECT_TOKEN=t'') = (lit ''KONNECT_TOKEN'', True, lit ''t'')"
    "61 \<in> set (lit ''KONNECT_TOKEN=t'')" "\<not> starts_with [35] (lit ''KONNECT_TOKEN=t'')"
    by (simp_all add: py_partition_def lit_def starts_with_def)
  have name: "is_env_name (lit ''KONNECT_TOKEN'')" by (simp add: is_env_name_def lit_def is_alpha_def)
  show "read_env (demo_more z) ''.env'' = Inr [(lit ''KONNECT_TOKEN'', lit ''t'')]"
    using strip part name
    by (simp add: read_env_def read_assignments_def demo_more_def lines read_line_def Let_def)
  show "read_config (demo_more z) = Inr []"
    using strip part
    by (simp add: read_config_def read_assignments_def demo_more_def lines read_line_def Let_def CONFIG_KEYS_def)
qed

lemma demo_region: "endpoint_host no_checks (S ''https://us.api.konghq.com'') = Inr (lit ''us.api.konghq.com'')"
  by (simp add: endpoint_host_def urlsplit_def url_clean_def split_scheme_def split_netloc_def
      check_netloc_def py_partition_def hostname_def host_port_def user_host_def username_def password_def
      port_def py_strip_def py_lstrip_def py_rstrip_def py_isspace_def py_lower_def latin1_lower_def
      is_alpha_def is_scheme_char_def is_digit_def lit_def Let_def)

lemma demo_local_manifest:
  "\<exists>mi. local_manifest demo_interp (demo_more z) (lit ''api'') (Some (lit ''foundation'')) ''diff'' = Inr (Some mi)
    \<and> mi_server_url mi = lit ''https://us.api.konghq.com''
    \<and> dget (mi_target mi) ''control_plane_id'' = S UPPER_ID
    \<and> remote_matches (mi_target mi) (PDict demo_remote)"
proof -
  let ?ts = "PDict [(K ''api'', PDict (sample_target UPPER_ID ''keycloak-fapi2-demo'')),
      (K ''third-party'', PDict (sample_target LOWER_ID ''keycloak-fapi2-third-party-demo''))]"
  have "json_plain demo_manifest" "json_depth demo_manifest \<le> 10"
    by (simp_all add: demo_manifest_def sample_target_def lit_scalar)
  then have json: "json_loads (plain_opts demo_floats) 10 (json_dumps demo_floats demo_manifest) = Inr demo_manifest"
    by (intro json_loads_dumps plain_opts_keeps_pairs)
  have exp: "expected_names [] = expected_names [(lit ''KONNECT_TOKEN'', [])]"
    by (simp add: expected_names_def env_get_def)
  obtain n m where n: "dget n ''control_plane_id'' = S UPPER_ID" "dget n ''control_plane_name'' = S ''keycloak-fapi2-demo''"
    "dget n ''control_plane_endpoint'' = S ''https://cp.example''" "dget n ''telemetry_endpoint'' = S ''https://tp.example''"
    "validate_targets no_checks (expected_names []) ?ts = Inr [(''api'', n), (''third-party'', m)]"
    using demo_targets [of "[]"] unfolding exp [symmetric] by blast
  have slash: "py_rstrip (\<lambda>c. c = 47) (lit ''https://us.api.konghq.com'') = lit ''https://us.api.konghq.com''"
    by (simp add: py_rstrip_def lit_def)
  have sub: "subscript demo_manifest ''targets'' = Inr ?ts"
    "subscript demo_manifest ''konnect_server_url'' = Inr (S ''https://us.api.konghq.com'')"
    "set_of demo_manifest = Inr [K ''konnect_server_url'', K ''targets'']"
    by (simp_all add: demo_manifest_def ditem_def)
  have demo: "is_file (demo_more z) p" "read_text (demo_more z) ''.generated/gateway_targets.json'' = Inr (json_dumps demo_floats demo_manifest)" for p
    by (simp_all add: demo_more_def)
  have manifest: "read_manifest demo_interp (demo_more z) ''api''
      = Inr \<lparr>mi_server_url = lit ''https://us.api.konghq.com'', mi_targets = [(''api'', n), (''third-party'', m)], mi_target = n\<rparr>"
    using n(5) json
    by (simp add: read_manifest_def demo_interp_def demo sub demo_env(3) env_get_def slash demo_region Let_def)
  have states: "check_local_states (demo_more z) ''api'' (Some (lit ''foundation'')) ''diff'' = Inr ()"
    by (simp add: check_local_states_def demo Let_def)
  have "local_manifest demo_interp (demo_more z) (lit ''api'') (Some (lit ''foundation'')) ''diff'' = Inr (Some
      \<lparr>mi_server_url = lit ''https://us.api.konghq.com'', mi_targets = [(''api'', n), (''third-party'', m)], mi_target = n\<rparr>)"
    by (simp add: local_manifest_def validate_selector_def starts_with_def gateway_key_def
        demo_validate_foundation states manifest Let_def)
  moreover have "remote_matches n (PDict demo_remote)"
    using n by (simp add: remote_matches_def demo_remote_def dict_simps)
  ultimately show ?thesis using n(1) by simp
qed

lemma demo_request: "request_json (demo_api (lit ''t'')) rq h = (Inr (200, PDict demo_remote), h @ [rq])"
proof -
  have "json_plain (PDict demo_remote)" "json_depth (PDict demo_remote) \<le> kn_depth (demo_api (lit ''t''))"
    by (simp_all add: demo_remote_def lit_scalar demo_api_def)
  then have "response_value (demo_api (lit ''t'')) (json_body demo_floats (PDict demo_remote)) = Inr (PDict demo_remote)"
    by (rule response_value_body)
  moreover have "json_body demo_floats (PDict demo_remote) \<noteq> []" by (simp add: json_body_def json_dumps_def)
  ultimately show ?thesis by (simp add: request_json_def) (simp add: demo_api_def)
qed

lemma demo_run:
  "\<exists>h'. wp1_main demo_interp id demo_files demo_api None ''deck-diff'' (lit ''api'') (Some (lit ''foundation'')) [] = (Inr [], h')"
proof -
  obtain mi where mi: "local_manifest demo_interp demo_files (lit ''api'') (Some (lit ''foundation'')) ''diff'' = Inr (Some mi)"
    "remote_matches (mi_target mi) (PDict demo_remote)"
    using demo_local_manifest [where z = "()"] by blast
  have op: "removeprefix ''deck-'' ''deck-diff'' = ''diff''" by (simp add: removeprefix_def starts_with_def)
  have "unwrap_data demo_remote = PDict demo_remote" by (simp add: unwrap_data_def demo_remote_def dict_simps)
  then show ?thesis
    using mi
    by (simp add: wp1_main_def op abind_def pure_def demo_env(2) env_get_def Let_def main_remote_def
        verify_remote_target_def demo_request)
qed

theorem wp1_main_requests_witness:
  "\<exists>h'. wp1_main demo_interp id demo_files demo_api None ''deck-diff'' (lit ''api'') (Some (lit ''foundation'')) [] = (Inr [], h')
    \<and> list_all (\<lambda>rq. rq_method rq = GET) h'"
proof -
  obtain h' where run: "wp1_main demo_interp id demo_files demo_api None ''deck-diff'' (lit ''api'') (Some (lit ''foundation'')) []
      = (Inr [], h')"
    using demo_run by blast
  have "''deck-diff'' \<in> set OPERATIONS" by (simp add: OPERATIONS_def)
  from wp1_main_requests [OF run this] have "list_all (\<lambda>rq. rq_method rq = GET) h'" by (auto simp: list_all_iff)
  then show ?thesis using run by blast
qed

theorem wp1_main_verified_witness:
  "\<exists>mi. local_manifest demo_interp demo_files (lit ''api'') (Some (lit ''foundation'')) (removeprefix ''deck-'' ''deck-diff'') = Inr (Some mi)
    \<and> validate_foundation_state demo_files (gateway_key (lit ''api'')) = Inr ()"
proof -
  obtain h' where run: "wp1_main demo_interp id demo_files demo_api None ''deck-diff'' (lit ''api'') (Some (lit ''foundation'')) []
      = (Inr [], h')"
    using demo_run by blast
  show ?thesis using wp1_main_verified [OF run] by blast
qed

end
