(* ===== verification/Dev_Pki.thy ===== *)
theory Dev_Pki
  imports Py_Json
begin

text \<open>
  \<open>src/scripts/generate-pki.py\<close>: the development certificate authority and the twelve certificate
  identities signed by it.

  The directory maps file names to what \<open>exists\<close> and \<open>is_file\<close> see of them. Running \<open>openssl\<close>, writing
  a text file and unlinking one are parameters: each may fail, and what it leaves in the directory is
  part of its result.
\<close>

section \<open>The directory\<close>

datatype entry = Regular pystr | Special

type_synonym directory = "string \<Rightarrow> entry option"

definition there :: "directory \<Rightarrow> string \<Rightarrow> bool" where
  "there d f \<longleftrightarrow> d f \<noteq> None"

definition regular :: "directory \<Rightarrow> string \<Rightarrow> bool" where
  "regular d f \<longleftrightarrow> (case d f of Some (Regular _) \<Rightarrow> True | _ \<Rightarrow> False)"

record pki_system =
  pk_dir :: pystr
  pk_mkdir :: "unit res"
  pk_openssl :: "pystr list \<Rightarrow> (directory, unit) stateful"
  pk_write :: "string \<Rightarrow> pystr \<Rightarrow> (directory, unit) stateful"
  pk_unlink :: "string \<Rightarrow> (directory, unit) stateful"

definition pki_path :: "pki_system \<Rightarrow> string \<Rightarrow> pystr" where
  "pki_path w f = pk_dir w @ lit ''/'' @ lit f"

section \<open>The certificate authority\<close>

definition ca_command :: "pki_system \<Rightarrow> pystr list" where
  "ca_command w =
     map lit [''openssl'', ''req'', ''-x509'', ''-newkey'', ''rsa:4096'', ''-sha256'', ''-nodes'', ''-days'', ''30'',
       ''-addext'', ''basicConstraints=critical,CA:TRUE'',
       ''-addext'', ''keyUsage=critical,keyCertSign,cRLSign'',
       ''-addext'', ''subjectKeyIdentifier=hash'',
       ''-subj'', ''/CN=FAPI demo development CA'', ''-keyout'']
     @ [pki_path w ''ca.key'', lit ''-out'', pki_path w ''ca.crt'']"

definition ensure_ca :: "pki_system \<Rightarrow> (directory, unit) stateful" where
  "ensure_ca w d =
     (if there d ''ca.key'' \<or> there d ''ca.crt''
      then (if regular d ''ca.key'' \<and> regular d ''ca.crt'' then Inr ()
            else raiseV ''refusing to overwrite incomplete development CA'', d)
      else pk_openssl w (ca_command w) d)"

section \<open>One identity\<close>

definition key_command :: "pki_system \<Rightarrow> string \<Rightarrow> pystr list" where
  "key_command w key =
     map lit [''openssl'', ''genpkey'', ''-algorithm'', ''RSA'', ''-pkeyopt'', ''rsa_keygen_bits:3072'', ''-out''] @ [pki_path w key]"

definition csr_command :: "pki_system \<Rightarrow> string \<Rightarrow> string \<Rightarrow> string \<Rightarrow> pystr list" where
  "csr_command w key common_name csr =
     map lit [''openssl'', ''req'', ''-new'', ''-key''] @ [pki_path w key] @ map lit [''-subj'', ''/CN='' @ common_name, ''-out'']
     @ [pki_path w csr]"

definition extension_text :: "string \<Rightarrow> string \<Rightarrow> pystr" where
  "extension_text usage san =
     join [10] (map lit ([''basicConstraints=critical,CA:FALSE'', ''keyUsage=critical,digitalSignature,keyEncipherment'',
         ''extendedKeyUsage='' @ usage] @ (if san \<noteq> [] then [''subjectAltName='' @ san] else []))) @ [10]"

definition sign_command :: "pki_system \<Rightarrow> string \<Rightarrow> string \<Rightarrow> string \<Rightarrow> pystr list" where
  "sign_command w csr extension cert =
     map lit [''openssl'', ''x509'', ''-req'', ''-in''] @ [pki_path w csr, lit ''-CA'', pki_path w ''ca.crt'',
       lit ''-CAkey'', pki_path w ''ca.key''] @ map lit [''-CAcreateserial'', ''-days'', ''30'', ''-sha256'', ''-extfile'']
     @ [pki_path w extension, lit ''-out'', pki_path w cert]"

definition issue :: "pki_system \<Rightarrow> string \<times> string \<times> string \<times> string \<Rightarrow> (directory, unit) stateful" where
  "issue w identity d =
     (case identity of (name, common_name, usage, san) \<Rightarrow>
      let cert = name @ ''.crt''; key = name @ ''.key''; csr = name @ ''.csr''; extension = name @ ''.ext'' in
      if there d cert \<or> there d key \<or> there d csr \<or> there d extension
      then (if regular d cert \<and> regular d key \<and> \<not> there d csr \<and> \<not> there d extension then Inr ()
            else raiseV (''refusing to overwrite incomplete certificate identity: '' @ name), d)
      else abind (pk_openssl w (key_command w key)) (\<lambda>_.
           abind (pk_openssl w (csr_command w key common_name csr)) (\<lambda>_.
           abind (pk_write w extension (extension_text usage san)) (\<lambda>_.
           abind (pk_openssl w (sign_command w csr extension cert)) (\<lambda>_.
           abind (pk_unlink w csr) (\<lambda>_.
           pk_unlink w extension))))) d)"

section \<open>The script\<close>

definition identities :: "(string \<times> string \<times> string \<times> string) list" where
  "identities =
     [(''keycloak'', ''keycloak'', ''serverAuth'', ''DNS:keycloak,DNS:localhost,IP:127.0.0.1''),
      (''kong-proxy'', ''localhost'', ''serverAuth'', ''DNS:localhost,IP:127.0.0.1''),
      (''ui'', ''localhost'', ''serverAuth'', ''DNS:localhost,IP:127.0.0.1''),
      (''pop-verifier'', ''pop-verifier'', ''serverAuth'', ''DNS:pop-verifier,DNS:localhost,IP:127.0.0.1''),
      (''route-a'', ''kong-fapi-mtls'', ''clientAuth'', ''''),
      (''route-b'', ''kong-fapi-pkj-mtls'', ''clientAuth'', ''''),
      (''third-party-backend'', ''third-party-backend'', ''serverAuth'', ''DNS:third-party-backend''),
      (''third-party-backend-hop'', ''third-party-backend-hop'', ''clientAuth'', ''''),
      (''third-party-metadata'', ''third-party-metadata'', ''clientAuth'', ''''),
      (''api-gateway'', ''kong-api'', ''serverAuth'', ''DNS:kong-api,DNS:localhost,IP:127.0.0.1''),
      (''api-introspection'', ''api-gateway-introspection'', ''clientAuth'', ''''),
      (''api-upstream'', ''api-gateway-upstream'', ''clientAuth'', '''')]"

text \<open>\<open>main\<close> without the usage message; \<open>argc\<close> is the number of arguments, the program's name included.\<close>

definition pki_main :: "pki_system \<Rightarrow> nat \<Rightarrow> (directory, int) stateful" where
  "pki_main w argc =
     (if argc \<noteq> 2 then pure (Inr 2)
      else abind (pure (pk_mkdir w)) (\<lambda>_.
           abind (ensure_ca w) (\<lambda>_.
           abind (each (issue w) identities) (\<lambda>_.
           pure (Inr 0)))))"

definition pki_exit_status :: "int res \<Rightarrow> int" where
  "pki_exit_status r = (case r of Inr code \<Rightarrow> code | Inl _ \<Rightarrow> 1)"

section \<open>What is assumed of the system\<close>

text \<open>
  The files a command names after \<open>-out\<close> and \<open>-keyout\<close>. \<open>openssl\<close> writes no other file, except the
  serial number file of the authority under \<open>-CAcreateserial\<close>, and has written all of them when it
  succeeds; writing and unlinking affect the one file they are given.
\<close>

fun output_arguments :: "pystr list \<Rightarrow> pystr list" where
  "output_arguments (a # b # cmd) =
     (if a = lit ''-out'' \<or> a = lit ''-keyout'' then b # output_arguments cmd else output_arguments (b # cmd))"
| "output_arguments _ = []"

definition only_changes :: "string set \<Rightarrow> directory \<Rightarrow> directory \<Rightarrow> bool" where
  "only_changes fs d d' \<longleftrightarrow> (\<forall>f. f \<notin> fs \<longrightarrow> d' f = d f)"

definition written_by :: "pki_system \<Rightarrow> pystr list \<Rightarrow> string set" where
  "written_by w cmd = {f. pki_path w f \<in> set (output_arguments cmd)}"

definition sound_system :: "pki_system \<Rightarrow> bool" where
  "sound_system w \<longleftrightarrow>
     (\<forall>cmd d r d'. pk_openssl w cmd d = (r, d') \<longrightarrow>
        only_changes (written_by w cmd \<union> (if lit ''-CAcreateserial'' \<in> set cmd then {''ca.srl''} else {})) d d'
        \<and> (r = Inr () \<longrightarrow> (\<forall>f \<in> written_by w cmd. regular d' f)))
     \<and> (\<forall>f t d r d'. pk_write w f t d = (r, d') \<longrightarrow> only_changes {f} d d')
     \<and> (\<forall>f d r d'. pk_unlink w f d = (r, d') \<longrightarrow> only_changes {f} d d' \<and> (r = Inr () \<longrightarrow> \<not> there d' f))"

section \<open>Which files an action changes\<close>

lemma pki_path_eq [simp]: "pki_path w f = pki_path w g \<longleftrightarrow> f = g"
  by (simp add: pki_path_def)

lemma pki_path_no_option [simp]: "pki_path w f \<noteq> lit ''-out''" "pki_path w f \<noteq> lit ''-keyout''"
proof -
  have "47 \<in> set (pki_path w f)" by (simp add: pki_path_def lit_def)
  moreover have "47 \<notin> set (lit ''-out'')" "47 \<notin> set (lit ''-keyout'')"
    by (simp_all add: lit_def)
  ultimately show "pki_path w f \<noteq> lit ''-out''" "pki_path w f \<noteq> lit ''-keyout''" by metis+
qed

lemma written_by_commands:
  "written_by w (ca_command w) = {''ca.key'', ''ca.crt''}"
  "written_by w (key_command w key) = {key}"
  "written_by w (csr_command w key common_name csr) = {csr}"
  "written_by w (sign_command w csr extension cert) = {cert}"
  by (auto simp: written_by_def ca_command_def key_command_def csr_command_def sign_command_def)

lemma reflp_changes: "reflp (only_changes fs)" by (simp add: reflp_def only_changes_def)

lemma transp_changes: "transp (only_changes fs)" by (simp add: transp_def only_changes_def)

lemma changes_mono: "only_changes fs d d' \<Longrightarrow> fs \<subseteq> gs \<Longrightarrow> only_changes gs d d'"
  by (auto simp: only_changes_def)

lemma openssl_run:
  assumes "sound_system w" "pk_openssl w cmd d = (r, d')"
  shows "only_changes (written_by w cmd \<union> {''ca.srl''}) d d'"
    and "r = Inr () \<Longrightarrow> f \<in> written_by w cmd \<Longrightarrow> regular d' f"
proof -
  have sound: "only_changes (written_by w cmd \<union> (if lit ''-CAcreateserial'' \<in> set cmd then {''ca.srl''} else {})) d d'
      \<and> (r = Inr () \<longrightarrow> (\<forall>f \<in> written_by w cmd. regular d' f))"
    using assms unfolding sound_system_def by blast
  show "only_changes (written_by w cmd \<union> {''ca.srl''}) d d'" by (rule changes_mono [OF conjunct1 [OF sound]]) auto
  show "regular d' f" if "r = Inr ()" "f \<in> written_by w cmd" using sound that by blast
qed

lemma write_run: "sound_system w \<Longrightarrow> pk_write w f t d = (r, d') \<Longrightarrow> only_changes {f} d d'"
  unfolding sound_system_def by blast

lemma unlink_run:
  "sound_system w \<Longrightarrow> pk_unlink w f d = (r, d') \<Longrightarrow> only_changes {f} d d' \<and> (r = Inr () \<longrightarrow> \<not> there d' f)"
  unfolding sound_system_def by blast

lemma system_changes:
  assumes "sound_system w"
  shows "written_by w cmd \<union> {''ca.srl''} \<subseteq> fs \<Longrightarrow> relates (only_changes fs) (pk_openssl w cmd)"
    and "f \<in> fs \<Longrightarrow> relates (only_changes fs) (pk_write w f t)"
    and "f \<in> fs \<Longrightarrow> relates (only_changes fs) (pk_unlink w f)"
  unfolding relates_def
  using openssl_run(1) [OF assms] write_run [OF assms] unlink_run [OF assms] by (blast intro: changes_mono)+

definition identity_files :: "string \<Rightarrow> string set" where
  "identity_files name = {name @ ''.crt'', name @ ''.key'', name @ ''.csr'', name @ ''.ext''}"

lemma issue_changes:
  assumes w: "sound_system w"
  shows "relates (only_changes (identity_files name \<union> {''ca.srl''})) (issue w (name, common_name, usage, san))"
proof -
  let ?R = "only_changes (identity_files name \<union> {''ca.srl''})"
  let ?chain = "abind (pk_openssl w (key_command w (name @ ''.key''))) (\<lambda>_.
           abind (pk_openssl w (csr_command w (name @ ''.key'') common_name (name @ ''.csr''))) (\<lambda>_.
           abind (pk_write w (name @ ''.ext'') (extension_text usage san)) (\<lambda>_.
           abind (pk_openssl w (sign_command w (name @ ''.csr'') (name @ ''.ext'') (name @ ''.crt''))) (\<lambda>_.
           abind (pk_unlink w (name @ ''.csr'')) (\<lambda>_.
           pk_unlink w (name @ ''.ext''))))))"
  have "relates ?R ?chain"
    by (intro relates_abind transp_changes system_changes [OF w]) (simp_all add: written_by_commands identity_files_def)
  then show ?thesis
    unfolding relates_def issue_def by (auto simp: Let_def only_changes_def split: if_splits)
qed

text \<open>What exists is left alone, on every outcome; only the serial number file may be rewritten.\<close>

definition kept :: "directory \<Rightarrow> directory \<Rightarrow> bool" where
  "kept d d' \<longleftrightarrow> (\<forall>f x. d f = Some x \<longrightarrow> f \<noteq> ''ca.srl'' \<longrightarrow> d' f = Some x)"

lemma reflp_kept: "reflp kept" by (simp add: reflp_def kept_def)

lemma transp_kept: "transp kept" by (auto simp: transp_def kept_def)

lemma kept_if_absent: "only_changes fs d d' \<Longrightarrow> (\<And>f. f \<in> fs \<Longrightarrow> f = ''ca.srl'' \<or> \<not> there d f) \<Longrightarrow> kept d d'"
  by (auto simp: only_changes_def kept_def there_def) (metis option.distinct(1))

lemma issue_kept: "sound_system w \<Longrightarrow> relates kept (issue w i)"
proof (cases i)
  case (fields name common_name usage san)
  assume w: "sound_system w"
  have "kept d d'" if "issue w i d = (r, d')" for d r d'
  proof (cases "\<exists>f \<in> identity_files name. there d f")
    case True
    then have "d' = d" using that fields by (auto simp: issue_def Let_def identity_files_def split: if_splits)
    then show ?thesis by (simp add: kept_def)
  next
    case False
    then show ?thesis
      using relates_run [OF issue_changes [OF w], of name common_name usage san d r d'] that fields by (auto intro: kept_if_absent)
  qed
  then show ?thesis by (simp add: relates_def)
qed

lemma ensure_ca_kept: "sound_system w \<Longrightarrow> relates kept (ensure_ca w)"
proof -
  assume w: "sound_system w"
  have "kept d d'" if "ensure_ca w d = (r, d')" for d r d'
  proof (cases "there d ''ca.key'' \<or> there d ''ca.crt''")
    case True
    then show ?thesis using that by (auto simp: ensure_ca_def kept_def)
  next
    case False
    then have "only_changes ({''ca.key'', ''ca.crt''} \<union> {''ca.srl''}) d d'"
      using openssl_run(1) [OF w] that unfolding written_by_commands(1) [of w, symmetric] by (auto simp: ensure_ca_def)
    then show ?thesis by (rule kept_if_absent) (use False in auto)
  qed
  then show ?thesis by (simp add: relates_def)
qed

lemma pki_main_kept: "sound_system w \<Longrightarrow> relates kept (pki_main w argc)"
  unfolding pki_main_def
  by (auto intro!: relates_abind relates_pure relates_each reflp_kept transp_kept issue_kept ensure_ca_kept)

section \<open>Complete identities\<close>

definition complete_identity :: "directory \<Rightarrow> string \<Rightarrow> bool" where
  "complete_identity d name \<longleftrightarrow>
     regular d (name @ ''.crt'') \<and> regular d (name @ ''.key'') \<and> \<not> there d (name @ ''.csr'') \<and> \<not> there d (name @ ''.ext'')"

lemma regular_there: "regular d f \<Longrightarrow> there d f"
  by (auto simp: regular_def there_def split: option.splits)

lemma suffix_eq: "length x = 4 \<Longrightarrow> length y = 4 \<Longrightarrow> a @ x = b @ y \<longleftrightarrow> a = b \<and> x = y"
  by auto

lemma serial_suffix: "''ca.srl'' = ''ca'' @ ''.srl''" by simp

lemma identity_files_disjoint: "m \<noteq> n \<Longrightarrow> identity_files m \<inter> (identity_files n \<union> {''ca.srl''}) = {}"
  unfolding identity_files_def serial_suffix by (auto simp: suffix_eq simp del: append_Cons)

lemma complete_cong: "(\<And>f. f \<in> identity_files m \<Longrightarrow> d' f = d f) \<Longrightarrow> complete_identity d' m = complete_identity d m"
  by (simp add: complete_identity_def regular_def there_def identity_files_def)

lemma issue_done: "complete_identity d name \<Longrightarrow> issue w (name, common_name, usage, san) d = (Inr (), d)"
  by (auto simp: issue_def complete_identity_def Let_def regular_there)

lemma issue_keeps_complete: "sound_system w \<Longrightarrow> relates (\<lambda>d d'. complete_identity d m \<longrightarrow> complete_identity d' m) (issue w i)"
proof (cases i)
  case (fields name common_name usage san)
  assume w: "sound_system w"
  have "complete_identity d' m" if run: "issue w i d = (r, d')" and m: "complete_identity d m" for d r d'
  proof (cases "name = m")
    case True
    then show ?thesis using issue_done [OF m] run fields m by simp
  next
    case False
    have "only_changes (identity_files name \<union> {''ca.srl''}) d d'"
      using relates_run [OF issue_changes [OF w]] run fields by blast
    then have "d' f = d f" if "f \<in> identity_files m" for f
      using identity_files_disjoint [OF not_sym [OF False]] that unfolding only_changes_def by blast
    then show ?thesis using m complete_cong by blast
  qed
  then show ?thesis by (simp add: relates_def)
qed

lemma issue_completes:
  assumes w: "sound_system w" and run: "issue w (name, common_name, usage, san) d = (Inr (), d')"
  shows "complete_identity d' name"
proof (cases "\<exists>f \<in> identity_files name. there d f")
  case True
  then show ?thesis using run by (auto simp: issue_def Let_def identity_files_def complete_identity_def split: if_splits)
next
  case False
  let ?key = "name @ ''.key''" and ?csr = "name @ ''.csr''" and ?ext = "name @ ''.ext''" and ?crt = "name @ ''.crt''"
  obtain d1 d2 d3 d4 d5 where steps:
    "pk_openssl w (key_command w ?key) d = (Inr (), d1)"
    "pk_openssl w (csr_command w ?key common_name ?csr) d1 = (Inr (), d2)"
    "pk_write w ?ext (extension_text usage san) d2 = (Inr (), d3)"
    "pk_openssl w (sign_command w ?csr ?ext ?crt) d3 = (Inr (), d4)"
    "pk_unlink w ?csr d4 = (Inr (), d5)" "pk_unlink w ?ext d5 = (Inr (), d')"
    using run False by (auto simp: issue_def Let_def identity_files_def abind_Inr_iff)
  note ssl = openssl_run [OF w] and other = write_run [OF w] and unl = unlink_run [OF w]
  have neq: "?key \<noteq> ''ca.srl''" "?crt \<noteq> ''ca.srl''" unfolding serial_suffix by (simp_all add: suffix_eq del: append_Cons)
  have "regular d1 ?key" by (rule ssl(2) [OF steps(1)]) (simp_all add: written_by_commands)
  then have "regular d4 ?key"
    using ssl(1) [OF steps(2)] other [OF steps(3)] ssl(1) [OF steps(4)] neq
    by (simp add: written_by_commands only_changes_def regular_def)
  moreover have "regular d4 ?crt" by (rule ssl(2) [OF steps(4)]) (simp_all add: written_by_commands)
  ultimately show ?thesis
    using unl [OF steps(5)] unl [OF steps(6)] by (simp add: complete_identity_def only_changes_def regular_def there_def)
qed

lemma each_completes:
  assumes w: "sound_system w"
  shows "each (issue w) is d = (Inr (), d') \<Longrightarrow> n \<in> fst ` set is \<Longrightarrow> complete_identity d' n"
proof (induction "is" arbitrary: d)
  case (Cons i rest)
  obtain d1 where run: "issue w i d = (Inr (), d1)" "each (issue w) rest d1 = (Inr (), d')"
    using Cons.prems(1) by (auto simp: abind_Inr_iff)
  show ?case
  proof (cases "n = fst i")
    case True
    then have "complete_identity d1 n" using issue_completes [OF w] run(1) by (cases i) auto
    moreover have "relates (\<lambda>d d'. complete_identity d n \<longrightarrow> complete_identity d' n) (each (issue w) rest)"
      by (rule relates_each) (simp_all add: reflp_def transp_def issue_keeps_complete [OF w])
    ultimately show ?thesis using run(2) by (auto simp: relates_def)
  next
    case False
    then show ?thesis using Cons.IH [OF run(2)] Cons.prems(2) by auto
  qed
qed simp

definition complete_pki :: "directory \<Rightarrow> bool" where
  "complete_pki d \<longleftrightarrow> regular d ''ca.key'' \<and> regular d ''ca.crt'' \<and> list_all (complete_identity d) (map fst identities)"

lemma each_done: "list_all (complete_identity d) (map fst is) \<Longrightarrow> each (issue w) is d = (Inr (), d)"
  by (induction "is") (auto simp: pure_def abind_def issue_done)

lemma pki_main_done: "complete_pki d \<Longrightarrow> pk_mkdir w = Inr () \<Longrightarrow> pki_main w 2 d = (Inr 0, d)"
  by (simp add: pki_main_def complete_pki_def abind_def pure_def ensure_ca_def regular_there each_done)

lemma pki_main_completes:
  assumes w: "sound_system w" and run: "pki_main w argc d = (Inr 0, d')"
  shows "complete_pki d'"
proof -
  obtain d1 where ca: "ensure_ca w d = (Inr (), d1)" and ids: "each (issue w) identities d1 = (Inr (), d')"
    using run by (auto simp: pki_main_def abind_Inr_iff pure_def split: if_splits)
  have "regular d1 ''ca.key'' \<and> regular d1 ''ca.crt''"
    using ca openssl_run(2) [OF w, of "ca_command w" d "Inr ()" d1]
    by (auto simp: ensure_ca_def written_by_commands split: if_splits)
  moreover have "kept d1 d'"
    using relates_run [OF relates_each [OF reflp_kept transp_kept issue_kept [OF w]] ids] .
  ultimately have "regular d' ''ca.key'' \<and> regular d' ''ca.crt''"
    by (auto simp: regular_def kept_def split: option.splits)
  then show ?thesis using each_completes [OF w ids] by (auto simp: complete_pki_def list_all_iff)
qed

text \<open>
  C39: Generating the certificates changes no file that is already there, on any outcome, with one
  exception: \<open>ca.srl\<close>, the serial number file of the authority, which \<open>openssl x509 -CAcreateserial\<close>
  may rewrite whenever a missing identity is issued. When the run succeeds, the authority and all
  twelve identities have their key and certificate and no request is left behind; and from then on a
  run changes nothing at all, that file included, even where no \<open>openssl\<close> is available.
\<close>

theorem pki_generation:
  assumes "sound_system w" "pki_main w argc d = (r, d')"
  shows "{f. d f \<noteq> None \<and> d' f \<noteq> d f} \<subseteq> {''ca.srl''} \<and> (r = Inr 0 \<longrightarrow> complete_pki d')
    \<and> (r = Inr 0 \<longrightarrow> (\<forall>other. pk_mkdir other = Inr () \<longrightarrow> pki_main other 2 d' = (Inr 0, d')))"
proof -
  have "kept d d'" by (rule relates_run [OF pki_main_kept [OF assms(1)] assms(2)])
  then have "{f. d f \<noteq> None \<and> d' f \<noteq> d f} \<subseteq> {''ca.srl''}" unfolding kept_def by fastforce
  then show ?thesis using pki_main_completes [OF assms(1)] assms(2) pki_main_done by blast
qed

text \<open>
  An incomplete authority or identity is never repaired silently: the script stops with an error
  before it runs a command for it.
\<close>

lemma incomplete_refused:
  "there d ''ca.key'' \<noteq> there d ''ca.crt'' \<Longrightarrow> pk_mkdir w = Inr () \<Longrightarrow>
     pki_main w 2 d = (raiseV ''refusing to overwrite incomplete development CA'', d)"
  "\<exists>f \<in> identity_files name. there d f \<Longrightarrow> \<not> complete_identity d name \<Longrightarrow>
     issue w (name, common_name, usage, san) d
       = (raiseV (''refusing to overwrite incomplete certificate identity: '' @ name), d)"
  by (auto simp: pki_main_def abind_def pure_def ensure_ca_def regular_there issue_def Let_def identity_files_def complete_identity_def)

section \<open>A run\<close>

text \<open>A system on which nothing fails.\<close>

definition demo_system :: pki_system where
  "demo_system =
     \<lparr>pk_dir = lit ''pki'', pk_mkdir = Inr (),
      pk_openssl = (\<lambda>cmd d. (Inr (), \<lambda>f. if lit ''pki'' @ lit ''/'' @ lit f \<in> set (output_arguments cmd) then Some (Regular []) else d f)),
      pk_write = (\<lambda>f t d. (Inr (), d(f \<mapsto> Regular t))), pk_unlink = (\<lambda>f d. (Inr (), d(f := None)))\<rparr>"

lemma demo_openssl:
  "pk_openssl demo_system cmd d = (Inr (), \<lambda>f. if f \<in> written_by demo_system cmd then Some (Regular []) else d f)"
  by (simp add: demo_system_def written_by_def pki_path_def)

lemma demo_system_sound: "sound_system demo_system"
  by (auto simp: sound_system_def demo_openssl only_changes_def regular_def there_def) (auto simp: demo_system_def)

lemma demo_issue: "(\<forall>f \<in> identity_files name. \<not> there d f) \<Longrightarrow> \<exists>d'. issue demo_system (name, common_name, usage, san) d = (Inr (), d')"
  by (simp add: issue_def Let_def identity_files_def abind_def demo_system_def)

lemma demo_each:
  "distinct (map fst is) \<Longrightarrow> (\<forall>n \<in> fst ` set is. \<forall>f \<in> identity_files n. \<not> there d f) \<Longrightarrow> \<exists>d'. each (issue demo_system) is d = (Inr (), d')"
proof (induction "is" arbitrary: d)
  case (Cons i rest)
  obtain name common_name usage san where i: "i = (name, common_name, usage, san)" by (cases i)
  obtain d1 where d1: "issue demo_system i d = (Inr (), d1)" using demo_issue [of name d common_name usage san] Cons.prems(2) i by auto
  have "\<not> there d1 f" if "n \<in> fst ` set rest" "f \<in> identity_files n" for n f
  proof -
    have "n \<noteq> name" using Cons.prems(1) that(1) i by auto
    then have "d1 f = d f"
      using relates_run [OF issue_changes [OF demo_system_sound] d1 [unfolded i]] identity_files_disjoint [of n name] that(2)
      unfolding only_changes_def by blast
    then show ?thesis using Cons.prems(2) that by (auto simp: there_def)
  qed
  then show ?case using Cons.IH [of d1] Cons.prems(1) d1 by (auto simp: abind_def)
qed (simp add: pure_def)

lemma demo_pki_run: "\<exists>d'. pki_main demo_system 2 (\<lambda>_. None) = (Inr 0, d')"
proof -
  let ?d = "\<lambda>f. if f = ''ca.key'' \<or> f = ''ca.crt'' then Some (Regular []) else None"
  have ca: "ensure_ca demo_system (\<lambda>_. None) = (Inr (), ?d)"
    by (simp add: ensure_ca_def there_def demo_openssl written_by_commands)
  have "\<exists>d'. each (issue demo_system) identities ?d = (Inr (), d')"
    by (rule demo_each) (simp_all add: identities_def identity_files_def there_def)
  moreover have "pk_mkdir demo_system = Inr ()" by (simp add: demo_system_def)
  ultimately show ?thesis by (auto simp: pki_main_def abind_def pure_def ca)
qed

theorem pki_generation_witness:
  "\<exists>d'. pki_main demo_system 2 (\<lambda>_. None) = (Inr 0, d') \<and> complete_pki d' \<and> pki_main demo_system 2 d' = (Inr 0, d')"
proof -
  obtain d' where run: "pki_main demo_system 2 (\<lambda>_. None) = (Inr 0, d')" using demo_pki_run by blast
  have "pk_mkdir demo_system = Inr ()" by (simp add: demo_system_def)
  then show ?thesis using pki_generation [OF demo_system_sound run] run by blast
qed

end
