(* ===== verification/Render_Realm.thy ===== *)
theory Render_Realm
  imports Redaction Rsa_Jwk
begin

text \<open>
  \<open>src/scripts/render-keycloak-realm.py\<close>: the realm file made from a template in which four markers
  stand for the passwords of the demo users, the public key of route B and its key identifier.

  The environment and the reading of files are parameters; a run returns the file it writes.
\<close>

section \<open>The script\<close>

fun replace :: "(pystr \<times> pystr) list \<Rightarrow> pyval \<Rightarrow> pyval" where
  "replace substitutions (PDict d) = PDict (map (\<lambda>(key, item). (key, replace substitutions item)) d)"
| "replace substitutions (PList items) = PList (map (replace substitutions) items)"
| "replace substitutions (PStr s) = PStr (fold (\<lambda>(marker, replacement) t. py_replace marker replacement t) substitutions s)"
| "replace substitutions v = v"

record render_inputs =
  rn_environ :: "(pystr \<times> pystr) list"
  rn_read :: "pystr \<Rightarrow> pystr res"
  rn_floats :: float_codec
  rn_depth :: nat

definition environ_item :: "render_inputs \<Rightarrow> string \<Rightarrow> pystr res" where
  "environ_item w name = (case map_of (rn_environ w) (lit name) of None \<Rightarrow> Inl KeyError | Some v \<Rightarrow> Inr v)"

definition environ_or :: "render_inputs \<Rightarrow> string \<Rightarrow> string \<Rightarrow> pystr" where
  "environ_or w name dflt = (case map_of (rn_environ w) (lit name) of None \<Rightarrow> lit dflt | Some v \<Rightarrow> v)"

definition substitutions :: "render_inputs \<Rightarrow> pystr \<Rightarrow> (pystr \<times> pystr) list res" where
  "substitutions w public_key =
     rbind (environ_item w ''SALES_PASSWORD'') (\<lambda>sales.
     rbind (environ_item w ''ENGINEERING_PASSWORD'') (\<lambda>engineering.
     rbind (environ_item w ''DECK_ROUTE_B_JWK_KID'') (\<lambda>kid.
     Inr [(lit ''__SALES_PASSWORD__'', sales), (lit ''__ENGINEERING_PASSWORD__'', engineering),
          (lit ''__ROUTE_B_PUBLIC_KEY__'', public_key), (lit ''__ROUTE_B_JWK_KID__'', kid)])))"

text \<open>A realm that is no dictionary cannot be given the rotation setting.\<close>

definition render_realm :: "render_inputs \<Rightarrow> pystr list \<Rightarrow> file_write res" where
  "render_realm w argv =
     (case argv of
        [_, template, output, key_path] \<Rightarrow>
          rbind (rn_read w key_path) (\<lambda>public_key.
          rbind (substitutions w public_key) (\<lambda>subs.
          rbind (rbind (rn_read w template) (json_loads (plain_opts (rn_floats w)) (rn_depth w))) (\<lambda>v.
          let rotation_setting = py_lower (environ_or w ''KEYCLOAK_REFRESH_TOKEN_ROTATION'' ''true'') in
          if rotation_setting \<notin> {lit ''true'', lit ''false''}
          then Inl (SystemExit (lit ''KEYCLOAK_REFRESH_TOKEN_ROTATION must be true or false''))
          else (case replace subs v of
                  PDict realm \<Rightarrow>
                    Inr (output,
                         dumps_style (rn_floats w) INDENTED 0
                           (PDict (dset (K ''revokeRefreshToken'') (PBool (rotation_setting = lit ''true'')) realm)) @ [10],
                         384)
                | _ \<Rightarrow> Inl TypeError))))
      | _ \<Rightarrow> Inl (SystemExit (lit ''usage: render-keycloak-realm.py TEMPLATE OUTPUT ROUTE_B_PUBLIC_KEY'')))"

section \<open>Markers\<close>

text \<open>The strings of a value, the keys of dictionaries aside.\<close>

fun texts :: "pyval \<Rightarrow> pystr list" where
  "texts (PDict d) = concat (map (\<lambda>(k, v). texts v) d)"
| "texts (PList vs) = concat (map texts vs)"
| "texts (PStr s) = [s]"
| "texts _ = []"

definition MARKERS :: "pystr list" where
  "MARKERS = map lit [''__SALES_PASSWORD__'', ''__ENGINEERING_PASSWORD__'', ''__ROUTE_B_PUBLIC_KEY__'', ''__ROUTE_B_JWK_KID__'']"

text \<open>
  A replacement that cannot complete a marker with the text around it: it is not part of a marker, has
  no two underscores in a row, and neither begins nor ends with one.
\<close>

definition inert :: "pystr \<Rightarrow> bool" where
  "inert r \<longleftrightarrow> r \<noteq> [] \<and> hd r \<noteq> 95 \<and> last r \<noteq> 95 \<and> \<not> sublist [95, 95] r \<and> list_all (\<lambda>m. \<not> sublist r m) MARKERS"

lemma left_overlap:
  assumes r: "\<not> sublist [95, 95] r" "hd r \<noteq> 95" and m2: "x @ [95, 95] = m1 @ m2" "prefix m2 r"
  shows "m2 = []"
proof (rule ccontr)
  assume ne: "m2 \<noteq> []"
  show False
  proof (cases "2 \<le> length m2")
    case True
    have "drop (length m1) (x @ [95, 95]) = m2" by (simp add: m2(1))
    moreover have "length m1 \<le> length x" using True arg_cong [OF m2(1), of length] by simp
    ultimately have "m2 = drop (length m1) x @ [95, 95]" by simp
    then have "sublist [95, 95] m2" by (auto simp: sublist_append)
    then show False using r(1) m2(2) by (meson prefix_imp_sublist sublist_order.order.trans)
  next
    case False
    then obtain c where c: "m2 = [c]" using ne by (cases m2; cases "tl m2") auto
    moreover have "last (x @ [95, 95]) = last (m1 @ m2)" by (simp only: m2(1))
    ultimately have "hd r = 95" using m2(2) by (cases r) auto
    then show False using r(2) by simp
  qed
qed

lemma right_overlap:
  assumes "\<not> sublist [95, 95] r" "last r \<noteq> 95" "[95, 95] @ x = m1 @ m2" "suffix m1 r"
  shows "m1 = []"
proof -
  have "\<not> sublist [95, 95] (rev r)" using assms(1) sublist_rev [of "[95, 95]" r] by simp
  moreover have "hd (rev r) \<noteq> 95 \<or> r = []" using assms(2) by (cases "r = []") (simp_all add: hd_rev)
  moreover have "rev x @ [95, 95] = rev m2 @ rev m1" using arg_cong [OF assms(3), of rev] by simp
  moreover have "prefix (rev m1) (rev r)" using assms(4) by (simp add: suffix_to_prefix)
  ultimately show ?thesis using left_overlap [of "rev r" "rev x" "rev m2" "rev m1"] assms(4) by (cases "r = []") auto
qed

lemma marker_separated:
  assumes m: "m \<in> set MARKERS" and r: "inert r"
  shows "separates r m" "\<not> sublist m r"
proof -
  obtain x y where x: "m = x @ [95, 95]" and y: "m = [95, 95] @ y"
  proof -
    have "m = take (length m - 2) m @ [95, 95]" "m = [95, 95] @ drop 2 m"
      using m by (auto simp: MARKERS_def lit_def)
    then show ?thesis using that by blast
  qed
  have rr: "\<not> sublist [95, 95] r" "hd r \<noteq> 95" "last r \<noteq> 95" "\<not> sublist r m" "r \<noteq> []"
    using r m by (auto simp: inert_def list_all_iff)
  show "\<not> sublist m r"
  proof
    assume "sublist m r"
    moreover have "sublist [95, 95] m" unfolding x by (auto simp: sublist_append)
    ultimately show False using rr(1) by (meson sublist_order.order.trans)
  qed
  have left: False if "m = m1 @ m2" "prefix m2 (r @ b)" "m2 \<noteq> []" for m1 m2 b
  proof (cases "prefix m2 r")
    case True
    then show False using left_overlap [OF rr(1,2)] that(1,3) x by metis
  next
    case False
    then have "\<exists>us. m2 = r @ us" using that(2) by (auto simp: prefix_append)
    then show False using rr(4) that(1) by (auto simp: sublist_append)
  qed
  have "sublist m a \<or> sublist m r \<or> sublist m b" if "sublist m (a @ r @ b)" for a b
  proof -
    have "sublist m a \<or> sublist m (r @ b)"
      using iffD1 [OF sublist_append that] left by (elim disjE exE conjE) fastforce+
    then show ?thesis
    proof
      assume "sublist m (r @ b)"
      then consider "sublist m r \<or> sublist m b" | m1 m2 where "m = m1 @ m2" "suffix m1 r" "prefix m2 b"
        by (auto simp: sublist_append)
      then show ?thesis
      proof cases
        case 2
        then have "m1 = []" using right_overlap [OF rr(1,3)] y by metis
        then show ?thesis using 2 by auto
      qed simp
    qed simp
  qed
  then show "separates r m" by (auto simp: separates_def)
qed

lemma replaced_texts:
  "set (texts (replace subs v)) = fold (\<lambda>(p, r) s. py_replace p r s) subs ` set (texts v)"
  by (induction v) (auto simp: case_prod_unfold, (force)+)


lemma set_py_replace: "set (py_replace p r s) \<subseteq> set s \<union> set r"
proof -
  have "set (replace_skip p r k s) \<subseteq> set s \<union> set r" for k
    by (induction p r k s rule: replace_skip.induct) auto
  then show ?thesis by (simp add: py_replace_def)
qed

lemma scalar_substituted:
  "list_all (\<lambda>(p, r). list_all is_scalar r) subs \<Longrightarrow> list_all is_scalar s \<Longrightarrow>
   list_all is_scalar (fold (\<lambda>(p, r) s. py_replace p r s) subs s)"
proof (induction subs arbitrary: s)
  case (Cons sub subs)
  obtain p r where sub: "sub = (p, r)" by (cases sub)
  have "list_all is_scalar (py_replace p r s)"
    using Cons.prems sub set_py_replace [of p r s] by (auto simp: list_all_iff)
  then show ?case using Cons sub by simp
qed simp

lemma replace_plain:
  assumes "list_all (\<lambda>(p, r). list_all is_scalar r) subs"
  shows "json_plain v \<Longrightarrow> json_plain (replace subs v)" "json_depth (replace subs v) = json_depth v"
proof -
  show "json_plain v \<Longrightarrow> json_plain (replace subs v)"
  proof (induction v)
    case (PDict d)
    have keys: "map fst (map (\<lambda>(k, v). (k, replace subs v)) d) = map fst d" by (simp add: case_prod_unfold)
    have "json_plain (replace subs v)" if "(k, v) \<in> set d" for k v
      using PDict.IH [OF that] PDict.prems that by (auto simp: list_all_iff)
    then have "list_all (\<lambda>(k, v). (case k of KStr s \<Rightarrow> list_all is_scalar s | _ \<Rightarrow> False) \<and> json_plain v)
        (map (\<lambda>(k, v). (k, replace subs v)) d)"
      using PDict.prems unfolding json_plain.simps list_all_iff by fastforce
    then show ?case using PDict.prems keys unfolding replace.simps json_plain.simps by metis
  next
    case (PStr s)
    then show ?case using scalar_substituted [OF assms] by simp
  qed (auto simp: list_all_iff)
  show "json_depth (replace subs v) = json_depth v"
  proof (induction v)
    case (PDict d)
    have "map (\<lambda>(k, v). json_depth v) (map (\<lambda>(k, v). (k, replace subs v)) d) = map (\<lambda>(k, v). json_depth v) d"
      using PDict by fastforce
    then show ?case unfolding replace.simps json_depth.simps by (simp only:)
  next
    case (PList vs)
    have "map json_depth (map (replace subs) vs) = map json_depth vs" using PList by simp
    then show ?case unfolding replace.simps json_depth.simps by (simp only:)
  qed simp_all
qed

lemma plain_setting:
  assumes "json_plain (PDict d)"
  shows "json_plain (PDict (dset (K k) (PBool b) d))" "json_depth (PDict (dset (K k) (PBool b) d)) \<le> json_depth (PDict d)"
    "set (texts (PDict (dset (K k) (PBool b) d))) \<subseteq> set (texts (PDict d))"
proof -
  note sub = set_dset [of "K k" "PBool b" d]
  show "json_plain (PDict (dset (K k) (PBool b) d))"
    using assms sub distinct_dset [of d "K k" "PBool b"] by (fastforce simp: list_all_iff lit_scalar [unfolded list_all_iff])
  show "set (texts (PDict (dset (K k) (PBool b) d))) \<subseteq> set (texts (PDict d))" using sub by fastforce
  have "json_depth v \<le> foldr max (map (\<lambda>(k, v). json_depth v) d) 0" if "(i, v) \<in> set (dset (K k) (PBool b) d)" for i v
    using sub that json_depth_item [of i v d] by auto
  then have "foldr max (map (\<lambda>(k, v). json_depth v) e) 0 \<le> foldr max (map (\<lambda>(k, v). json_depth v) d) 0"
    if "set e \<subseteq> set (dset (K k) (PBool b) d)" for e
    using that by (induction e) auto
  then show "json_depth (PDict (dset (K k) (PBool b) d)) \<le> json_depth (PDict d)" by simp
qed

section \<open>The rendered realm\<close>

text \<open>
  C35: The rendered realm is a private file that reads back as the template with its markers replaced
  and the rotation of refresh tokens set as configured; no marker is left in any of its strings, for
  passwords, key and key identifier that cannot complete a marker with the text around them.
\<close>

theorem rendered_realm:
  assumes run: "render_realm w [prog, template, output, key_path] = Inr written"
    and key: "rn_read w key_path = Inr public_key" and subs: "substitutions w public_key = Inr subs"
    and inert: "list_all (\<lambda>(_, r). inert r \<and> list_all is_scalar r) subs"
    and loaded: "rbind (rn_read w template) (json_loads (plain_opts (rn_floats w)) (rn_depth w)) = Inr v"
    and v: "json_plain v" "json_depth v \<le> rn_depth w"
  shows "\<exists>content d realm. written = (output, content, 384) \<and> replace subs v = PDict d
    \<and> realm = dset (K ''revokeRefreshToken'')
        (PBool (py_lower (environ_or w ''KEYCLOAK_REFRESH_TOKEN_ROTATION'' ''true'') = lit ''true'')) d
    \<and> json_loads (plain_opts (rn_floats w)) (rn_depth w) content = Inr (PDict realm)
    \<and> list_all (\<lambda>s. list_all (\<lambda>m. \<not> sublist m s) MARKERS) (texts (PDict realm))"
proof -
  let ?rotation = "py_lower (environ_or w ''KEYCLOAK_REFRESH_TOKEN_ROTATION'' ''true'') = lit ''true''"
  obtain d where d: "replace subs v = PDict d"
    and written: "written = (output, dumps_style (rn_floats w) INDENTED 0 (PDict (dset (K ''revokeRefreshToken'') (PBool ?rotation) d)) @ [10], 384)"
    using run key subs loaded by (auto simp: render_realm_def Let_def split: if_splits pyval.splits)
  let ?realm = "dset (K ''revokeRefreshToken'') (PBool ?rotation) d"
  have scalar: "list_all (\<lambda>(p, r). list_all is_scalar r) subs" using inert by (auto simp: list_all_iff)
  have plain: "json_plain (PDict d)" "json_depth (PDict d) \<le> rn_depth w"
    using replace_plain [OF scalar, of v] v unfolding d by simp_all
  have again: "json_loads (plain_opts (rn_floats w)) (rn_depth w) (dumps_style (rn_floats w) INDENTED 0 (PDict ?realm) @ [10]) = Inr (PDict ?realm)"
    by (rule json_loads_style [OF plain_opts_keeps_pairs white_styles(3) plain_setting(1) [OF plain(1)]
          order.trans [OF plain_setting(2) [OF plain(1)] plain(2)]]) simp
  have markers: "map fst subs = MARKERS" using subs by (auto simp: substitutions_def rbind_eq_Inr_iff MARKERS_def)
  have "\<not> sublist m s" if "m \<in> set MARKERS" "s \<in> set (texts (PDict ?realm))" for m s
  proof -
    have "s \<in> set (texts (replace subs v))" using that(2) plain_setting(3) [OF plain(1)] unfolding d by blast
    then obtain t where t: "s = fold (\<lambda>(p, r) s. py_replace p r s) subs t" by (auto simp: replaced_texts)
    have "list_all (\<lambda>(p, r). p \<noteq> [] \<and> separates r m \<and> \<not> sublist m r) subs"
    proof -
      have "p \<in> set MARKERS" if "(p, r) \<in> set subs" for p r using that markers by (metis fst_conv image_eqI list.set_map)
      moreover have "[] \<notin> set MARKERS" by (simp add: MARKERS_def lit_def)
      ultimately show ?thesis using inert marker_separated [OF that(1)] by (fastforce simp: list_all_iff)
    qed
    moreover have "m \<in> fst ` set subs" using that(1) markers by (metis list.set_map)
    ultimately show ?thesis using replace_all_away [of m subs t] t by blast
  qed
  then have "list_all (\<lambda>s. list_all (\<lambda>m. \<not> sublist m s) MARKERS) (texts (PDict ?realm))" by (simp add: list_all_iff)
  then show ?thesis using written d again by blast
qed

section \<open>A run\<close>

definition demo_template :: pyval where
  "demo_template = PDict [(K ''realm'', S ''fapi-demo''), (K ''password'', S ''__SALES_PASSWORD__''),
     (K ''keys'', PList [S ''__ROUTE_B_JWK_KID__: __ROUTE_B_PUBLIC_KEY__''])]"

definition demo_render_inputs :: render_inputs where
  "demo_render_inputs = \<lparr>rn_environ = [(lit ''SALES_PASSWORD'', lit ''s1''), (lit ''ENGINEERING_PASSWORD'', lit ''e1''),
      (lit ''DECK_ROUTE_B_JWK_KID'', lit ''k1'')],
    rn_read = (\<lambda>path. if path = lit ''key'' then Inr (lit ''pem'') else Inr (json_dumps \<lparr>of_text = \<lambda>_. FNan, to_text = \<lambda>_. []\<rparr> demo_template)),
    rn_floats = \<lparr>of_text = \<lambda>_. FNan, to_text = \<lambda>_. []\<rparr>, rn_depth = 5\<rparr>"

lemma inert_if:
  assumes "r \<noteq> []" "95 \<notin> set r" "c \<in> set r" "c \<notin> \<Union> (set ` set MARKERS)"
  shows "inert r"
proof -
  have "\<not> sublist [95, 95] r" using assms(2) set_mono_sublist [of "[95, 95]" r] by auto
  moreover have "\<not> sublist r m" if "m \<in> set MARKERS" for m
    using assms(3,4) that set_mono_sublist [of r m] by auto
  moreover have "hd r \<noteq> 95" "last r \<noteq> 95" using assms(1,2) by (metis hd_in_set) (metis assms(1,2) last_in_set)
  ultimately show ?thesis using assms(1) by (simp add: inert_def list_all_iff)
qed

lemma demo_inert: "inert (lit ''s1'')" "inert (lit ''e1'')" "inert (lit ''k1'')" "inert (lit ''pem'')"
  by (rule inert_if [of _ 115], simp_all add: lit_def MARKERS_def, rule inert_if [of _ 101], simp_all add: lit_def MARKERS_def,
      rule inert_if [of _ 107], simp_all add: lit_def MARKERS_def, rule inert_if [of _ 112], simp_all add: lit_def MARKERS_def)

theorem rendered_realm_witness:
  "\<exists>content realm. render_realm demo_render_inputs [[], lit ''template'', lit ''out'', lit ''key''] = Inr (lit ''out'', content, 384)
    \<and> json_loads (plain_opts (rn_floats demo_render_inputs)) 5 content = Inr (PDict realm)
    \<and> list_all (\<lambda>s. list_all (\<lambda>m. \<not> sublist m s) MARKERS) (texts (PDict realm))"
proof -
  let ?w = demo_render_inputs
  let ?subs = "[(lit ''__SALES_PASSWORD__'', lit ''s1''), (lit ''__ENGINEERING_PASSWORD__'', lit ''e1''),
    (lit ''__ROUTE_B_PUBLIC_KEY__'', lit ''pem''), (lit ''__ROUTE_B_JWK_KID__'', lit ''k1'')]"
  have key: "rn_read ?w (lit ''key'') = Inr (lit ''pem'')" by (simp add: demo_render_inputs_def)
  have subs: "substitutions ?w (lit ''pem'') = Inr ?subs"
    by (simp add: substitutions_def environ_item_def demo_render_inputs_def)
  have plain: "json_plain demo_template" "json_depth demo_template \<le> 5" by (simp_all add: demo_template_def lit_scalar)
  have loaded: "rbind (rn_read ?w (lit ''template'')) (json_loads (plain_opts (rn_floats ?w)) (rn_depth ?w)) = Inr demo_template"
    using json_loads_dumps [OF plain_opts_keeps_pairs plain] by (simp add: demo_render_inputs_def)
  have depth: "rn_depth ?w = 5" by (simp add: demo_render_inputs_def)
  have rotation: "py_lower (environ_or ?w ''KEYCLOAK_REFRESH_TOKEN_ROTATION'' ''true'') = lit ''true''"
    by (simp add: environ_or_def demo_render_inputs_def py_lower_def latin1_lower_def lit_def)
  obtain written where run: "render_realm ?w [[], lit ''template'', lit ''out'', lit ''key''] = Inr written"
    using key subs loaded rotation by (auto simp: render_realm_def Let_def demo_template_def)
  have inert: "list_all (\<lambda>(_, r). inert r \<and> list_all is_scalar r) ?subs" by (simp add: demo_inert lit_scalar)
  show ?thesis
    using rendered_realm [OF run key subs inert loaded plain(1)] plain(2) run unfolding depth by fastforce
qed

end
