(* ===== verification/Render_Targets.thy ===== *)
theory Render_Targets
  imports Wp1_Main
begin

text \<open>
  \<open>src/scripts/render-runtime-env.py\<close>: the target manifest and the runtime environment file, made
  from what Terraform reports about the two gateways.

  A run is an action on the list of the files written so far, so that a run that stops half way shows
  what it had written. Terraform, the environment and the files are parameters.
\<close>

section \<open>The script\<close>

type_synonym file_write = "string \<times> pystr \<times> nat"

record terraform_world =
  tw_environ :: env
  tw_files :: repo
  tw_terraform :: "pystr res"
  tw_interp :: interp

definition read_env_file :: "('z repo_scheme) \<Rightarrow> env res" where
  "read_env_file files = read_assignments (\<lambda>key. key \<in> set (map lit CONFIG_KEYS)) files ''.env''"

text \<open>\<open>os.environ.get(name, config.get(name, default))\<close>.\<close>

definition setting :: "terraform_world \<Rightarrow> env \<Rightarrow> string \<Rightarrow> string \<Rightarrow> pystr" where
  "setting w config name dflt = env_get (tw_environ w) name (env_get config name (lit dflt))"

definition region_url :: "terraform_world \<Rightarrow> env \<Rightarrow> pystr" where
  "region_url w config = py_rstrip (\<lambda>c. c = 47) (setting w config ''KONNECT_SERVER_URL'' ''https://us.api.konghq.com'')"

definition rendered_names :: "terraform_world \<Rightarrow> env \<Rightarrow> (string \<times> pystr) list" where
  "rendered_names w config =
     [(''api'', setting w config ''TF_VAR_control_plane_name'' ''keycloak-fapi2-demo''),
      (''third-party'', setting w config ''TF_VAR_third_party_control_plane_name'' ''keycloak-fapi2-third-party-demo'')]"

definition write_private :: "string \<Rightarrow> pystr \<Rightarrow> (file_write, unit) run" where
  "write_private path content written = (Inr (), written @ [(path, content, 384)])"

definition RUNTIME_NAMES :: "string list" where
  "RUNTIME_NAMES = [''KONNECT_CP_HOST'', ''KONNECT_TP_HOST'', ''KONNECT_API_CP_HOST'', ''KONNECT_API_TP_HOST'',
     ''KONNECT_THIRD_PARTY_CP_HOST'', ''KONNECT_THIRD_PARTY_TP_HOST'', ''KONNECT_SERVER_URL'']"

definition kept_lines :: "pystr list \<Rightarrow> pystr list" where
  "kept_lines prior = filter (\<lambda>line. fst (py_partition 61 line) \<notin> set (map lit RUNTIME_NAMES)) prior"

definition host_of :: "(string \<times> pydict) list \<Rightarrow> string \<Rightarrow> string \<Rightarrow> pystr" where
  "host_of targets gateway field = the_str (dget (the (map_of targets gateway)) field)"

definition rendered_lines :: "(string \<times> pydict) list \<Rightarrow> pystr \<Rightarrow> pystr list" where
  "rendered_lines targets url =
     [lit ''KONNECT_API_CP_HOST='' @ host_of targets ''api'' ''control_plane_host'',
      lit ''KONNECT_API_TP_HOST='' @ host_of targets ''api'' ''telemetry_host'',
      lit ''KONNECT_THIRD_PARTY_CP_HOST='' @ host_of targets ''third-party'' ''control_plane_host'',
      lit ''KONNECT_THIRD_PARTY_TP_HOST='' @ host_of targets ''third-party'' ''telemetry_host'',
      lit ''KONNECT_SERVER_URL='' @ url]"

definition runtime_text :: "pystr list \<Rightarrow> (string \<times> pydict) list \<Rightarrow> pystr \<Rightarrow> pystr" where
  "runtime_text prior targets url = join [10] (kept_lines prior @ rendered_lines targets url) @ [10]"

definition prior_lines :: "('z repo_scheme) \<Rightarrow> pystr list res" where
  "prior_lines files =
     (if file_exists files ''.generated/runtime.env''
      then rbind (read_text files ''.generated/runtime.env'') (\<lambda>t. Inr (splitlines t)) else Inr [])"

definition manifest_value :: "pystr \<Rightarrow> pyval \<Rightarrow> pyval" where
  "manifest_value url source_targets = obj [(''konnect_server_url'', PStr url), (''targets'', source_targets)]"

definition render_targets_main :: "terraform_world \<Rightarrow> (file_write, int) run" where
  "render_targets_main w =
     (let ip = tw_interp w; load = json_loads (plain_opts (ip_floats ip)) (ip_depth ip) in
      abind (pure (read_env_file (tw_files w))) (\<lambda>config.
      let url = region_url w config in
      abind (pure (tw_terraform w)) (\<lambda>stdout.
      abind (pure (rbind (load stdout) (validate_targets (ip_url ip) (rendered_names w config)))) (\<lambda>targets.
      abind (pure (load stdout)) (\<lambda>source_targets.
      abind (write_private ''.generated/gateway_targets.json''
               (dumps_style (ip_floats ip) INDENTED 0 (manifest_value url source_targets) @ [10])) (\<lambda>_.
      abind (pure (prior_lines (tw_files w))) (\<lambda>prior.
      abind (write_private ''.generated/runtime.env'' (runtime_text prior targets url)) (\<lambda>_.
      pure (Inr 0)))))))))"

text \<open>The exceptions that \<open>__main__\<close> reports; both ways the exit status is 1.\<close>

definition render_exit_status :: "int res \<Rightarrow> int" where
  "render_exit_status r = (case r of Inr code \<Rightarrow> code | Inl _ \<Rightarrow> 1)"

section \<open>Lines\<close>

lemma splitlines_from_plain:
  "list_all (\<lambda>c. \<not> is_line_end c) s \<Longrightarrow> splitlines_from cur (s @ 10 # t) = (cur @ s) # splitlines_from [] t"
  by (induction s arbitrary: cur) (simp_all add: is_line_end_def)

lemma splitlines_join:
  "list_all (list_all (\<lambda>c. \<not> is_line_end c)) ls \<Longrightarrow> ls \<noteq> [] \<Longrightarrow> splitlines (join [10] ls @ [10]) = ls"
proof (induction ls)
  case (Cons l ls)
  then show ?case
    using splitlines_from_plain [of l "[]" "join [10] ls @ [10]"] splitlines_from_plain [of l "[]" "[]"]
    by (cases ls) (simp_all add: splitlines_def)
qed simp

lemma splitlines_plain:
  assumes "l \<in> set (splitlines s)"
  shows "list_all (\<lambda>c. \<not> is_line_end c) l"
proof -
  have "list_all (\<lambda>c. \<not> is_line_end c) cur \<Longrightarrow> l \<in> set (splitlines_from cur s) \<Longrightarrow> list_all (\<lambda>c. \<not> is_line_end c) l" for cur
    by (induction cur s rule: splitlines_from.induct) (auto split: if_splits)
  from this [of "[]"] show ?thesis using assms by (simp add: splitlines_def)
qed

lemma kept_again: "kept_lines (kept_lines prior @ rendered_lines targets url) = kept_lines prior"
proof -
  have key: "fst (py_partition 61 (lit (name @ ''='') @ v)) = lit name" if "61 \<notin> set (lit name)" for name v
    using py_partition_append [OF that, of v] by (simp add: lit_def)
  have "kept_lines (rendered_lines targets url) = []"
    unfolding kept_lines_def rendered_lines_def filter_empty_conv
    using key [of "''KONNECT_API_CP_HOST''"] key [of "''KONNECT_API_TP_HOST''"] key [of "''KONNECT_THIRD_PARTY_CP_HOST''"]
      key [of "''KONNECT_THIRD_PARTY_TP_HOST''"] key [of "''KONNECT_SERVER_URL''"]
    by (simp add: RUNTIME_NAMES_def lit_def)
  then show ?thesis by (simp add: kept_lines_def)
qed

lemma runtime_lines:
  assumes "list_all (list_all (\<lambda>c. \<not> is_line_end c)) (rendered_lines targets url)" "prior_lines files = Inr prior"
  shows "splitlines (runtime_text prior targets url) = kept_lines prior @ rendered_lines targets url"
proof -
  have "list_all (list_all (\<lambda>c. \<not> is_line_end c)) prior"
    using assms(2) splitlines_plain by (auto simp: prior_lines_def rbind_eq_Inr_iff list.pred_set split: if_splits)
  then have "list_all (list_all (\<lambda>c. \<not> is_line_end c)) (kept_lines prior @ rendered_lines targets url)"
    using assms(1) by (auto simp: kept_lines_def list_all_iff)
  then show ?thesis unfolding runtime_text_def by (rule splitlines_join) (simp add: rendered_lines_def)
qed

section \<open>What a run writes\<close>

lemma render_main_Inr:
  assumes "render_targets_main w [] = (Inr code, written)"
  obtains config stdout source targets prior where
    "read_config (tw_files w) = Inr config" "tw_terraform w = Inr stdout"
    "json_loads (plain_opts (ip_floats (tw_interp w))) (ip_depth (tw_interp w)) stdout = Inr source"
    "validate_targets (ip_url (tw_interp w)) (rendered_names w config) source = Inr targets"
    "prior_lines (tw_files w) = Inr prior" "code = 0"
    "written = [(''.generated/gateway_targets.json'',
                 dumps_style (ip_floats (tw_interp w)) INDENTED 0 (manifest_value (region_url w config) source) @ [10], 384),
                (''.generated/runtime.env'', runtime_text prior targets (region_url w config), 384)]"
proof -
  have same: "read_env_file files = read_config files" for files :: repo by (simp add: read_env_file_def read_config_def)
  show thesis
    using assms by (auto simp: render_targets_main_def Let_def abind_Inr_iff rbind_eq_Inr_iff write_private_def same intro!: that)
qed

text \<open>
  C36: What the rendering of the targets writes, the deployment commands accept: where the environment
  overrides none of the three settings, the written manifest is read back with the rendered server
  URL and exactly the validated targets, provided the URL is an unambiguous HTTPS authority. The
  runtime environment file keeps every foreign line in its place before the five rendered lines, and
  rendering it again over itself changes nothing.
\<close>

theorem rendered_targets_accepted:
  assumes run: "render_targets_main w [] = (Inr code, written)"
    and environ: "list_all (\<lambda>name. map_of (tw_environ w) (lit name) = None) CONFIG_KEYS"
    and config: "read_config (tw_files w) = Inr config" and url: "url = region_url w config" "list_all is_scalar url"
    and stdout: "tw_terraform w = Inr stdout"
      "json_loads (plain_opts (ip_floats (tw_interp w))) (ip_depth (tw_interp w)) stdout = Inr source"
    and source: "json_plain source" "json_depth source < ip_depth (tw_interp w)"
    and targets: "validate_targets (ip_url (tw_interp w)) (expected_names config) source = Inr targets"
    and lines: "list_all (list_all (\<lambda>c. \<not> is_line_end c)) (rendered_lines targets url)"
  shows "\<exists>manifest runtime prior.
    written = [(''.generated/gateway_targets.json'', manifest, 384), (''.generated/runtime.env'', runtime, 384)]
    \<and> (\<forall>files :: repo. is_file files ''.generated/gateway_targets.json'' \<longrightarrow>
         read_text files ''.generated/gateway_targets.json'' = Inr manifest \<longrightarrow> read_config files = Inr config \<longrightarrow>
         read_manifest (tw_interp w) files gateway
           = rbind (endpoint_host (ip_url (tw_interp w)) (PStr url)) (\<lambda>_.
               Inr \<lparr>mi_server_url = url, mi_targets = targets, mi_target = the (map_of targets gateway)\<rparr>))
    \<and> prior_lines (tw_files w) = Inr prior
    \<and> splitlines runtime = kept_lines prior @ rendered_lines targets url
    \<and> runtime_text (splitlines runtime) targets url = runtime"
proof -
  let ?ip = "tw_interp w" and ?path = "''.generated/gateway_targets.json''"
  let ?manifest = "dumps_style (ip_floats ?ip) INDENTED 0 (manifest_value url source) @ [10]"
  have unset: "env_get (tw_environ w) name v = v" if "name \<in> set CONFIG_KEYS" for name v
    using environ that by (auto simp: env_get_def list_all_iff)
  have names: "rendered_names w config = expected_names config"
    by (simp add: rendered_names_def expected_names_def setting_def unset CONFIG_KEYS_def)
  obtain prior where prior: "prior_lines (tw_files w) = Inr prior"
    and written: "written = [(?path, ?manifest, 384), (''.generated/runtime.env'', runtime_text prior targets url, 384)]"
    using render_main_Inr [OF run] config stdout targets unfolding names [symmetric] url(1) by (metis Inr_inject)
  have region: "py_rstrip (\<lambda>c. c = 47) (env_get config ''KONNECT_SERVER_URL'' (lit ''https://us.api.konghq.com'')) = url"
    by (simp add: url(1) region_url_def setting_def unset CONFIG_KEYS_def)
  have loaded: "json_loads (plain_opts (ip_floats ?ip)) (ip_depth ?ip) ?manifest = Inr (manifest_value url source)"
    using source url(2)
    by (intro json_loads_style plain_opts_keeps_pairs white_styles(3)) (auto simp: manifest_value_def obj_def lit_scalar)
  have accepted: "read_manifest ?ip files gateway = rbind (endpoint_host (ip_url ?ip) (PStr url)) (\<lambda>_.
        Inr \<lparr>mi_server_url = url, mi_targets = targets, mi_target = the (map_of targets gateway)\<rparr>)"
    if "is_file files ?path" "read_text files ?path = Inr ?manifest" "read_config files = Inr config" for files :: repo
    using that targets loaded unfolding read_manifest_def Let_def
    by (cases "endpoint_host (ip_url ?ip) (PStr url)") (simp_all add: manifest_value_def obj_def region ditem_def)
  note split = runtime_lines [OF lines prior]
  have "runtime_text (splitlines (runtime_text prior targets url)) targets url = runtime_text prior targets url"
    unfolding split by (simp add: runtime_text_def kept_again)
  then show ?thesis using written accepted prior split by blast
qed

section \<open>A run\<close>

definition demo_source :: pydict where
  "demo_source = [(K ''api'', PDict (sample_target UPPER_ID ''keycloak-fapi2-demo'')),
     (K ''third-party'', PDict (sample_target LOWER_ID ''keycloak-fapi2-third-party-demo''))]"

definition demo_terraform :: terraform_world where
  "demo_terraform = \<lparr>tw_environ = [], tw_files = demo_files, tw_terraform = Inr (json_dumps demo_floats (PDict demo_source)),
     tw_interp = demo_interp\<rparr>"

text \<open>The files of the demonstration after the manifest was written.\<close>

definition demo_rendered :: "pystr \<Rightarrow> repo" where
  "demo_rendered manifest =
     demo_files\<lparr>read_text := (\<lambda>path. if path = ''.generated/gateway_targets.json'' then Inr manifest else read_text demo_files path)\<rparr>"

lemma demo_terraform_simps:
  "tw_environ demo_terraform = []" "tw_files demo_terraform = demo_files" "tw_interp demo_terraform = demo_interp"
  "tw_terraform demo_terraform = Inr (json_dumps demo_floats (PDict demo_source))"
  "ip_url demo_interp = no_checks" "ip_floats demo_interp = demo_floats" "ip_depth demo_interp = 10"
  by (simp_all add: demo_terraform_def demo_interp_def)

lemma demo_source_json: "json_plain (PDict demo_source)" "json_depth (PDict demo_source) < 10"
  by (simp_all add: demo_source_def sample_target_def lit_scalar)

lemma demo_source_load: "json_loads (plain_opts demo_floats) 10 (json_dumps demo_floats (PDict demo_source)) = Inr (PDict demo_source)"
  using demo_source_json by (intro json_loads_dumps plain_opts_keeps_pairs) auto

lemma demo_source_targets:
  "\<exists>targets. validate_targets no_checks (expected_names []) (PDict demo_source) = Inr targets
    \<and> list_all (list_all (\<lambda>c. \<not> is_line_end c)) (rendered_lines targets (lit ''https://us.api.konghq.com''))"
proof -
  have same: "expected_names [(lit ''KONNECT_TOKEN'', [])] = expected_names []" by (simp add: expected_names_def env_get_def)
  obtain targets where ok: "validate_targets no_checks (expected_names []) (PDict demo_source) = Inr targets"
    using demo_targets [of "[]"] unfolding same demo_source_def by blast
  obtain a t na nt where shape: "dget demo_source ''api'' = PDict a" "dget demo_source ''third-party'' = PDict t"
    "target_ok no_checks (expected_names []) ''api'' a na" "target_ok no_checks (expected_names []) ''third-party'' t nt"
    "targets = [(''api'', na), (''third-party'', nt)]"
    using validate_targets_Inr [OF ok] by metis
  have "dget d ''control_plane_endpoint'' = S ''https://cp.example'' \<and> dget d ''telemetry_endpoint'' = S ''https://tp.example''"
    if "d \<in> {a, t}" for d
    using shape(1,2) that by (auto simp: demo_source_def sample_target_def dict_simps)
  then have hosts: "dget n ''control_plane_host'' = S ''cp.example'' \<and> dget n ''telemetry_host'' = S ''tp.example''"
    if "(d, n) \<in> {(a, na), (t, nt)}" for d n
    using that shape(3,4) by (auto simp: target_ok_def sample_hosts dmerge_def dict_simps)
  have "list_all (list_all (\<lambda>c. \<not> is_line_end c)) (rendered_lines targets (lit ''https://us.api.konghq.com''))"
    using hosts [of a na] hosts [of t nt] by (simp add: rendered_lines_def host_of_def shape(5) lit_def is_line_end_def)
  then show ?thesis using ok by blast
qed

lemma demo_region_url: "region_url demo_terraform [] = lit ''https://us.api.konghq.com''"
  by (simp add: region_url_def setting_def env_get_def demo_terraform_def py_rstrip_def lit_def)

lemma demo_render: "\<exists>written. render_targets_main demo_terraform [] = (Inr 0, written)"
proof -
  obtain targets where "validate_targets no_checks (expected_names []) (PDict demo_source) = Inr targets"
    using demo_source_targets by blast
  moreover have "rendered_names demo_terraform [] = expected_names []"
    by (simp add: rendered_names_def expected_names_def setting_def demo_terraform_def env_get_def)
  moreover have "read_env_file demo_files = Inr []" using demo_env(3) [of "()"] by (simp add: read_env_file_def read_config_def)
  moreover have "prior_lines demo_files = Inr []" by (simp add: prior_lines_def demo_more_def splitlines_def)
  ultimately show ?thesis
    using demo_source_load
    by (simp add: render_targets_main_def Let_def abind_def pure_def write_private_def demo_terraform_simps)
qed

theorem rendered_targets_accepted_witness:
  "\<exists>manifest runtime info. render_targets_main demo_terraform []
      = (Inr 0, [(''.generated/gateway_targets.json'', manifest, 384), (''.generated/runtime.env'', runtime, 384)])
    \<and> read_manifest demo_interp (demo_rendered manifest) ''api'' = Inr info \<and> mi_server_url info = lit ''https://us.api.konghq.com''
    \<and> length (splitlines runtime) = 5"
proof -
  obtain written where run: "render_targets_main demo_terraform [] = (Inr 0, written)" using demo_render by blast
  obtain targets where targets: "validate_targets no_checks (expected_names []) (PDict demo_source) = Inr targets"
    "list_all (list_all (\<lambda>c. \<not> is_line_end c)) (rendered_lines targets (lit ''https://us.api.konghq.com''))"
    using demo_source_targets by blast
  have none: "list_all (\<lambda>name. map_of ([] :: env) (lit name) = None) CONFIG_KEYS" by (simp add: list_all_iff)
  note all = rendered_targets_accepted [OF run, unfolded demo_terraform_simps, OF none demo_env(3) demo_region_url [symmetric] lit_scalar refl
      demo_source_load demo_source_json targets, of "''api''"]
  have files: "is_file (demo_rendered m) p" "read_text (demo_rendered m) ''.generated/gateway_targets.json'' = Inr m"
    "read_config (demo_rendered m) = Inr []" for m p
    using demo_env(3) [of "()"] by (simp_all add: demo_rendered_def demo_more_def read_config_def read_assignments_def)
  have prior: "prior_lines demo_files = Inr []" by (simp add: prior_lines_def demo_more_def splitlines_def)
  obtain manifest runtime where "written = [(''.generated/gateway_targets.json'', manifest, 384), (''.generated/runtime.env'', runtime, 384)]"
    "splitlines runtime = kept_lines [] @ rendered_lines targets (lit ''https://us.api.konghq.com'')"
    "read_manifest demo_interp (demo_rendered manifest) ''api'' = rbind (endpoint_host no_checks (S ''https://us.api.konghq.com'')) (\<lambda>_.
      Inr \<lparr>mi_server_url = lit ''https://us.api.konghq.com'', mi_targets = targets, mi_target = the (map_of targets ''api'')\<rparr>)"
    using all files prior by auto
  then show ?thesis using run by (auto simp: demo_region kept_lines_def rendered_lines_def)
qed

end
