(* ===== verification/Spec2Isabelle.thy ===== *)
theory Spec2Isabelle
  imports End_To_End Rsa_Jwk Keycloak_Sync Tcp_Forward Deck_Run Dev_Pki Render_Realm Render_Targets Render_Secrets
begin

text \<open>
  A verification development for the FAPI 2.0 demonstration: two Kong gateways and a Keycloak realm,
  the two Python services behind the gateways, and the Python scripts that provision, check and
  synchronise the deployment.

  \<^bold>\<open>The program.\<close> A browser user reaches the third-party gateway, which obtains sender-constrained
  tokens from Keycloak and calls \<open>src/third-party-backend/app.py\<close>. The backend calls the API gateway with
  the token, and the API gateway calls \<open>src/pop-verifier/app.py\<close>, which answers with evidence of the
  token's binding to the client certificate; the backend checks that evidence and passes on thirteen of
  its fields. The scripts form a chain: \<open>generate-pki.py\<close> makes certificates, \<open>export-rsa-jwk.py\<close> exports a
  key, \<open>render-runtime-secrets.py\<close> turns both into role inputs, \<open>render-keycloak-realm.py\<close> and
  \<open>sync-keycloak-demo-data.py\<close> bring the realm to Keycloak, \<open>render-runtime-env.py\<close> records the two gateway
  targets, and \<open>wp1_target.py\<close> and \<open>run-deck.py\<close> check targets, states, approvals and role inputs before
  they let decK change a gateway (\<open>wp1.py\<close> and \<open>wp3_runtime.py\<close> are their libraries).
  \<open>wp5-demo-forward.py\<close> forwards a local port for the demonstration.

  \<^bold>\<open>Foundations.\<close>
  \<^item> \<open>Fapi_Prelude\<close>: Python exceptions as values, the result type \<open>exn + 'a\<close> with its sequencing,
    actions on a state (\<open>stateful\<close>) and on a list of events (\<open>run\<close>).
  \<^item> \<open>Py_Text\<close>, \<open>Py_Codec\<close>: the string methods, UTF-8, percent and base64url encodings the sources use;
    the locale \<open>codec\<close> states that decoding undoes encoding and is interpreted for each of them.
  \<^item> \<open>Py_Value\<close>, \<open>Py_Json\<close>, \<open>Py_Json_Roundtrip\<close>: Python values with their equality, dictionaries in
    insertion order (locale \<open>kv_store\<close>), the reader and the writer of \<open>json\<close> in all the styles of white
    space that are used, and that reading undoes writing.
  \<^item> \<open>Http_Service\<close>, \<open>Url_Split\<close>, \<open>Konnect_Api\<close>: requests and responses, TLS contexts, \<open>urlsplit\<close>, and
    calls of a remote API as actions that record the requests sent. The locale \<open>peer_gate\<close> is the contract
    of a service that talks only to a pinned peer; both services interpret it.

  \<^bold>\<open>Services.\<close>
  \<^item> \<open>Pop_Verifier\<close> (\<open>src/pop-verifier/app.py\<close>): exactly when a request is granted, what the evidence
    says, that refusals carry fixed reasons and that other peers get nothing.
  \<^item> \<open>Third_Party_Backend\<close>, \<open>Backend_Readiness\<close> (\<open>src/third-party-backend/app.py\<close>): exactly which
    evidence is accepted, the single fixed upstream request, and the readiness channel with its receive
    loop.
  \<^item> \<open>End_To_End\<close>: what the verifier grants, the backend accepts and returns unchanged.

  \<^bold>\<open>Gateway targets and states.\<close>
  \<^item> \<open>Wp1_Targets\<close> (\<open>wp1.py\<close>), \<open>Schema_Sync\<close>, \<open>Deck_Yaml\<close>, \<open>Foundation_State\<close>,
    \<open>Third_Party_Runtime\<close>, \<open>Wp1_Main\<close> (\<open>wp1_target.py\<close>), \<open>Api_Runtime\<close> (\<open>wp3_runtime.py\<close>): which target
    manifests and which YAML states are accepted, the pagination and synchronisation of plugin schemas
    (with convergence, and writes pinned to the inventory the service answered), and that the command sends requests only after its local checks.
  \<^item> \<open>Deck_Diff\<close>, \<open>Private_Files\<close> (\<open>wp3_runtime.py\<close>), \<open>Redaction\<close>, \<open>Deck_Approval\<close>, \<open>Deck_Run\<close>
    (\<open>run-deck.py\<close>): the report of a decK diff and its scope, approval receipts bound to digests of the
    inputs, redaction of secrets, and the launcher as a sequence of events (looks at files, API requests,
    decK calls, output) in which the files may change between any two looks. Theorems: nothing leaves the
    machine before the local checks; a run asked for a diff does not synchronise; a synchronisation of a
    runtime follows an accepted receipt, a fresh diff equal to the reviewed one, and a second look at the
    inputs, and decK then runs with the reviewed target and role inputs. The statements name the look at
    which each file was read, so that a value kept from an earlier look does not satisfy them.

  \<^bold>\<open>Keycloak, keys, rendering, forwarding.\<close>
  \<^item> \<open>Keycloak_Plan\<close>, \<open>Keycloak_Sync\<close> (\<open>sync-keycloak-demo-data.py\<close>): planning, applying and verifying;
    plans converge, all plans are computed before the first write, clients, realm settings and key
    provider are read back after the last write to them, and the wait for Keycloak ends.
  \<^item> \<open>Rsa_Jwk\<close> (\<open>export-rsa-jwk.py\<close>): the DER reader and the exported JWK.
  \<^item> \<open>Dev_Pki\<close> (\<open>generate-pki.py\<close>): the certificate directory is only ever completed; of the files
    already there only the serial number file of the authority may be rewritten.
  \<^item> \<open>Render_Realm\<close>, \<open>Render_Targets\<close>, \<open>Render_Secrets\<close> (the three renderers): what they write is what
    the later scripts read and accept; files are replaced atomically.
  \<^item> \<open>Tcp_Forward\<close> (\<open>wp5-demo-forward.py\<close>): the forwarder as a step relation over its threads, with
    mutual exclusion, a listener opened once, the closing of connections on \<open>stop\<close>, and the deadlock on a
    signal that arrives while \<open>stop\<close> holds the lock.

  \<^bold>\<open>Parameters.\<close> Code outside \<open>src/\<close> is an argument of the definitions that use it: SHA-256, the
  x509 parsers, PyJWT with its key set client, \<open>openssl\<close>, the composer of PyYAML, Terraform, decK, the
  Konnect and Keycloak APIs (which may also fail with any exception of sending or reading), files and their faults, the iteration order of a Python set, and the
  conversion of floats. What is assumed of them is a named hypothesis of the theorem that needs it
  (such as \<open>sound_system\<close> and \<open>sound_store\<close>), and a witness instantiates it.

  \<^bold>\<open>Bounds and fuel.\<close> The JSON reader runs on fuel \<open>2 n + 1\<close> for a text of length \<open>n\<close>, which is proved to
  be enough; Python's recursion limit is the parameter \<open>depth\<close>. The loops of the sources keep their
  bounds: 1000 pages, 30 token requests, 16 KiB receipts, 1 MiB role files and digest chunks, 64 KiB
  responses. All other recursion is structural or has a termination proof.

  \<^bold>\<open>Not modelled.\<close> Sockets, the accept loops and the threads of the HTTP servers; \<open>argparse\<close> and the text of
  messages that no code reads; modes set by \<open>umask\<close>; concurrent changes inside one call of a file reader.
  The Kong plugins are Lua, the user interface is a browser script, the gateway states, the realm and the
  infrastructure are data in YAML, JSON and Terraform, and the shell scripts only start the Python ones:
  none of them is Python code, and where the program reads them they are inputs of the model. The tests
  and live harnesses under \<open>src/tests\<close> are not part of the program.
\<close>

end
